(* ===== verification/Go_Strings.thy ===== *)
theory Go_Strings
  imports Prelude "HOL-Library.Char_ord" "HOL-Library.List_Lexorder"
begin

text \<open>
  The functions of Go's \<open>strings\<close>, \<open>strconv\<close> and \<open>encoding/hex\<close> packages that the program calls,
  as functions on byte strings. A Go \<open>string\<close> is a sequence of bytes, and so is a HOL
  \<open>string\<close> (a \<open>char\<close> is an 8-bit value); \<open><\<close> on strings is the bytewise lexicographic order of
  both. \<open>TrimSpace\<close> strips the UTF-8 encodings of all Unicode white space. \<open>ToLower\<close> and the
  folding behind \<open>EqualFold\<close> treat ASCII letters and the three non-ASCII runes whose lower case
  or fold is an ASCII letter (U+212A, U+0130, U+017F); other non-ASCII letters are left as they are, which
  cannot be told apart where the result is compared with an ASCII literal, the program's only use.
\<close>

section \<open>Prefixes, suffixes, substrings\<close>

definition HasPrefix :: "string \<Rightarrow> string \<Rightarrow> bool" where
  "HasPrefix s p \<longleftrightarrow> take (length p) s = p"

definition HasSuffix :: "string \<Rightarrow> string \<Rightarrow> bool" where
  "HasSuffix s p \<longleftrightarrow> length p \<le> length s \<and> drop (length s - length p) s = p"

definition TrimPrefix :: "string \<Rightarrow> string \<Rightarrow> string" where
  "TrimPrefix s p = (if HasPrefix s p then drop (length p) s else s)"

fun Contains :: "string \<Rightarrow> string \<Rightarrow> bool" where
  "Contains [] sub = (sub = [])"
| "Contains (c # s) sub = (HasPrefix (c # s) sub \<or> Contains s sub)"

lemma HasPrefix_iff: "HasPrefix s p \<longleftrightarrow> (\<exists>t. s = p @ t)"
  unfolding HasPrefix_def by (metis append_take_drop_id take_eq_prefix)

lemma HasPrefix_append [simp]: "HasPrefix (p @ t) p"
  by (simp add: HasPrefix_def)

lemma HasPrefix_Nil [simp]: "HasPrefix s []"
  by (simp add: HasPrefix_def)

lemma HasPrefix_Nil_left [simp]: "HasPrefix [] p \<longleftrightarrow> p = []"
  by (auto simp: HasPrefix_def)

lemma HasPrefix_Cons [simp]: "HasPrefix (c # s) (d # p) \<longleftrightarrow> c = d \<and> HasPrefix s p"
  by (auto simp: HasPrefix_def)

lemma HasSuffix_iff: "HasSuffix s p \<longleftrightarrow> (\<exists>t. s = t @ p)"
proof
  assume "HasSuffix s p"
  then have "s = take (length s - length p) s @ p"
    unfolding HasSuffix_def by (metis append_take_drop_id)
  then show "\<exists>t. s = t @ p" ..
qed (auto simp: HasSuffix_def)

lemma HasSuffix_append [simp]: "HasSuffix (t @ p) p"
  by (simp add: HasSuffix_def)

lemma TrimPrefix_append [simp]: "TrimPrefix (p @ t) p = t"
  by (simp add: TrimPrefix_def)

lemma Contains_singleton [simp]: "Contains s [c] \<longleftrightarrow> c \<in> set s"
  by (induction s) auto

lemma Contains_iff: "Contains s sub \<longleftrightarrow> (\<exists>u v. s = u @ sub @ v)"
proof (induction s)
  case Nil
  then show ?case by auto
next
  case (Cons c s)
  show ?case
  proof
    assume "Contains (c # s) sub"
    then show "\<exists>u v. c # s = u @ sub @ v"
      using Cons.IH by (auto simp: HasPrefix_iff) (metis append_Cons append_Nil)+
  next
    assume "\<exists>u v. c # s = u @ sub @ v"
    then obtain u v where uv: "c # s = u @ sub @ v" by blast
    show "Contains (c # s) sub"
    proof (cases u)
      case Nil
      with uv have "HasPrefix (c # s) sub" by (simp add: HasPrefix_iff)
      then show ?thesis by simp
    next
      case (Cons d u')
      with uv Cons.IH show ?thesis by auto
    qed
  qed
qed

section \<open>Splitting\<close>

fun Split :: "string \<Rightarrow> char \<Rightarrow> string list" where
  "Split [] sep = [[]]"
| "Split (c # s) sep =
     (if c = sep then [] # Split s sep
      else (case Split s sep of [] \<Rightarrow> [[c]] | part # parts \<Rightarrow> (c # part) # parts))"

text \<open>\<open>SplitN(s, sep, 2)\<close>: at most one cut, at the first separator.\<close>

definition SplitN2 :: "string \<Rightarrow> char \<Rightarrow> string list" where
  "SplitN2 s sep =
     (if sep \<in> set s
      then [takeWhile (\<lambda>c. c \<noteq> sep) s, tl (dropWhile (\<lambda>c. c \<noteq> sep) s)]
      else [s])"

fun join_with :: "string \<Rightarrow> string list \<Rightarrow> string" where
  "join_with sep [] = []"
| "join_with sep [p] = p"
| "join_with sep (p # q # ps) = p @ sep @ join_with sep (q # ps)"

lemma Split_not_Nil [simp]: "Split s sep \<noteq> []"
  by (induction s) (auto split: list.splits)

lemma Split_parts_no_sep: "p \<in> set (Split s sep) \<Longrightarrow> sep \<notin> set p"
  by (induction s arbitrary: p) (auto split: list.splits if_splits)

lemma join_with_Cons_head: "join_with sep ((c # p) # ps) = c # join_with sep (p # ps)"
  by (cases ps) auto

lemma join_with_Nil_Cons: "ps \<noteq> [] \<Longrightarrow> join_with sep ([] # ps) = sep @ join_with sep ps"
  by (cases ps) auto

lemma takeWhile_cut [simp]: "c \<notin> set a \<Longrightarrow> takeWhile (\<lambda>x. x \<noteq> c) (a @ c # b) = a"
  by (induction a) auto

lemma dropWhile_cut [simp]: "c \<notin> set a \<Longrightarrow> dropWhile (\<lambda>x. x \<noteq> c) (a @ c # b) = c # b"
  by (induction a) auto

lemma join_Split: "join_with [sep] (Split s sep) = s"
proof (induction s)
  case (Cons c s)
  show ?case
  proof (cases "c = sep")
    case True
    then show ?thesis
      using Cons.IH join_with_Nil_Cons [OF Split_not_Nil, of "[sep]" s sep] by simp
  next
    case False
    then show ?thesis
      using Cons.IH by (cases "Split s sep") (auto simp: join_with_Cons_head)
  qed
qed simp

lemma Split_no_sep [simp]: "sep \<notin> set s \<Longrightarrow> Split s sep = [s]"
  by (induction s) auto

lemma Split_append_sep: "Split (a @ sep # b) sep = Split a sep @ Split b sep"
proof (induction a)
  case (Cons c a)
  then show ?case by (cases "Split a sep") auto
qed simp

lemma Split_join:
  "ps \<noteq> [] \<Longrightarrow> (\<forall>p \<in> set ps. sep \<notin> set p) \<Longrightarrow> Split (join_with [sep] ps) sep = ps"
  by (induction "[sep]" ps rule: join_with.induct) (auto simp: Split_append_sep)

lemma join_with_snoc: "ps \<noteq> [] \<Longrightarrow> join_with sep (ps @ [q]) = join_with sep ps @ sep @ q"
  by (induction sep ps rule: join_with.induct) auto

lemma SplitN2_cases:
  "SplitN2 s sep = [s] \<and> sep \<notin> set s \<or>
   (\<exists>a b. SplitN2 s sep = [a, b] \<and> s = a @ sep # b \<and> sep \<notin> set a)"
proof (cases "sep \<in> set s")
  case True
  then obtain a b where "s = a @ sep # b" "sep \<notin> set a"
    by (meson split_list_first)
  then show ?thesis by (simp add: SplitN2_def)
qed (simp add: SplitN2_def)

lemma SplitN2_cut: "sep \<notin> set a \<Longrightarrow> SplitN2 (a @ sep # b) sep = [a, b]"
  by (simp add: SplitN2_def)


section \<open>Trimming\<close>

text \<open>The UTF-8 encodings of the runes for which \<open>unicode.IsSpace\<close> holds.\<close>

definition space_runes :: "string list" where
  "space_runes = map (map char_of)
     (map (\<lambda>n. [n]) [0x09, 0x0A, 0x0B, 0x0C, 0x0D, 0x20] @ map (\<lambda>n. [0xC2, n]) [0x85, 0xA0] @
      [[0xE1, 0x9A, 0x80]] @ map (\<lambda>n. [0xE2, 0x80, n]) ([0x80..<0x8B] @ [0xA8, 0xA9, 0xAF]) @
      [[0xE2, 0x81, 0x9F], [0xE3, 0x80, 0x80 :: nat]])"

definition strip_one :: "string list \<Rightarrow> string \<Rightarrow> string option" where
  "strip_one ps s =
     (case find (\<lambda>p. p \<noteq> [] \<and> HasPrefix s p) ps of
        None \<Rightarrow> None | Some p \<Rightarrow> Some (drop (length p) s))"

lemma strip_one_Some: "strip_one ps s = Some t \<Longrightarrow> \<exists>p \<in> set ps. p \<noteq> [] \<and> s = p @ t"
  by (auto simp: strip_one_def find_Some_iff HasPrefix_def split: option.splits)
     (metis append_take_drop_id nth_mem)

lemma strip_one_shorter: "strip_one ps s = Some t \<Longrightarrow> length t < length s"
  by (auto dest!: strip_one_Some)

function strip_lead :: "string list \<Rightarrow> string \<Rightarrow> string" where
  "strip_lead ps s = (case strip_one ps s of None \<Rightarrow> s | Some t \<Rightarrow> strip_lead ps t)"
  by pat_completeness auto
termination
  by (relation "measure (\<lambda>(ps, s). length s)") (auto dest: strip_one_shorter)

declare strip_lead.simps [simp del]

definition TrimSpace :: "string \<Rightarrow> string" where
  "TrimSpace s = rev (strip_lead (map rev space_runes) (rev (strip_lead space_runes s)))"

definition TrimRight :: "string \<Rightarrow> string \<Rightarrow> string" where
  "TrimRight s cutset = rev (dropWhile (\<lambda>c. c \<in> set cutset) (rev s))"

lemma strip_lead_None [simp]: "strip_one ps s = None \<Longrightarrow> strip_lead ps s = s"
  by (simp add: strip_lead.simps [of ps s])

lemma strip_lead_suffix: "\<exists>u. s = u @ strip_lead ps s"
proof (induction ps s rule: strip_lead.induct)
  case (1 ps s)
  show ?case
  proof (cases "strip_one ps s")
    case None
    then show ?thesis by (simp add: strip_lead.simps [of ps s])
  next
    case (Some t)
    then obtain p u where "s = p @ t" "t = u @ strip_lead ps t"
      using strip_one_Some 1 by metis
    with Some show ?thesis by (metis append.assoc option.simps(5) strip_lead.simps)
  qed
qed

lemma strip_lead_done: "strip_one ps (strip_lead ps s) = None"
proof (induction ps s rule: strip_lead.induct)
  case (1 ps s)
  then show ?case
    by (cases "strip_one ps s") (simp_all add: strip_lead.simps [of ps s])
qed

lemma TrimSpace_infix: "\<exists>u v. s = u @ TrimSpace s @ v"
proof -
  obtain u where u: "s = u @ strip_lead space_runes s"
    using strip_lead_suffix by blast
  obtain v where v: "rev (strip_lead space_runes s) = v @ rev (TrimSpace s)"
    using strip_lead_suffix unfolding TrimSpace_def by (metis rev_rev_ident)
  from v have "strip_lead space_runes s = TrimSpace s @ rev v"
    by (metis rev_append rev_rev_ident)
  with u show ?thesis by metis
qed

lemma set_TrimSpace: "set (TrimSpace s) \<subseteq> set s"
  using TrimSpace_infix [of s] by (metis Un_iff set_append subsetI)

lemma TrimSpace_Nil [simp]: "TrimSpace [] = []"
  using TrimSpace_infix [of "[]"] by simp

text \<open>A string that neither starts nor ends with a byte of white space is left alone.\<close>

definition graphic :: "char \<Rightarrow> bool" where
  "graphic c \<longleftrightarrow> 0x20 < (of_char c :: nat) \<and> (of_char c :: nat) < 0x80"

lemma strip_one_None_hd: "(\<And>p. p \<in> set ps \<Longrightarrow> hd p \<noteq> c) \<Longrightarrow> strip_one ps (c # s) = None"
proof -
  assume hd: "\<And>p. p \<in> set ps \<Longrightarrow> hd p \<noteq> c"
  have "find (\<lambda>p. p \<noteq> [] \<and> HasPrefix (c # s) p) ps = None"
    using hd by (auto simp: find_None_iff neq_Nil_conv) force
  then show ?thesis by (simp add: strip_one_def)
qed

lemma space_runes_graphic: "\<forall>p \<in> set space_runes. \<not> graphic (hd p) \<and> \<not> graphic (last p)"
  unfolding space_runes_def graphic_def by (auto simp: upt_rec)

lemma strip_one_graphic:
  "graphic c \<Longrightarrow> strip_one space_runes (c # s) = None"
  "graphic c \<Longrightarrow> strip_one (map rev space_runes) (c # s) = None"
  using space_runes_graphic by (auto intro!: strip_one_None_hd simp: hd_rev)

lemma TrimSpace_graphic_ends:
  assumes "graphic (hd s)" "graphic (last s)"
  shows "TrimSpace s = s"
proof (cases s rule: rev_cases)
  case (snoc t d)
  then obtain c u where cu: "s = c # u" by (metis append_is_Nil_conv list.exhaust not_Cons_self2)
  have "strip_lead space_runes s = s"
    using assms(1) cu by (simp add: strip_one_graphic)
  moreover have "strip_lead (map rev space_runes) (rev s) = rev s"
    using assms(2) snoc by (simp add: strip_one_graphic del: strip_lead.simps)
  ultimately show ?thesis by (simp add: TrimSpace_def)
qed simp

lemma TrimSpace_all_graphic: "(\<forall>c \<in> set s. graphic c) \<Longrightarrow> TrimSpace s = s"
  by (cases "s = []") (auto intro!: TrimSpace_graphic_ends)

lemma TrimRight_append_cut: "\<exists>u. s = TrimRight s cs @ u \<and> set u \<subseteq> set cs"
proof -
  have "rev s = takeWhile (\<lambda>c. c \<in> set cs) (rev s) @ rev (TrimRight s cs)"
    by (simp add: TrimRight_def)
  then have "s = TrimRight s cs @ rev (takeWhile (\<lambda>c. c \<in> set cs) (rev s))"
    by (metis rev_append rev_rev_ident)
  moreover have "set (rev (takeWhile (\<lambda>c. c \<in> set cs) (rev s))) \<subseteq> set cs"
    by (auto dest: set_takeWhileD)
  ultimately show ?thesis by blast
qed

section \<open>Case\<close>

definition ascii_lower :: "char \<Rightarrow> char" where
  "ascii_lower c = (if CHR ''A'' \<le> c \<and> c \<le> CHR ''Z'' then char_of (of_char c + (32::nat)) else c)"

fun ToLower :: "string \<Rightarrow> string" where
  "ToLower [] = []"
| "ToLower (c # s) =
     (if HasPrefix (c # s) [CHR 0xE2, CHR 0x84, CHR 0xAA] then CHR ''k'' # ToLower (drop 2 s)
      else if HasPrefix (c # s) [CHR 0xC4, CHR 0xB0] then CHR ''i'' # ToLower (drop 1 s)
      else ascii_lower c # ToLower s)"

fun fold_case :: "string \<Rightarrow> string" where
  "fold_case [] = []"
| "fold_case (c # s) =
     (if HasPrefix (c # s) [CHR 0xE2, CHR 0x84, CHR 0xAA] then CHR ''k'' # fold_case (drop 2 s)
      else if HasPrefix (c # s) [CHR 0xC5, CHR 0xBF] then CHR ''s'' # fold_case (drop 1 s)
      else ascii_lower c # fold_case s)"

definition EqualFold :: "string \<Rightarrow> string \<Rightarrow> bool" where
  "EqualFold s t \<longleftrightarrow> fold_case s = fold_case t"

definition ascii :: "string \<Rightarrow> bool" where
  "ascii s \<longleftrightarrow> (\<forall>c \<in> set s. (of_char c :: nat) < 0x80)"

lemma ToLower_ascii: "ascii s \<Longrightarrow> ToLower s = map ascii_lower s"
  by (induction s) (auto simp: ascii_def)

lemma ascii_lower_idem [simp]: "ascii_lower (ascii_lower c) = ascii_lower c"
  by (auto simp: ascii_lower_def less_eq_char_def of_char_mod_256)


section \<open>Numbers\<close>

definition digit :: "nat \<Rightarrow> char" where
  "digit d = char_of (48 + d)"

definition is_digit :: "char \<Rightarrow> bool" where
  "is_digit c \<longleftrightarrow> CHR ''0'' \<le> c \<and> c \<le> CHR ''9''"

definition digit_val :: "char \<Rightarrow> nat" where
  "digit_val c = of_char c - 48"

fun dec_nat :: "nat \<Rightarrow> string" where
  "dec_nat n = (if n < 10 then [digit n] else dec_nat (n div 10) @ [digit (n mod 10)])"

declare dec_nat.simps [simp del]

text \<open>\<open>strconv.FormatInt(n, 10)\<close> and the \<open>%d\<close> verb.\<close>

definition FormatInt :: "int \<Rightarrow> string" where
  "FormatInt n = (if n < 0 then CHR ''-'' # dec_nat (nat (- n)) else dec_nat (nat n))"

fun dec_val :: "nat \<Rightarrow> string \<Rightarrow> nat" where
  "dec_val acc [] = acc"
| "dec_val acc (c # s) = dec_val (10 * acc + digit_val c) s"

text \<open>
  \<open>strconv.ParseInt(s, 10, 64)\<close>, and \<open>strconv.Atoi\<close> on a 64-bit target: an optional sign, then
  at least one digit; \<open>None\<close> for a syntax or a range error.
\<close>

definition ParseInt :: "string \<Rightarrow> int option" where
  "ParseInt s =
     (let neg = HasPrefix s ''-'';
          body = (if HasPrefix s ''-'' \<or> HasPrefix s ''+'' then drop 1 s else s)
      in if body = [] \<or> \<not> list_all is_digit body then None
         else let n = (if neg then - int (dec_val 0 body) else int (dec_val 0 body))
              in if in_int64 n then Some n else None)"

definition ParseBool :: "string \<Rightarrow> bool option" where
  "ParseBool s =
     (if s \<in> set [''1'', ''t'', ''T'', ''TRUE'', ''true'', ''True''] then Some True
      else if s \<in> set [''0'', ''f'', ''F'', ''FALSE'', ''false'', ''False''] then Some False
      else None)"

lemma digit_props [simp]:
  "d < 10 \<Longrightarrow> is_digit (digit d)" "d < 10 \<Longrightarrow> digit_val (digit d) = d"
  by (simp_all add: digit_def is_digit_def digit_val_def less_eq_char_def)

lemma dec_nat_digits: "c \<in> set (dec_nat n) \<Longrightarrow> is_digit c"
proof (induction n rule: dec_nat.induct)
  case (1 n)
  then show ?case by (cases "n < 10") (auto simp: dec_nat.simps [of n])
qed

lemma dec_nat_not_Nil [simp]: "dec_nat n \<noteq> []"
  by (subst dec_nat.simps) simp

lemma dec_val_append: "dec_val acc (s @ [c]) = 10 * dec_val acc s + digit_val c"
  by (induction s arbitrary: acc) auto

lemma dec_val_dec_nat [simp]: "dec_val 0 (dec_nat n) = n"
proof (induction n rule: dec_nat.induct)
  case (1 n)
  then show ?case
    by (cases "n < 10") (simp_all add: dec_nat.simps [of n] dec_val_append)
qed

lemma dec_nat_hd_digit: "\<exists>c s. dec_nat n = c # s \<and> is_digit c"
  by (metis dec_nat_digits dec_nat_not_Nil list.exhaust list.set_intros(1))

lemma is_digit_not_sign: "is_digit c \<Longrightarrow> c \<noteq> CHR ''-'' \<and> c \<noteq> CHR ''+''"
  by (auto simp: is_digit_def less_eq_char_def)

lemma ParseInt_FormatInt: "in_int64 n \<Longrightarrow> ParseInt (FormatInt n) = Some n"
proof -
  assume n: "in_int64 n"
  obtain c s where cs: "dec_nat (nat n) = c # s" and "is_digit c"
    using dec_nat_hd_digit by blast
  then have sign: "c \<noteq> CHR ''-''" "c \<noteq> CHR ''+''" by (auto dest: is_digit_not_sign)
  have digits: "list_all is_digit (dec_nat k)" for k
    using dec_nat_digits by (auto simp: list_all_iff)
  show ?thesis
  proof (cases "n < 0")
    case True
    with n digits show ?thesis by (simp add: ParseInt_def FormatInt_def)
  next
    case False
    then have "dec_val 0 (c # s) = nat n" using cs by (metis dec_val_dec_nat)
    with False n cs sign digits [of "nat n"] show ?thesis
      by (simp add: ParseInt_def FormatInt_def Let_def del: dec_val.simps)
  qed
qed

lemma FormatInt_chars: "c \<in> set (FormatInt n) \<Longrightarrow> is_digit c \<or> c = CHR ''-''"
  by (auto simp: FormatInt_def dest: dec_nat_digits split: if_splits)

lemma FormatInt_inject: "FormatInt a = FormatInt b \<longleftrightarrow> a = b"
proof
  assume eq: "FormatInt a = FormatInt b"
  have sign: "a < 0 \<longleftrightarrow> b < 0"
    using eq dec_nat_hd_digit is_digit_not_sign
    unfolding FormatInt_def by (metis list.inject)
  then have "dec_nat (nat \<bar>a\<bar>) = dec_nat (nat \<bar>b\<bar>)"
    using eq by (auto simp: FormatInt_def split: if_splits)
  then have "nat \<bar>a\<bar> = nat \<bar>b\<bar>" by (metis dec_val_dec_nat)
  with sign show "a = b" by linarith
qed simp

section \<open>Hexadecimal encoding\<close>

definition hex_digit :: "nat \<Rightarrow> char" where
  "hex_digit d = (if d < 10 then char_of (48 + d) else char_of (87 + d))"

definition hex_val :: "char \<Rightarrow> nat option" where
  "hex_val c =
     (if CHR ''0'' \<le> c \<and> c \<le> CHR ''9'' then Some (of_char c - 48)
      else if CHR ''a'' \<le> c \<and> c \<le> CHR ''f'' then Some (of_char c - 87)
      else if CHR ''A'' \<le> c \<and> c \<le> CHR ''F'' then Some (of_char c - 55)
      else None)"

text \<open>\<open>hex.EncodeToString\<close> and \<open>hex.DecodeString\<close> (\<open>None\<close>: a bad digit or an odd length).\<close>

fun hex_EncodeToString :: "string \<Rightarrow> string" where
  "hex_EncodeToString [] = []"
| "hex_EncodeToString (b # bs) =
     hex_digit (of_char b div 16) # hex_digit (of_char b mod 16) # hex_EncodeToString bs"

fun hex_DecodeString :: "string \<Rightarrow> string option" where
  "hex_DecodeString [] = Some []"
| "hex_DecodeString [c] = None"
| "hex_DecodeString (c # d # s) =
     (case (hex_val c, hex_val d, hex_DecodeString s) of
        (Some h, Some l, Some bs) \<Rightarrow> Some (char_of (16 * h + l) # bs)
      | _ \<Rightarrow> None)"

lemma hex_val_digit [simp]: "d < 16 \<Longrightarrow> hex_val (hex_digit d) = Some d"
  by (auto simp: hex_val_def hex_digit_def less_eq_char_def)

lemma hex_roundtrip [simp]: "hex_DecodeString (hex_EncodeToString bs) = Some bs"
proof (induction bs)
  case (Cons b bs)
  have "of_char b < (256::nat)" by (rule nat_of_char_less_256)
  then have "of_char b div 16 < (16::nat)" by linarith
  with Cons show ?case by (simp add: mult.commute [of 16])
qed simp

lemma hex_EncodeToString_inject: "hex_EncodeToString a = hex_EncodeToString b \<longleftrightarrow> a = b"
  by (metis hex_roundtrip option.inject)

lemma length_hex_EncodeToString [simp]: "length (hex_EncodeToString bs) = 2 * length bs"
  by (induction bs) auto

lemma hex_digit_class: "d < 16 \<Longrightarrow> is_digit (hex_digit d) \<or> CHR ''a'' \<le> hex_digit d \<and> hex_digit d \<le> CHR ''f''"
  by (auto simp: hex_digit_def is_digit_def less_eq_char_def)

lemma hex_EncodeToString_chars:
  "c \<in> set (hex_EncodeToString bs) \<Longrightarrow> is_digit c \<or> CHR ''a'' \<le> c \<and> c \<le> CHR ''f''"
proof (induction bs)
  case (Cons b bs)
  have "of_char b < (256::nat)" by (rule nat_of_char_less_256)
  then have "of_char b div 16 < (16::nat)" by linarith
  then have "\<forall>x \<in> {hex_digit (of_char b div 16), hex_digit (of_char b mod 16)}.
      is_digit x \<or> CHR ''a'' \<le> x \<and> x \<le> CHR ''f''"
    using hex_digit_class [of "of_char b mod 16"] hex_digit_class [of "of_char b div 16"] by simp
  with Cons show ?case by auto
qed simp

end
