(* ===== verification/Metrics.thy ===== *)
theory Metrics
  imports Go_Strings
begin

text \<open>
  Package \<open>metrics\<close>. The Prometheus library is not part of the repository: the model records which
  collectors \<open>New\<close> creates and registers, and every call made on a collector, as a trace of events. A \<open>nil\<close>
  \<open>*Metrics\<close> is \<open>None\<close>. Two rules of the library matter, since it panics when they are broken: the names of
  registered collectors are distinct, and \<open>WithLabelValues\<close> takes as many values as the collector has labels.
\<close>

datatype metric_kind = CounterVec | HistogramVec "int list option" | GaugeVec | Gauge | Counter

record collector =
  co_name :: string
  co_kind :: metric_kind
  co_labels :: "string list"

definition coll :: "string \<Rightarrow> metric_kind \<Rightarrow> string list \<Rightarrow> collector" where
  "coll n k ls = \<lparr>co_name = ''audistro_provider_'' @ n, co_kind = k, co_labels = ls\<rparr>"

text \<open>The collectors of the package in the order of registration; \<open>None\<close> stands for the default buckets.\<close>

definition New :: "collector list" where
  "New =
    [coll ''http_requests_total'' CounterVec [''route'', ''method'', ''status''],
     coll ''http_request_duration_seconds'' (HistogramVec None) [''route'', ''method''],
     coll ''http_response_bytes''
       (HistogramVec (Some [128, 512, 1024, 4 * 1024, 16 * 1024, 64 * 1024, 256 * 1024, 1024 * 1024, 4 * 1024 * 1024]))
       [''route'', ''method''],
     coll ''http_inflight_requests'' GaugeVec [''route''],
     coll ''scanner_scans_total'' CounterVec [''result''],
     coll ''scanner_scan_duration_seconds'' (HistogramVec None) [''result''],
     coll ''catalog_requests_total'' CounterVec [''endpoint'', ''result'', ''status''],
     coll ''catalog_request_duration_seconds'' (HistogramVec None) [''endpoint'', ''result''],
     coll ''announcements_total'' CounterVec [''result''],
     coll ''announce_sweeps_total'' CounterVec [''result''],
     coll ''active_assets'' Gauge [],
     coll ''missing_assets'' Gauge [],
     coll ''deferred_announces'' Gauge [],
     coll ''proxy_requests_total'' CounterVec [''result'', ''status''],
     coll ''proxy_request_duration_seconds'' (HistogramVec None) [''result''],
     coll ''proxy_upstream_inflight'' Gauge [],
     coll ''proxy_upstream_busy_total'' Counter []]"

text \<open>The calls on collectors. Durations are nanoseconds; a gauge call carries what it does.\<close>

datatype metric_call = Inc | Dec | SetTo int | ObserveDuration int | ObserveBytes int

record metric_event =
  ev_name :: string
  ev_labels :: "string list"
  ev_call :: metric_call

type_synonym metrics = "metric_event list option"

definition event :: "string \<Rightarrow> string list \<Rightarrow> metric_call \<Rightarrow> metric_event" where
  "event n ls c = \<lparr>ev_name = ''audistro_provider_'' @ n, ev_labels = ls, ev_call = c\<rparr>"

definition emit :: "metric_event list \<Rightarrow> metrics \<Rightarrow> metrics" where
  "emit es m = map_option (\<lambda>l. l @ es) m"

definition ObserveHTTPRequest :: "string \<Rightarrow> string \<Rightarrow> int \<Rightarrow> int \<Rightarrow> int \<Rightarrow> metrics \<Rightarrow> metrics" where
  "ObserveHTTPRequest route method status duration bytesOut =
     emit ([event ''http_requests_total'' [route, method, FormatInt status] Inc,
            event ''http_request_duration_seconds'' [route, method] (ObserveDuration duration)] @
           (if 0 \<le> bytesOut then [event ''http_response_bytes'' [route, method] (ObserveBytes bytesOut)] else []))"

text \<open>The two functions that return a closure: the call itself and the closure.\<close>

definition IncInFlight :: "string \<Rightarrow> metrics \<Rightarrow> metrics" where
  "IncInFlight route = emit [event ''http_inflight_requests'' [route] Inc]"

definition IncInFlight_done :: "string \<Rightarrow> metrics \<Rightarrow> metrics" where
  "IncInFlight_done route = emit [event ''http_inflight_requests'' [route] Dec]"

definition ObserveScan :: "string \<Rightarrow> int \<Rightarrow> metrics \<Rightarrow> metrics" where
  "ObserveScan result duration =
     emit [event ''scanner_scans_total'' [result] Inc,
           event ''scanner_scan_duration_seconds'' [result] (ObserveDuration duration)]"

definition ObserveCatalog :: "string \<Rightarrow> string \<Rightarrow> int \<Rightarrow> int \<Rightarrow> metrics \<Rightarrow> metrics" where
  "ObserveCatalog endpoint result status duration =
     emit [event ''catalog_requests_total'' [endpoint, result, FormatInt status] Inc,
           event ''catalog_request_duration_seconds'' [endpoint, result] (ObserveDuration duration)]"

definition ObserveAnnounce :: "string \<Rightarrow> metrics \<Rightarrow> metrics" where
  "ObserveAnnounce result = emit [event ''announcements_total'' [result] Inc]"

definition ObserveAnnounceSweep :: "string \<Rightarrow> metrics \<Rightarrow> metrics" where
  "ObserveAnnounceSweep result = emit [event ''announce_sweeps_total'' [result] Inc]"

definition SetActiveAssets :: "int \<Rightarrow> metrics \<Rightarrow> metrics" where
  "SetActiveAssets n = emit [event ''active_assets'' [] (SetTo n)]"

definition SetMissingAssets :: "int \<Rightarrow> metrics \<Rightarrow> metrics" where
  "SetMissingAssets n = emit [event ''missing_assets'' [] (SetTo n)]"

definition SetDeferredAnnounces :: "int \<Rightarrow> metrics \<Rightarrow> metrics" where
  "SetDeferredAnnounces n = emit [event ''deferred_announces'' [] (SetTo n)]"

definition ObserveProxy :: "int \<Rightarrow> int \<Rightarrow> string \<Rightarrow> metrics \<Rightarrow> metrics" where
  "ObserveProxy status duration result =
     emit [event ''proxy_requests_total'' [result, FormatInt status] Inc,
           event ''proxy_request_duration_seconds'' [result] (ObserveDuration duration)]"

definition IncProxyUpstreamInFlight :: "metrics \<Rightarrow> metrics" where
  "IncProxyUpstreamInFlight = emit [event ''proxy_upstream_inflight'' [] Inc]"

definition IncProxyUpstreamInFlight_done :: "metrics \<Rightarrow> metrics" where
  "IncProxyUpstreamInFlight_done = emit [event ''proxy_upstream_inflight'' [] Dec]"

definition IncProxyUpstreamBusy :: "metrics \<Rightarrow> metrics" where
  "IncProxyUpstreamBusy = emit [event ''proxy_upstream_busy_total'' [] Inc]"

section \<open>What the Prometheus library requires\<close>

text \<open>
  A call fits a collector if the numbers of labels agree and the collector has the method called:
  counters only go up, gauges may be set or go either way, histograms take observations.
\<close>

fun call_fits :: "metric_kind \<Rightarrow> metric_call \<Rightarrow> bool" where
  "call_fits CounterVec c = (c = Inc)"
| "call_fits Counter c = (c = Inc)"
| "call_fits (HistogramVec b) c = (case c of ObserveDuration _ \<Rightarrow> True | ObserveBytes _ \<Rightarrow> True | _ \<Rightarrow> False)"
| "call_fits GaugeVec c = (case c of Inc \<Rightarrow> True | Dec \<Rightarrow> True | SetTo _ \<Rightarrow> True | _ \<Rightarrow> False)"
| "call_fits Gauge c = (case c of Inc \<Rightarrow> True | Dec \<Rightarrow> True | SetTo _ \<Rightarrow> True | _ \<Rightarrow> False)"

definition event_ok :: "metric_event \<Rightarrow> bool" where
  "event_ok e \<longleftrightarrow>
     list_ex (\<lambda>c. co_name c = ev_name e \<and> length (co_labels c) = length (ev_labels e) \<and>
       call_fits (co_kind c) (ev_call e)) New"

definition metrics_ok :: "metrics \<Rightarrow> bool" where
  "metrics_ok m = (case m of None \<Rightarrow> True | Some es \<Rightarrow> list_all event_ok es)"

lemma metrics_ok_emit [inv_intros]: "metrics_ok m \<Longrightarrow> list_all event_ok es \<Longrightarrow> metrics_ok (emit es m)"
  by (cases m) (auto simp: metrics_ok_def emit_def)

lemma emit_None [simp]: "emit es None = None"
  by (simp add: emit_def)

lemma emit_Some [simp]: "emit es (Some l) = Some (l @ es)"
  by (simp add: emit_def)

lemmas metrics_ops =
  ObserveHTTPRequest_def IncInFlight_def IncInFlight_done_def ObserveScan_def ObserveCatalog_def
  ObserveAnnounce_def ObserveAnnounceSweep_def SetActiveAssets_def SetMissingAssets_def
  SetDeferredAnnounces_def ObserveProxy_def IncProxyUpstreamInFlight_def
  IncProxyUpstreamInFlight_done_def IncProxyUpstreamBusy_def

text \<open>One lemma per collector: which events it accepts.\<close>

lemma event_ok_intros:
  "event_ok (event ''http_requests_total'' [a, b, c] Inc)"
  "event_ok (event ''http_request_duration_seconds'' [a, b] (ObserveDuration d))"
  "event_ok (event ''http_response_bytes'' [a, b] (ObserveBytes d))"
  "event_ok (event ''http_inflight_requests'' [a] Inc)"
  "event_ok (event ''http_inflight_requests'' [a] Dec)"
  "event_ok (event ''scanner_scans_total'' [a] Inc)"
  "event_ok (event ''scanner_scan_duration_seconds'' [a] (ObserveDuration d))"
  "event_ok (event ''catalog_requests_total'' [a, b, c] Inc)"
  "event_ok (event ''catalog_request_duration_seconds'' [a, b] (ObserveDuration d))"
  "event_ok (event ''announcements_total'' [a] Inc)"
  "event_ok (event ''announce_sweeps_total'' [a] Inc)"
  "event_ok (event ''active_assets'' [] (SetTo n))"
  "event_ok (event ''missing_assets'' [] (SetTo n))"
  "event_ok (event ''deferred_announces'' [] (SetTo n))"
  "event_ok (event ''proxy_requests_total'' [a, b] Inc)"
  "event_ok (event ''proxy_request_duration_seconds'' [a] (ObserveDuration d))"
  "event_ok (event ''proxy_upstream_inflight'' [] Inc)"
  "event_ok (event ''proxy_upstream_inflight'' [] Dec)"
  "event_ok (event ''proxy_upstream_busy_total'' [] Inc)"
  by (simp_all add: event_ok_def event_def New_def coll_def)

lemma New_distinct: "distinct (map co_name New)"
  by (simp add: New_def coll_def)

text \<open>How often a gauge was raised less how often it was lowered.\<close>

fun gauge_delta :: "string \<Rightarrow> metric_event list \<Rightarrow> int" where
  "gauge_delta n [] = 0"
| "gauge_delta n (e # es) =
     (if ev_name e = n then (case ev_call e of Inc \<Rightarrow> 1 | Dec \<Rightarrow> - 1 | _ \<Rightarrow> 0) else 0) + gauge_delta n es"

lemma gauge_delta_append [simp]: "gauge_delta n (es @ es') = gauge_delta n es + gauge_delta n es'"
  by (induction es) auto

section \<open>Properties\<close>

text \<open>Recording a metric never panics: the collectors have distinct names, and every function of the
  package, for any arguments, makes only calls that fit a registered collector in name, number of labels
  and method. So a trace of fitting calls stays one.\<close>

lemma metrics_calls_fit:
  "distinct (map co_name New) \<and>
   (metrics_ok m \<longrightarrow>
     metrics_ok (ObserveHTTPRequest route method status dur n m) \<and>
     metrics_ok (IncInFlight route m) \<and> metrics_ok (IncInFlight_done route m) \<and>
     metrics_ok (ObserveScan res dur m) \<and> metrics_ok (ObserveCatalog ep res status dur m) \<and>
     metrics_ok (ObserveAnnounce res m) \<and> metrics_ok (ObserveAnnounceSweep res m) \<and>
     metrics_ok (SetActiveAssets n m) \<and> metrics_ok (SetMissingAssets n m) \<and>
     metrics_ok (SetDeferredAnnounces n m) \<and> metrics_ok (ObserveProxy status dur res m) \<and>
     metrics_ok (IncProxyUpstreamInFlight m) \<and> metrics_ok (IncProxyUpstreamInFlight_done m) \<and>
     metrics_ok (IncProxyUpstreamBusy m))"
  unfolding metrics_ops by (auto simp: event_ok_intros New_distinct intro!: metrics_ok_emit)

end
