(* ===== verification/Go_Http.thy ===== *)
theory Go_Http
  imports Go_Strings
begin

text \<open>
  The parts of \<open>net/http\<close> that the handlers touch: header maps with their canonical keys, and a
  response writer. A writer keeps the header map the handler still edits, the status and the
  headers of the response once \<open>WriteHeader\<close> has sent them, the body written so far and the
  access-log fields (\<open>None\<close> where the writer does not implement \<open>SetAccessLogField\<close>). It also keeps the codes that
  handlers passed to \<open>WriteHeader\<close>, in order: that is what a wrapper around it sees.
\<close>

section \<open>Headers\<close>

type_synonym header = "string \<rightharpoonup> string list"

definition is_alpha :: "char \<Rightarrow> bool" where
  "is_alpha c \<longleftrightarrow> (let l = ascii_lower c in CHR ''a'' \<le> l \<and> l \<le> CHR ''z'')"

definition token_char :: "char \<Rightarrow> bool" where
  "token_char c \<longleftrightarrow> is_alpha c \<or> is_digit c \<or> c \<in> set ''!#$%&*+-.^_|~'' \<or> c = CHR 0x27 \<or> c = CHR 0x60"

definition ascii_upper :: "char \<Rightarrow> char" where
  "ascii_upper c = (if CHR ''a'' \<le> c \<and> c \<le> CHR ''z'' then char_of (of_char c - (32::nat)) else c)"

fun canon_from :: "bool \<Rightarrow> string \<Rightarrow> string" where
  "canon_from up [] = []"
| "canon_from up (c # s) =
     (if up then ascii_upper c else ascii_lower c) # canon_from (c = CHR ''-'') s"

definition CanonicalHeaderKey :: "string \<Rightarrow> string" where
  "CanonicalHeaderKey k = (if list_all token_char k then canon_from True k else k)"

definition Header_Get :: "header \<Rightarrow> string \<Rightarrow> string" where
  "Header_Get h k = (case h (CanonicalHeaderKey k) of Some (v # _) \<Rightarrow> v | _ \<Rightarrow> [])"

definition Header_Set :: "header \<Rightarrow> string \<Rightarrow> string \<Rightarrow> header" where
  "Header_Set h k v = h(CanonicalHeaderKey k \<mapsto> [v])"

definition Header_Add :: "header \<Rightarrow> string \<Rightarrow> string \<Rightarrow> header" where
  "Header_Add h k v =
     h(CanonicalHeaderKey k \<mapsto> (case h (CanonicalHeaderKey k) of None \<Rightarrow> [] | Some vs \<Rightarrow> vs) @ [v])"

definition Header_Del :: "header \<Rightarrow> string \<Rightarrow> header" where
  "Header_Del h k = h(CanonicalHeaderKey k := None)"

lemma Header_Get_Set [simp]: "Header_Get (Header_Set h k v) k = v"
  by (simp add: Header_Get_def Header_Set_def)

lemma Header_Get_Set_other:
  "CanonicalHeaderKey k \<noteq> CanonicalHeaderKey k' \<Longrightarrow> Header_Get (Header_Set h k v) k' = Header_Get h k'"
  by (simp add: Header_Get_def Header_Set_def)

lemma Header_Get_Del [simp]: "Header_Get (Header_Del h k) k = []"
  by (simp add: Header_Get_def Header_Del_def)

section \<open>The response writer\<close>

datatype field_val = FStr string | FInt int

record writer =
  wr_header :: header
  wr_status :: "int option"
  wr_sent :: header
  wr_body :: string
  wr_fields :: "(string \<rightharpoonup> field_val) option"
  wr_codes :: "int list"

definition fresh_writer :: writer where
  "fresh_writer = \<lparr>wr_header = Map.empty, wr_status = None, wr_sent = Map.empty, wr_body = [],
     wr_fields = Some Map.empty, wr_codes = []\<rparr>"

text \<open>
  The first final status wins; an informational status (1xx other than 101) is sent at once and
  decides nothing; a later \<open>WriteHeader\<close> is ignored.
\<close>

definition send_header :: "writer \<Rightarrow> int \<Rightarrow> writer" where
  "send_header w code =
     (if wr_status w \<noteq> None \<or> 100 \<le> code \<and> code \<le> 199 \<and> code \<noteq> 101 then w
      else w\<lparr>wr_status := Some code, wr_sent := wr_header w\<rparr>)"

definition WriteHeader :: "writer \<Rightarrow> int \<Rightarrow> writer" where
  "WriteHeader w code = (send_header w code)\<lparr>wr_codes := wr_codes w @ [code]\<rparr>"

definition Write :: "writer \<Rightarrow> string \<Rightarrow> writer" where
  "Write w b =
     (let w' = (if wr_status w = None then send_header w 200 else w)
      in w'\<lparr>wr_body := wr_body w' @ b\<rparr>)"

definition set_header :: "writer \<Rightarrow> string \<Rightarrow> string \<Rightarrow> writer" where
  "set_header w k v = w\<lparr>wr_header := Header_Set (wr_header w) k v\<rparr>"

text \<open>What the client sees: the status of a response that was finished without \<open>WriteHeader\<close> is 200.\<close>

definition final_status :: "writer \<Rightarrow> int" where
  "final_status w = (case wr_status w of None \<Rightarrow> 200 | Some s \<Rightarrow> s)"

lemma send_header_frame [simp, frame]:
  "wr_body (send_header w code) = wr_body w" "wr_fields (send_header w code) = wr_fields w"
  "wr_codes (send_header w code) = wr_codes w"
  by (simp_all add: send_header_def)

lemma WriteHeader_fresh [simp]:
  "wr_status w = None \<Longrightarrow> 200 \<le> code \<Longrightarrow> wr_status (WriteHeader w code) = Some code"
  by (simp add: WriteHeader_def send_header_def)

lemma WriteHeader_sent [simp]: "wr_status w = Some s \<Longrightarrow> WriteHeader w code = w\<lparr>wr_codes := wr_codes w @ [code]\<rparr>"
  by (simp add: WriteHeader_def send_header_def)

lemma WriteHeader_frame [simp, frame]:
  "wr_body (WriteHeader w code) = wr_body w" "wr_fields (WriteHeader w code) = wr_fields w"
  "wr_codes (WriteHeader w code) = wr_codes w @ [code]"
  by (simp_all add: WriteHeader_def)

lemma Write_codes [simp, frame]: "wr_codes (Write w b) = wr_codes w"
  by (simp add: Write_def Let_def)

lemma Write_sent [simp]: "wr_status w = Some s \<Longrightarrow> wr_status (Write w b) = Some s"
  by (simp add: Write_def)

lemma Write_fields [simp, frame]: "wr_fields (Write w b) = wr_fields w"
  by (simp add: Write_def Let_def)

lemma Write_body [simp]: "wr_body (Write w b) = wr_body w @ b"
  by (simp add: Write_def Let_def)

lemma set_header_sel [simp, frame]:
  "wr_status (set_header w k v) = wr_status w" "wr_body (set_header w k v) = wr_body w"
  "wr_fields (set_header w k v) = wr_fields w" "wr_sent (set_header w k v) = wr_sent w"
  "wr_codes (set_header w k v) = wr_codes w"
  by (simp_all add: set_header_def)

text \<open>\<open>http.Error\<close>: a content length that was set for another body goes, then status, text and a final newline.\<close>

definition http_Error :: "writer \<Rightarrow> string \<Rightarrow> int \<Rightarrow> writer" where
  "http_Error w msg code =
     (let w1 = w\<lparr>wr_header := Header_Del (wr_header w) ''Content-Length''\<rparr>;
          w2 = set_header w1 ''Content-Type'' ''text/plain; charset=utf-8'';
          w3 = set_header w2 ''X-Content-Type-Options'' ''nosniff''
      in Write (WriteHeader w3 code) (msg @ [CHR 0x0A]))"

section \<open>On the connection\<close>

text \<open>
  What the server of \<open>net/http\<close> puts on the connection for a sequence of writes, for a method and a status that allow a
  body. Without a declared length everything is sent, in chunks. With one, a write that would go beyond it is dropped as a whole but
  still counted, and the connection is closed after the response unless exactly the declared number was counted.
\<close>

definition declared_length :: "writer \<Rightarrow> int option" where
  "declared_length w =
     (case wr_sent w ''Content-Length'' of
        Some (v # _) \<Rightarrow> (case ParseInt v of None \<Rightarrow> None | Some n \<Rightarrow> if 0 \<le> n then Some n else None)
      | _ \<Rightarrow> None)"

fun on_wire :: "int option \<Rightarrow> int \<Rightarrow> string list \<Rightarrow> string \<times> int" where
  "on_wire n written [] = ([], written)"
| "on_wire n written (b # bs) =
     (let after = written + int (length b);
          beyond = (case n of None \<Rightarrow> False | Some m \<Rightarrow> m < after)
      in case on_wire n after bs of (rest, counted) \<Rightarrow> (if beyond then rest else b @ rest, counted))"

record client_view =
  cv_body :: string
  cv_complete :: bool
  cv_reused :: bool

definition client_sees :: "writer \<Rightarrow> string list \<Rightarrow> client_view" where
  "client_sees w writes =
     (let n = declared_length w
      in case on_wire n 0 writes of (sent, counted) \<Rightarrow>
        \<lparr>cv_body = sent, cv_complete = (n = None \<or> n = Some (int (length sent))), cv_reused = (n = None \<or> n = Some counted)\<rparr>)"

lemma on_wire_unlimited: "on_wire None k bs = (concat bs, k + int (length (concat bs)))"
  by (induction bs arbitrary: k) (simp_all add: Let_def)

lemma on_wire_then:
  assumes "k + int (length (concat bs)) \<le> m"
  shows "on_wire (Some m) k (bs @ [b]) =
    (concat bs @ (if m < k + int (length (concat bs)) + int (length b) then [] else b), k + int (length (concat bs)) + int (length b))"
  using assms by (induction bs arbitrary: k) (simp_all add: Let_def add.assoc)

section \<open>Handlers\<close>

text \<open>
  A call ends by returning or by a panic; either way it leaves a state. A handler takes the request, the writer and the
  state of whatever it closes over.
\<close>

datatype 'a ended = Returned 'a | Panicked 'a

primrec state_of :: "'a ended \<Rightarrow> 'a" where
  "state_of (Returned x) = x"
| "state_of (Panicked x) = x"

record request =
  req_method :: string
  req_path :: string
  req_rawquery :: string
  req_header :: header
  req_remote :: string
  req_tls :: bool
  req_ctx_done :: bool

type_synonym 's http_handler = "request \<Rightarrow> writer \<Rightarrow> 's \<Rightarrow> (writer \<times> 's) ended"

end
