(* ===== verification/Go_Net.thy ===== *)
theory Go_Net
  imports Go_Strings Go_Http
begin

text \<open>
  \<open>net.SplitHostPort\<close>, which three packages use to strip the port from \<open>RemoteAddr\<close>, and outgoing requests with
  the escaping of their paths.
\<close>

definition index_of :: "char \<Rightarrow> string \<Rightarrow> nat option" where
  "index_of c s = (if c \<in> set s then Some (length (takeWhile (\<lambda>x. x \<noteq> c) s)) else None)"

definition last_index_of :: "char \<Rightarrow> string \<Rightarrow> nat option" where
  "last_index_of c s =
     (if c \<in> set s then Some (length s - 1 - length (takeWhile (\<lambda>x. x \<noteq> c) (rev s))) else None)"

text \<open>
  \<open>None\<close> for every address error. The two checks at the end look for stray brackets behind the
  bracketed part.
\<close>

definition SplitHostPort :: "string \<Rightarrow> (string \<times> string) option" where
  "SplitHostPort hostport =
     (case last_index_of CHR '':'' hostport of
        None \<Rightarrow> None
      | Some i \<Rightarrow>
          (let finish = (\<lambda>host j k.
             if CHR ''['' \<in> set (drop j hostport) then None
             else if CHR '']'' \<in> set (drop k hostport) then None
             else Some (host, drop (i + 1) hostport))
           in if HasPrefix hostport ''['' then
                (case index_of CHR '']'' hostport of
                   None \<Rightarrow> None
                 | Some e \<Rightarrow>
                     if e + 1 = length hostport then None
                     else if e + 1 = i then finish (take (e - 1) (drop 1 hostport)) 1 (e + 1)
                     else None)
              else if CHR '':'' \<in> set (take i hostport) then None
              else finish (take i hostport) 0 0))"

lemma last_index_of_append:
  "c \<notin> set b \<Longrightarrow> last_index_of c (a @ c # b) = Some (length a)"
proof -
  assume "c \<notin> set b"
  then have "takeWhile (\<lambda>x. x \<noteq> c) (rev (a @ c # b)) = rev b"
    using takeWhile_cut [of c "rev b" "rev a"] by simp
  then show ?thesis by (simp add: last_index_of_def)
qed

text \<open>On the usual form, a host without colons or brackets and a port, the two parts come back.\<close>

lemma SplitHostPort_plain:
  assumes "CHR '':'' \<notin> set h" "CHR ''['' \<notin> set h" "CHR '']'' \<notin> set h"
    and "CHR '':'' \<notin> set p" "CHR ''['' \<notin> set p" "CHR '']'' \<notin> set p"
  shows "SplitHostPort (h @ CHR '':'' # p) = Some (h, p)"
proof -
  have "\<not> HasPrefix (h @ CHR '':'' # p) ''[''" using assms by (cases h) auto
  then show ?thesis
    using assms last_index_of_append [of "CHR '':''" p h] by (simp add: SplitHostPort_def)
qed


section \<open>Outgoing requests and escaped paths\<close>

text \<open>The parts of a parsed URL that the program reads; parsing itself is a parameter of the components that need it.\<close>

record url_parts =
  url_scheme :: string
  url_host :: string
  url_path :: string

record outreq =
  out_method :: string
  out_scheme :: string
  out_host :: string
  out_path :: string
  out_rawpath :: string
  out_rawquery :: string
  out_hosthdr :: string
  out_header :: header

text \<open>
  \<open>URL.EscapedPath\<close>: the raw path if it is a valid encoding of the path, otherwise the path with
  every byte escaped that may not stand in a path.
\<close>

definition unreserved :: "char \<Rightarrow> bool" where
  "unreserved c \<longleftrightarrow> is_alpha c \<or> is_digit c \<or> c \<in> set ''-_.~''"

definition shouldEscape :: "char \<Rightarrow> bool" where
  "shouldEscape c \<longleftrightarrow> \<not> unreserved c \<and> c \<notin> set ''$&+,/:;=@''"

definition validEncoded :: "string \<Rightarrow> bool" where
  "validEncoded s \<longleftrightarrow>
     list_all (\<lambda>c. c \<in> set ''!$&()*+,;=:@[]%'' \<or> c = CHR 0x27 \<or> \<not> shouldEscape c) s"

fun path_unescape :: "string \<Rightarrow> string option" where
  "path_unescape [] = Some []"
| "path_unescape (c # s) =
     (if c = CHR ''%'' then
        (case s of
           h # l # t \<Rightarrow>
             (case (hex_val h, hex_val l, path_unescape t) of
                (Some a, Some b, Some u) \<Rightarrow> Some (char_of (16 * a + b) # u)
              | _ \<Rightarrow> None)
         | _ \<Rightarrow> None)
      else map_option (\<lambda>u. c # u) (path_unescape s))"

definition upper_hex :: "nat \<Rightarrow> char" where
  "upper_hex d = (if d < 10 then char_of (48 + d) else char_of (55 + d))"

fun path_escape :: "string \<Rightarrow> string" where
  "path_escape [] = []"
| "path_escape (c # s) =
     (if shouldEscape c
      then CHR ''%'' # upper_hex (of_char c div 16) # upper_hex (of_char c mod 16) # path_escape s
      else c # path_escape s)"

definition EscapedPath :: "string \<Rightarrow> string \<Rightarrow> string" where
  "EscapedPath path rawpath =
     (if rawpath \<noteq> [] \<and> validEncoded rawpath \<and> path_unescape rawpath = Some path then rawpath
      else if path = ''*'' then ''*'' else path_escape path)"

lemma upper_hex_class: "d < 16 \<Longrightarrow> is_digit (upper_hex d) \<or> is_alpha (upper_hex d)"
  by (auto simp: upper_hex_def is_digit_def is_alpha_def Let_def ascii_lower_def less_eq_char_def)

lemma path_escape_chars: "c \<in> set (path_escape p) \<Longrightarrow> \<not> shouldEscape c \<or> c = CHR ''%''"
proof (induction p)
  case (Cons b p)
  have "of_char b < (256::nat)" by (rule nat_of_char_less_256)
  then have "of_char b div 16 < (16::nat)" by linarith
  then have "\<not> shouldEscape (upper_hex (of_char b div 16))" "\<not> shouldEscape (upper_hex (of_char b mod 16))"
    using upper_hex_class [of "of_char b div 16"] upper_hex_class [of "of_char b mod 16"]
    by (auto simp: shouldEscape_def unreserved_def)
  with Cons show ?case by (auto split: if_splits)
qed simp

lemma shouldEscape_special: "shouldEscape (CHR 0x0A)" "shouldEscape (CHR ''?'')" "\<not> unreserved (CHR ''%'')"
  by code_simp+

lemma path_escape_clean: "CHR 0x0A \<notin> set (path_escape p)" "CHR ''?'' \<notin> set (path_escape p)"
  using path_escape_chars [of "CHR 0x0A" p] path_escape_chars [of "CHR ''?''" p]
    shouldEscape_special(1,2) by auto

lemma validEncoded_clean:
  assumes "validEncoded p"
  shows "CHR 0x0A \<notin> set p" "CHR ''?'' \<notin> set p"
proof -
  have "\<not> validEncoded [CHR 0x0A]" "\<not> validEncoded [CHR ''?'']" by code_simp+
  then show "CHR 0x0A \<notin> set p" "CHR ''?'' \<notin> set p"
    using assms unfolding validEncoded_def list_all_iff by force+
qed

text \<open>An escaped path holds neither a line feed nor a question mark.\<close>

lemma EscapedPath_clean: "CHR 0x0A \<notin> set (EscapedPath p r) \<and> CHR ''?'' \<notin> set (EscapedPath p r)"
  unfolding EscapedPath_def using validEncoded_clean [of r] path_escape_clean [of p] by simp

lemma path_unescape_id: "CHR ''%'' \<notin> set p \<Longrightarrow> path_unescape p = Some p"
  by (induction p) auto

lemma EscapedPath_same:
  assumes "p \<noteq> []" "list_all (\<lambda>c. unreserved c \<or> c = CHR ''/'') p"
  shows "EscapedPath p p = p"
proof -
  have "CHR ''%'' \<notin> set p"
    using assms(2) shouldEscape_special(3) by (auto simp: list_all_iff)
  moreover have "\<not> shouldEscape c" if "unreserved c \<or> c = CHR ''/''" for c
    using that by (auto simp only: shouldEscape_def) code_simp
  then have "validEncoded p"
    using assms(2) unfolding validEncoded_def by (blast intro: list.pred_mono_strong)
  ultimately show ?thesis using assms(1) by (simp add: EscapedPath_def path_unescape_id)
qed

end
