(* ===== verification/Middleware.thy ===== *)
theory Middleware
  imports Metrics Go_Http Go_Net
begin

text \<open>
  Package \<open>httpserver\<close>, files \<open>middleware.go\<close>, \<open>metrics_middleware.go\<close> and \<open>openapi_validation.go\<close>. A handler with a context
  gets, before the request, the request id its context carries. The state of the server holds the metrics, the log
  and whatever the application adds. A wrapping response writer sees the codes passed to \<open>WriteHeader\<close> and the bytes
  written after it was made; both are read off the writer.
\<close>

record access_entry =
  le_method :: string
  le_path :: string
  le_status :: int
  le_bytes :: int
  le_latency_ms :: int
  le_request_id :: string
  le_remote_ip :: string
  le_fields :: "string \<rightharpoonup> field_val"

datatype log_entry = HttpRequest access_entry | PanicRecovered string

record 's server =
  sr_metrics :: metrics
  sr_log :: "log_entry list"
  sr_app :: 's

type_synonym 's ctx_handler = "string option \<Rightarrow> 's server http_handler"

type_synonym 's middleware = "'s ctx_handler \<Rightarrow> 's ctx_handler"

section \<open>Request id, recovery, access log\<close>

definition RequestIDFromContext :: "string option \<Rightarrow> string" where
  "RequestIDFromContext ctx = (case ctx of None \<Rightarrow> [] | Some i \<Rightarrow> i)"

text \<open>\<open>newUUIDv4\<close> from what the random source gives: sixteen bytes, or an error and the clock in nanoseconds.\<close>

definition uuid_bytes :: "nat list \<Rightarrow> nat list" where
  "uuid_bytes buf = buf[6 := buf ! 6 mod 16 + 64, 8 := buf ! 8 mod 64 + 128]"

definition newUUIDv4 :: "nat list option \<Rightarrow> int \<Rightarrow> string" where
  "newUUIDv4 random unixNano =
     (case random of
        None \<Rightarrow> FormatInt unixNano
      | Some buf \<Rightarrow>
          (let hexStr = hex_EncodeToString (map char_of (uuid_bytes buf)); part = (\<lambda>i j. take (j - i) (drop i hexStr))
           in part 0 8 @ ''-'' @ part 8 12 @ ''-'' @ part 12 16 @ ''-'' @ part 16 20 @ ''-'' @ part 20 32))"

definition RequestID :: "string \<Rightarrow> 's middleware" where
  "RequestID requestID next ctx r w s = next (Some requestID) r (set_header w ''X-Request-Id'' requestID) s"

definition Recover :: "'s middleware" where
  "Recover next ctx r w s =
     (case next ctx r w s of
        Returned x \<Rightarrow> Returned x
      | Panicked (w', s') \<Rightarrow>
          Returned (http_Error w' ''Internal Server Error'' 500,
            s'\<lparr>sr_log := sr_log s' @ [PanicRecovered (RequestIDFromContext ctx)]\<rparr>))"

definition middleware_remoteIP :: "string \<Rightarrow> string" where
  "middleware_remoteIP remoteAddr = (case SplitHostPort remoteAddr of None \<Rightarrow> remoteAddr | Some (host, _) \<Rightarrow> host)"

definition last_code :: "int list \<Rightarrow> int" where
  "last_code codes = (if codes = [] then 200 else List.last codes)"

definition seen_status :: "writer \<Rightarrow> writer \<Rightarrow> int" where
  "seen_status w w' = last_code (drop (length (wr_codes w)) (wr_codes w'))"

definition seen_bytes :: "writer \<Rightarrow> writer \<Rightarrow> int" where
  "seen_bytes w w' = int (length (wr_body w')) - int (length (wr_body w))"

text \<open>The writer that \<open>AccessLog\<close> makes collects log fields of its own.\<close>

definition AccessLog :: "int \<Rightarrow> 's middleware" where
  "AccessLog latency next ctx r w s =
     (let rw = w\<lparr>wr_fields := Some Map.empty\<rparr>; outer = (\<lambda>w'. w'\<lparr>wr_fields := wr_fields w\<rparr>)
      in case next ctx r rw s of
           Panicked (w', s') \<Rightarrow> Panicked (outer w', s')
         | Returned (w', s') \<Rightarrow>
             Returned (outer w', s'\<lparr>sr_log := sr_log s' @ [HttpRequest
               \<lparr>le_method = req_method r, le_path = req_path r, le_status = seen_status w w', le_bytes = seen_bytes w w',
                le_latency_ms = quot latency 1000000, le_request_id = RequestIDFromContext ctx,
                le_remote_ip = middleware_remoteIP (req_remote r),
                le_fields = (case wr_fields w' of None \<Rightarrow> Map.empty | Some f \<Rightarrow> f)\<rparr>]\<rparr>))"

text \<open>\<open>SetAccessLogField\<close> of the access log's writer.\<close>

definition SetAccessLogField :: "writer \<Rightarrow> string \<Rightarrow> field_val \<Rightarrow> writer" where
  "SetAccessLogField w key value =
     (if key = [] then w else w\<lparr>wr_fields := map_option (\<lambda>f. f(key \<mapsto> value)) (wr_fields w)\<rparr>)"

section \<open>Metrics\<close>

definition routeLabel :: "string \<Rightarrow> string" where
  "routeLabel path =
     (if path = ''/healthz'' then ''healthz''
      else if path = ''/readyz'' then ''readyz''
      else if path = ''/metrics'' then ''metrics''
      else if HasPrefix path ''/assets/'' then ''assets''
      else if path = ''/internal/rescan'' then ''internal_rescan''
      else if path = ''/internal/announce'' then ''internal_announce''
      else ''other'')"

definition HTTPMetrics :: "int \<Rightarrow> 's middleware" where
  "HTTPMetrics elapsed next ctx r w s =
     (let route = routeLabel (req_path r);
          s1 = s\<lparr>sr_metrics := IncInFlight route (sr_metrics s)\<rparr>;
          mw = w\<lparr>wr_fields := None\<rparr>;
          outer = (\<lambda>w'. w'\<lparr>wr_fields := wr_fields w\<rparr>)
      in case next ctx r mw s1 of
           Panicked (w', s') \<Rightarrow> Panicked (outer w', s'\<lparr>sr_metrics := IncInFlight_done route (sr_metrics s')\<rparr>)
         | Returned (w', s') \<Rightarrow>
             (let m = ObserveHTTPRequest route (req_method r) (seen_status w w') elapsed (seen_bytes w w') (sr_metrics s')
              in Returned (outer w', s'\<lparr>sr_metrics := IncInFlight_done route m\<rparr>)))"

section \<open>OpenAPI validation\<close>

definition shouldValidateOpenAPIRequest :: "string \<Rightarrow> bool" where
  "shouldValidateOpenAPIRequest path =
     (if path \<in> set [''/healthz'', ''/readyz''] then True
      else if path = ''/metrics'' then False
      else if path \<in> set [''/openapi.yaml'', ''/openapi.json'', ''/docs'', ''/docs/''] then False
      else if HasPrefix path ''/assets/'' then False
      else HasPrefix path ''/internal/'')"

text \<open>
  The OpenAPI library is outside: a route is the content types its operation declares (\<open>None\<close> where it has no body), \<open>findRoute\<close>
  and \<open>validate\<close> are its functions, \<open>quote\<close> writes a JSON string. The specification is embedded in the program; if it did
  not load, building the middleware would panic at the start, before any request.
\<close>

record openapi =
  oa_findRoute :: "request \<Rightarrow> string list option option"
  oa_validate :: "request \<Rightarrow> string option"
  oa_quote :: "string \<Rightarrow> string"

definition requestContentTypeAllowed :: "string list option \<Rightarrow> request \<Rightarrow> bool" where
  "requestContentTypeAllowed route r =
     (case route of
        None \<Rightarrow> True
      | Some contentTypes \<Rightarrow>
          if contentTypes = [] then True
          else
            (let contentType = TrimSpace (ToLower (hd (Split (Header_Get (req_header r) ''Content-Type'') CHR '';'')))
             in if contentType = [] then False else contentType \<in> set contentTypes))"

definition validation_error :: "openapi \<Rightarrow> writer \<Rightarrow> string \<Rightarrow> writer" where
  "validation_error oa w msg =
     Write (WriteHeader (set_header w ''Content-Type'' ''application/json'') 400)
       (''{\"error\":\"invalid_request\"'' @ (if msg = [] then [] else '',\"message\":'' @ oa_quote oa msg) @ ''}'' @ [CHR 0x0A])"

definition OpenAPIValidation :: "openapi \<Rightarrow> 's middleware" where
  "OpenAPIValidation oa next ctx r w s =
     (if \<not> shouldValidateOpenAPIRequest (req_path r) then next ctx r w s
      else case oa_findRoute oa r of
        None \<Rightarrow> next ctx r w s
      | Some route \<Rightarrow>
          if \<not> requestContentTypeAllowed route r
          then Returned (validation_error oa w ''content type does not match OpenAPI contract'', s)
          else case oa_validate oa r of
            Some err \<Rightarrow> Returned (validation_error oa w err, s)
          | None \<Rightarrow> next ctx r w s)"

section \<open>The chain\<close>

text \<open>\<open>Chain\<close> applies the middlewares from the last to the first.\<close>

fun chain_loop :: "'s middleware list \<Rightarrow> 's ctx_handler \<Rightarrow> 's ctx_handler" where
  "chain_loop [] next = next"
| "chain_loop (mw # mws) next = chain_loop mws (mw next)"

definition Chain :: "'s ctx_handler \<Rightarrow> 's middleware list \<Rightarrow> 's ctx_handler" where
  "Chain next mws = chain_loop (rev mws) next"

record chain_env =
  ce_uuid :: string
  ce_latency :: int
  ce_elapsed :: int
  ce_openapi :: openapi

definition server_chain :: "chain_env \<Rightarrow> 's ctx_handler \<Rightarrow> 's ctx_handler" where
  "server_chain e mux =
     Chain mux [HTTPMetrics (ce_elapsed e), AccessLog (ce_latency e), Recover, OpenAPIValidation (ce_openapi e), RequestID (ce_uuid e)]"

section \<open>Lemmas\<close>

lemma Chain_nested: "Chain next mws = foldr (\<lambda>mw h. mw h) mws next"
proof -
  have "chain_loop ms h = foldl (\<lambda>h mw. mw h) h ms" for ms :: "'s middleware list" and h by (induction ms arbitrary: h) simp_all
  then show ?thesis by (simp add: Chain_def foldr_conv_foldl)
qed

lemma server_chain_unfold:
  "server_chain e mux = HTTPMetrics (ce_elapsed e) (AccessLog (ce_latency e) (Recover
     (OpenAPIValidation (ce_openapi e) (RequestID (ce_uuid e) mux))))"
  by (simp add: server_chain_def Chain_nested)

lemma Recover_returns: "\<exists>x. Recover next ctx r w s = Returned x"
  by (cases "next ctx r w s") (auto simp: Recover_def)

lemma AccessLog_returns: "(\<exists>x. next ctx r (w\<lparr>wr_fields := Some Map.empty\<rparr>) s = Returned x) \<Longrightarrow> \<exists>x. AccessLog l next ctx r w s = Returned x"
  by (auto simp: AccessLog_def split: prod.split)

lemma HTTPMetrics_returns:
  assumes "\<And>r w s. \<exists>x. next ctx r w s = Returned x"
  shows "\<exists>x. HTTPMetrics l next ctx r w s = Returned x"
proof -
  obtain w' s' where "next ctx r (w\<lparr>wr_fields := None\<rparr>) (s\<lparr>sr_metrics := IncInFlight (routeLabel (req_path r)) (sr_metrics s)\<rparr>) = Returned (w', s')"
    using assms by fastforce
  then show ?thesis by (simp add: HTTPMetrics_def Let_def)
qed

lemma server_chain_returns: "\<exists>w' s'. server_chain e mux ctx r w s = Returned (w', s')"
  unfolding server_chain_unfold
  using HTTPMetrics_returns [of "AccessLog (ce_latency e) (Recover (OpenAPIValidation (ce_openapi e) (RequestID (ce_uuid e) mux)))"]
    AccessLog_returns [OF Recover_returns] by fastforce

text \<open>The application state after a request is what the handler inside left, or unchanged where validation refused the request.\<close>

definition inner_run :: "chain_env \<Rightarrow> 's ctx_handler \<Rightarrow> request \<Rightarrow> writer \<Rightarrow> 's server \<Rightarrow> (writer \<times> 's server) ended" where
  "inner_run e mux r w s =
     mux (Some (ce_uuid e)) r (set_header (w\<lparr>wr_fields := Some Map.empty\<rparr>) ''X-Request-Id'' (ce_uuid e))
       (s\<lparr>sr_metrics := IncInFlight (routeLabel (req_path r)) (sr_metrics s)\<rparr>)"

lemma middleware_app [simp]:
  "sr_app (snd (state_of (Recover next ctx r w s))) = sr_app (snd (state_of (next ctx r w s)))"
  "sr_app (snd (state_of (AccessLog l next ctx r w s))) = sr_app (snd (state_of (next ctx r (w\<lparr>wr_fields := Some Map.empty\<rparr>) s)))"
  "sr_app (snd (state_of (HTTPMetrics l next ctx r w s))) = sr_app (snd (state_of (next ctx r (w\<lparr>wr_fields := None\<rparr>)
     (s\<lparr>sr_metrics := IncInFlight (routeLabel (req_path r)) (sr_metrics s)\<rparr>))))"
  by (auto simp: Recover_def AccessLog_def HTTPMetrics_def Let_def split: ended.split prod.split)

lemma chain_app:
  "sr_app (snd (state_of (server_chain e mux None r w s))) \<in> {sr_app s, sr_app (snd (state_of (inner_run e mux r w s)))}"
  unfolding server_chain_unfold middleware_app
  by (auto simp: OpenAPIValidation_def RequestID_def inner_run_def split: option.split)

definition http_inflight :: "string \<Rightarrow> metrics \<Rightarrow> int" where
  "http_inflight route m = (case m of None \<Rightarrow> 0
     | Some es \<Rightarrow> gauge_delta ''audistro_provider_http_inflight_requests'' (filter (\<lambda>e. ev_labels e = [route]) es))"

lemma http_inflight_emit:
  "http_inflight route (emit es m) = (if m = None then 0 else http_inflight route m + http_inflight route (Some es))"
  by (cases m) (simp_all add: http_inflight_def)

lemma http_inflight_ops [simp]:
  "http_inflight q (ObserveHTTPRequest route me st d b m) = http_inflight q m"
  "http_inflight q (ObserveProxy st2 d2 res m) = http_inflight q m"
  "http_inflight q (IncProxyUpstreamInFlight m) = http_inflight q m"
  "http_inflight q (IncProxyUpstreamInFlight_done m) = http_inflight q m"
  "http_inflight q (IncProxyUpstreamBusy m) = http_inflight q m"
  "http_inflight q (ObserveScan res2 d3 m) = http_inflight q m"
  "http_inflight q (ObserveCatalog ep res3 st3 d4 m) = http_inflight q m"
  by (simp_all add: metrics_ops http_inflight_emit) (simp_all add: http_inflight_def event_def split: option.split)

lemma http_inflight_pair:
  "http_inflight q m' = http_inflight q (IncInFlight route m) \<Longrightarrow> (m' = None \<longleftrightarrow> m = None) \<Longrightarrow>
   http_inflight q (IncInFlight_done route m') = http_inflight q m"
  by (cases m; cases m') (auto simp: IncInFlight_def IncInFlight_done_def http_inflight_def event_def)

text \<open>The part of the trace that is about requests to the server: the four collectors of the metrics middleware.\<close>

definition http_events :: "metrics \<Rightarrow> metrics" where
  "http_events m = map_option (filter (\<lambda>e. ev_name e \<in>
     {''audistro_provider_http_requests_total'', ''audistro_provider_http_request_duration_seconds'',
      ''audistro_provider_http_response_bytes'', ''audistro_provider_http_inflight_requests''})) m"

lemma http_events_None [simp]: "http_events m = None \<longleftrightarrow> m = None"
  by (simp add: http_events_def)

lemma http_events_ops [simp]:
  "http_events (ObserveProxy st2 d2 res m) = http_events m"
  "http_events (IncProxyUpstreamInFlight m) = http_events m"
  "http_events (IncProxyUpstreamInFlight_done m) = http_events m"
  "http_events (IncProxyUpstreamBusy m) = http_events m"
  "http_events (ObserveScan res2 d3 m) = http_events m"
  "http_events (ObserveCatalog ep res3 st3 d4 m) = http_events m"
  by (cases m; simp add: metrics_ops http_events_def event_def)+

text \<open>What the middleware itself adds.\<close>

lemma http_events_request:
  "http_events (IncInFlight route m) = map_option (\<lambda>es. es @ [event ''http_inflight_requests'' [route] Inc]) (http_events m)"
  "http_events (IncInFlight_done route (ObserveHTTPRequest route me st d b m)) =
     map_option (\<lambda>es. es @ [event ''http_requests_total'' [route, me, FormatInt st] Inc, event ''http_request_duration_seconds'' [route, me] (ObserveDuration d)] @
       (if 0 \<le> b then [event ''http_response_bytes'' [route, me] (ObserveBytes b)] else []) @ [event ''http_inflight_requests'' [route] Dec]) (http_events m)"
  by (cases m; simp add: metrics_ops http_events_def event_def)+

lemma http_inflight_events: "http_inflight q (http_events m) = http_inflight q m"
proof -
  have "gauge_delta n (filter P (filter Q xs)) = gauge_delta n (filter P xs)" if "\<And>e. ev_name e = n \<Longrightarrow> Q e" for n P Q xs
    using that by (induction xs) auto
  then show ?thesis by (cases m) (simp_all add: http_events_def http_inflight_def del: filter_filter)
qed

section \<open>What the chain expects of the handler inside\<close>

text \<open>The handler leaves the metrics of requests to the middleware.\<close>

locale inner_handler =
  fixes mux :: "'s ctx_handler"
  assumes events_kept: "http_events (sr_metrics (snd (state_of (mux ctx r w s)))) = http_events (sr_metrics s)"
begin

lemma gauge_kept: "http_inflight q (sr_metrics (snd (state_of (mux ctx r w s)))) = http_inflight q (sr_metrics s)"
  using events_kept http_inflight_events by metis

lemma metrics_kept: "sr_metrics (snd (state_of (mux ctx r w s))) = None \<longleftrightarrow> sr_metrics s = None"
  using events_kept http_events_None by metis

lemma recovered_events:
  "http_events (sr_metrics (snd (state_of (Recover (OpenAPIValidation oa (RequestID i mux)) ctx r w s)))) = http_events (sr_metrics s)"
proof -
  have inside: "http_events (sr_metrics (snd (state_of (OpenAPIValidation oa (RequestID i mux) ctx r w s)))) = http_events (sr_metrics s)"
    using events_kept by (auto simp: OpenAPIValidation_def RequestID_def split: option.split)
  then show ?thesis
    by (cases "OpenAPIValidation oa (RequestID i mux) ctx r w s") (auto simp: Recover_def split: prod.split)
qed

text \<open>A request through the chain: its entry in the log, and what it adds to the metrics of requests.\<close>

lemma chain_observes:
  "\<exists>w' s' entry. server_chain e mux None r w s = Returned (w', s') \<and> List.last (sr_log s') = HttpRequest entry \<and>
     le_method entry = req_method r \<and> le_path entry = req_path r \<and> le_status entry = seen_status w w' \<and> le_bytes entry = seen_bytes w w' \<and>
     http_events (sr_metrics s') = map_option (\<lambda>es. es @
       [event ''http_inflight_requests'' [routeLabel (req_path r)] Inc,
        event ''http_requests_total'' [routeLabel (req_path r), req_method r, FormatInt (le_status entry)] Inc,
        event ''http_request_duration_seconds'' [routeLabel (req_path r), req_method r] (ObserveDuration (ce_elapsed e))] @
       (if 0 \<le> le_bytes entry then [event ''http_response_bytes'' [routeLabel (req_path r), req_method r] (ObserveBytes (le_bytes entry))] else []) @
       [event ''http_inflight_requests'' [routeLabel (req_path r)] Dec]) (http_events (sr_metrics s))"
proof -
  let ?s = "s\<lparr>sr_metrics := IncInFlight (routeLabel (req_path r)) (sr_metrics s)\<rparr>"
  let ?n = "Recover (OpenAPIValidation (ce_openapi e) (RequestID (ce_uuid e) mux)) None r (w\<lparr>wr_fields := Some Map.empty\<rparr>) ?s"
  obtain w1 s1 where run: "?n = Returned (w1, s1)" using Recover_returns by fastforce
  have ev: "http_events (sr_metrics s1) =
      map_option (\<lambda>es. es @ [event ''http_inflight_requests'' [routeLabel (req_path r)] Inc]) (http_events (sr_metrics s))"
    using recovered_events [of "ce_openapi e" "ce_uuid e" None r "w\<lparr>wr_fields := Some Map.empty\<rparr>" ?s] run by (simp add: http_events_request)
  show ?thesis
    unfolding server_chain_unfold HTTPMetrics_def AccessLog_def Let_def
    using run by (simp add: http_events_request ev option.map_comp comp_def seen_status_def seen_bytes_def)
qed

lemma inside_kept:
  "http_inflight q (sr_metrics (snd (state_of (OpenAPIValidation oa (RequestID i mux) ctx r w s)))) = http_inflight q (sr_metrics s) \<and>
   (sr_metrics (snd (state_of (OpenAPIValidation oa (RequestID i mux) ctx r w s))) = None \<longleftrightarrow> sr_metrics s = None)"
  using gauge_kept metrics_kept by (auto simp: OpenAPIValidation_def RequestID_def split: option.split)

lemma recovered_kept:
  "http_inflight q (sr_metrics (snd (state_of (Recover (OpenAPIValidation oa (RequestID i mux)) ctx r w s)))) = http_inflight q (sr_metrics s) \<and>
   (sr_metrics (snd (state_of (Recover (OpenAPIValidation oa (RequestID i mux)) ctx r w s))) = None \<longleftrightarrow> sr_metrics s = None)"
proof (cases "OpenAPIValidation oa (RequestID i mux) ctx r w s")
  case (Returned x)
  then show ?thesis using inside_kept [of q oa i ctx r w s] by (simp add: Recover_def)
next
  case (Panicked x)
  then show ?thesis using inside_kept [of q oa i ctx r w s] by (cases x) (simp add: Recover_def)
qed

lemma logged_kept:
  "http_inflight q (sr_metrics (snd (state_of (AccessLog l (Recover (OpenAPIValidation oa (RequestID i mux))) ctx r w s)))) = http_inflight q (sr_metrics s) \<and>
   (sr_metrics (snd (state_of (AccessLog l (Recover (OpenAPIValidation oa (RequestID i mux))) ctx r w s))) = None \<longleftrightarrow> sr_metrics s = None)"
  using recovered_kept [of q oa i ctx r "w\<lparr>wr_fields := Some Map.empty\<rparr>" s]
  by (cases "Recover (OpenAPIValidation oa (RequestID i mux)) ctx r (w\<lparr>wr_fields := Some Map.empty\<rparr>) s")
    (auto simp: AccessLog_def Let_def split: prod.splits)

lemma gauge_balanced:
  "http_inflight q (sr_metrics (snd (state_of (server_chain e mux ctx r w s)))) = http_inflight q (sr_metrics s)"
proof -
  let ?s = "s\<lparr>sr_metrics := IncInFlight (routeLabel (req_path r)) (sr_metrics s)\<rparr>"
  let ?n = "AccessLog (ce_latency e) (Recover (OpenAPIValidation (ce_openapi e) (RequestID (ce_uuid e) mux)))"
  have none: "IncInFlight route m = None \<longleftrightarrow> m = None" for route m by (cases m) (simp_all add: IncInFlight_def)
  note kept = logged_kept [of q "ce_latency e" "ce_openapi e" "ce_uuid e" ctx r "w\<lparr>wr_fields := None\<rparr>" ?s]
  have obs: "ObserveHTTPRequest a b c d f m = None \<longleftrightarrow> m = None" for a b c d f m
    by (cases m) (simp_all add: ObserveHTTPRequest_def)
  show ?thesis
    unfolding server_chain_unfold HTTPMetrics_def Let_def
    using kept by (cases "?n ctx r (w\<lparr>wr_fields := None\<rparr>) ?s") (auto simp: none obs http_inflight_pair split: prod.splits)
qed

end

section \<open>Properties\<close>

text \<open>No panic leaves the server: whatever the handler inside does, the chain returns, and the last log entry is the access log of this
  request. The request id it shows is empty for every request, since the id is put into the context inside the
  access log.\<close>

theorem chain_returns_and_logs:
  "\<exists>w' s' entry. server_chain e mux None r w s = Returned (w', s') \<and> sr_log s' \<noteq> [] \<and> List.last (sr_log s') = HttpRequest entry \<and>
     le_method entry = req_method r \<and> le_path entry = req_path r \<and> le_request_id entry = []"
proof -
  let ?s = "s\<lparr>sr_metrics := IncInFlight (routeLabel (req_path r)) (sr_metrics s)\<rparr>"
  let ?in = "Recover (OpenAPIValidation (ce_openapi e) (RequestID (ce_uuid e) mux)) None r (w\<lparr>wr_fields := Some Map.empty\<rparr>) ?s"
  obtain x where x: "?in = Returned x" using Recover_returns by blast
  then show ?thesis
    unfolding server_chain_unfold by (cases x) (simp add: HTTPMetrics_def AccessLog_def Let_def RequestIDFromContext_def)
qed

text \<open>What the client sees of the writes of a handler and one more write.\<close>

lemma masked_view:
  assumes "concat writes = sent"
  shows "declared_length w = None \<Longrightarrow> client_sees w (writes @ [b]) = \<lparr>cv_body = sent @ b, cv_complete = True, cv_reused = True\<rparr>"
    and "declared_length w = Some n \<Longrightarrow> int (length sent) \<le> n \<Longrightarrow> b \<noteq> [] \<Longrightarrow> client_sees w (writes @ [b]) =
      \<lparr>cv_body = (if n < int (length sent) + int (length b) then sent else sent @ b),
       cv_complete = (n = int (length sent) \<or> n = int (length sent) + int (length b)), cv_reused = (n = int (length sent) + int (length b))\<rparr>"
proof -
  show "declared_length w = None \<Longrightarrow> client_sees w (writes @ [b]) = \<lparr>cv_body = sent @ b, cv_complete = True, cv_reused = True\<rparr>"
    using assms by (simp add: client_sees_def on_wire_unlimited)
  assume n: "declared_length w = Some n" "int (length sent) \<le> n" "b \<noteq> []"
  then show "client_sees w (writes @ [b]) =
      \<lparr>cv_body = (if n < int (length sent) + int (length b) then sent else sent @ b),
       cv_complete = (n = int (length sent) \<or> n = int (length sent) + int (length b)), cv_reused = (n = int (length sent) + int (length b))\<rparr>"
    using on_wire_then [of 0 writes n b] assms by (auto simp: client_sees_def)
qed

text \<open>C36. An abort of the asset handler is not passed on. When the handler has sent its status and then panics, the chain appends the text of a
  server error to what the handler has written, with the status that was sent, and 500 goes to the log; the HTTP library does not learn of the abort. What the client of a
  request that has a body sees of it depends on whether a length was declared. Without one (a streamed segment that exceeds the limit, an
  origin that fails while it streams) the response looks complete, with the text at its end. With one, the text is dropped if it goes beyond the declared
  length, and embedded in the body otherwise; the response is then short, so that the client can tell, except when the
  text fills the body exactly, or when nothing was missing.\<close>

theorem abort_is_masked:
  fixes w1
  assumes "HasPrefix (req_path r) ''/assets/''"
    and "mux (Some (ce_uuid e)) r (set_header (w\<lparr>wr_fields := Some Map.empty\<rparr>) ''X-Request-Id'' (ce_uuid e))
        (s\<lparr>sr_metrics := IncInFlight ''assets'' (sr_metrics s)\<rparr>) = Panicked (w1, s1)"
    and "wr_status w1 = Some code" "length (wr_codes w) \<le> length (wr_codes w1)" "concat writes = wr_body w1"
  defines "notice \<equiv> ''Internal Server Error'' @ [CHR 0x0A]" and "k \<equiv> int (length (wr_body w1))"
  shows "\<exists>w' s' entry. server_chain e mux None r w s = Returned (w', s') \<and> wr_status w' = Some code \<and> wr_sent w' = wr_sent w1 \<and>
    wr_body w' = wr_body w1 @ notice \<and> List.last (sr_log s') = HttpRequest entry \<and> le_status entry = 500 \<and>
    (declared_length w1 = None \<longrightarrow>
      client_sees w' (writes @ [notice]) = \<lparr>cv_body = wr_body w1 @ notice, cv_complete = True, cv_reused = True\<rparr>) \<and>
    (\<forall>n. declared_length w1 = Some n \<and> k \<le> n \<longrightarrow>
      client_sees w' (writes @ [notice]) =
        \<lparr>cv_body = (if n < k + 22 then wr_body w1 else wr_body w1 @ notice), cv_complete = (n = k \<or> n = k + 22), cv_reused = (n = k + 22)\<rparr>)"
proof -
  have p: "req_path r \<noteq> ''/healthz''" "req_path r \<noteq> ''/readyz''" "req_path r \<noteq> ''/metrics''"
    "req_path r \<noteq> ''/openapi.yaml''" "req_path r \<noteq> ''/openapi.json''" "req_path r \<noteq> ''/docs''" "req_path r \<noteq> ''/docs/''"
    using assms(1) by (auto simp: HasPrefix_def)
  then have route: "routeLabel (req_path r) = ''assets''" and val: "\<not> shouldValidateOpenAPIRequest (req_path r)"
    using assms(1) by (simp_all add: routeLabel_def shouldValidateOpenAPIRequest_def)
  define w2 where "w2 = http_Error w1 ''Internal Server Error'' 500"
  have w2: "wr_status w2 = Some code" "wr_sent w2 = wr_sent w1" "wr_body w2 = wr_body w1 @ ''Internal Server Error'' @ [CHR 0x0A]"
    "wr_codes w2 = wr_codes w1 @ [500]" using assms(3) by (simp_all add: w2_def http_Error_def Let_def Write_def)
  have seen: "seen_status v w2 = 500" if "wr_codes v = wr_codes w" for v
    using assms(4) that by (simp add: seen_status_def last_code_def w2)
  have "\<exists>w' s' entry. server_chain e mux None r w s = Returned (w', s') \<and> wr_status w' = Some code \<and> wr_sent w' = wr_sent w1 \<and>
    wr_body w' = wr_body w1 @ notice \<and> List.last (sr_log s') = HttpRequest entry \<and> le_status entry = 500"
    unfolding server_chain_unfold notice_def
    using assms(2) val w2
    by (simp add: HTTPMetrics_def AccessLog_def Recover_def OpenAPIValidation_def RequestID_def Let_def route w2_def [symmetric] seen)
  then obtain w' s' entry where run: "server_chain e mux None r w s = Returned (w', s')" "wr_status w' = Some code" "wr_sent w' = wr_sent w1"
    "wr_body w' = wr_body w1 @ notice" "List.last (sr_log s') = HttpRequest entry" "le_status entry = 500" by blast
  have "declared_length w' = declared_length w1" using run(3) by (simp add: declared_length_def)
  then show ?thesis
    using run masked_view [OF assms(5), where w = w' and b = notice] by (intro exI [of _ w'] exI [of _ s'] exI [of _ entry]) (simp add: notice_def k_def)
qed

section \<open>A handler that aborts\<close>

definition demo_chain :: chain_env where
  "demo_chain = \<lparr>ce_uuid = ''u'', ce_latency = 1, ce_elapsed = 1,
     ce_openapi = \<lparr>oa_findRoute = (\<lambda>_. None), oa_validate = (\<lambda>_. None), oa_quote = id\<rparr>\<rparr>"

definition demo_asset_request :: request where
  "demo_asset_request = \<lparr>req_method = ''GET'', req_path = ''/assets/a1/s.ts'', req_rawquery = [], req_header = Map.empty,
     req_remote = ''192.0.2.1:5'', req_tls = False, req_ctx_done = False\<rparr>"

definition aborting :: "unit ctx_handler" where
  "aborting ctx r w s = Panicked (Write (WriteHeader w 200) ''ab'', s)"

theorem abort_is_masked_witness:
  "\<exists>w' s' entry. server_chain demo_chain aborting None demo_asset_request fresh_writer \<lparr>sr_metrics = None, sr_log = [], sr_app = ()\<rparr> =
     Returned (w', s') \<and> wr_status w' = Some 200 \<and> List.last (sr_log s') = HttpRequest entry \<and> le_status entry = 500 \<and>
     client_sees w' [''ab'', ''Internal Server Error'' @ [CHR 0x0A]] =
       \<lparr>cv_body = ''abInternal Server Error'' @ [CHR 0x0A], cv_complete = True, cv_reused = True\<rparr>"
proof -
  let ?s = "\<lparr>sr_metrics = None, sr_log = [], sr_app = ()\<rparr>"
  let ?w = "set_header (fresh_writer\<lparr>wr_fields := Some Map.empty\<rparr>) ''X-Request-Id'' (ce_uuid demo_chain)"
  let ?w1 = "Write (WriteHeader ?w 200) ''ab''"
  have p: "HasPrefix (req_path demo_asset_request) ''/assets/''" by (simp add: demo_asset_request_def HasPrefix_def)
  have w1: "wr_status ?w1 = Some 200" "length (wr_codes fresh_writer) \<le> length (wr_codes ?w1)" "concat [''ab''] = wr_body ?w1"
    by (simp_all add: fresh_writer_def set_header_def Write_def WriteHeader_def send_header_def)
  have key: "CanonicalHeaderKey ''X-Request-Id'' = ''X-Request-Id''" by code_simp
  have d: "declared_length ?w1 = None"
    by (simp add: declared_length_def fresh_writer_def set_header_def Header_Set_def key Write_def WriteHeader_def send_header_def)
  show ?thesis
    using abort_is_masked [where mux = aborting and e = demo_chain and w = fresh_writer and s = ?s, OF p aborting_def w1] d w1(3) by auto
qed

end
