(* ===== verification/Go_Path.thy ===== *)
theory Go_Path
  imports Go_Strings
begin

text \<open>
  The slash-separated path functions of Go's \<open>path\<close> and \<open>path/filepath\<close> packages (on Unix they
  agree): \<open>Clean\<close>, \<open>Join\<close>, \<open>Base\<close>, \<open>Ext\<close>, \<open>Dir\<close> and \<open>Abs\<close>. \<open>Clean\<close> is written over the list of path
  elements: empty and \<open>.\<close> elements vanish and an inner \<open>..\<close> removes the element before it.
  The lemmas say what joining one plain name to a path gives, which is what path containment
  in the asset handler rests on.
\<close>

definition IsAbs :: "string \<Rightarrow> bool" where
  "IsAbs p = HasPrefix p ''/''"

definition clean_step :: "bool \<Rightarrow> string list \<Rightarrow> string \<Rightarrow> string list" where
  "clean_step rooted out e =
     (if e = [] \<or> e = ''.'' then out
      else if e = ''..'' then
        (if out \<noteq> [] \<and> last out \<noteq> ''..'' then butlast out
         else if rooted then out else out @ [''..''])
      else out @ [e])"

definition path_elems :: "string \<Rightarrow> string list" where
  "path_elems p = foldl (clean_step (IsAbs p)) [] (Split p CHR ''/'')"

definition render :: "bool \<Rightarrow> string list \<Rightarrow> string" where
  "render rooted es =
     (if rooted then CHR ''/'' # join_with ''/'' es
      else if es = [] then ''.'' else join_with ''/'' es)"

definition Clean :: "string \<Rightarrow> string" where
  "Clean p = render (IsAbs p) (path_elems p)"

definition Join :: "string list \<Rightarrow> string" where
  "Join es =
     (case dropWhile (\<lambda>e. e = []) es of [] \<Rightarrow> [] | e # rest \<Rightarrow> Clean (join_with ''/'' (e # rest)))"

definition Ext :: "string \<Rightarrow> string" where
  "Ext p =
     (let tail = takeWhile (\<lambda>c. c \<noteq> CHR ''.'' \<and> c \<noteq> CHR ''/'') (rev p)
      in case drop (length tail) (rev p) of
           [] \<Rightarrow> []
         | c # _ \<Rightarrow> (if c = CHR ''.'' then CHR ''.'' # rev tail else []))"

definition Base :: "string \<Rightarrow> string" where
  "Base p =
     (if p = [] then ''.''
      else let t = TrimRight p ''/''
           in if t = [] then ''/'' else rev (takeWhile (\<lambda>c. c \<noteq> CHR ''/'') (rev t)))"

definition Dir :: "string \<Rightarrow> string" where
  "Dir p = Clean (rev (dropWhile (\<lambda>c. c \<noteq> CHR ''/'') (rev p)))"

text \<open>\<open>filepath.Abs\<close>; the working directory may be unavailable.\<close>

definition Abs :: "string option \<Rightarrow> string \<Rightarrow> string option" where
  "Abs getwd p =
     (if IsAbs p then Some (Clean p)
      else (case getwd of None \<Rightarrow> None | Some wd \<Rightarrow> Some (Join [wd, p])))"

section \<open>Plain names and normal element lists\<close>

text \<open>A name that \<open>Clean\<close> keeps as it is: one element, neither \<open>.\<close> nor \<open>..\<close>.\<close>

definition plain_name :: "string \<Rightarrow> bool" where
  "plain_name e \<longleftrightarrow> e \<noteq> [] \<and> e \<noteq> ''.'' \<and> e \<noteq> ''..'' \<and> CHR ''/'' \<notin> set e"

definition normal_elems :: "bool \<Rightarrow> string list \<Rightarrow> bool" where
  "normal_elems rooted es \<longleftrightarrow>
     (\<exists>ups names. es = ups @ names \<and> (\<forall>u \<in> set ups. u = ''..'') \<and>
        (\<forall>n \<in> set names. plain_name n) \<and> (rooted \<longrightarrow> ups = []))"

lemma clean_step_plain [simp]: "plain_name e \<Longrightarrow> clean_step r out e = out @ [e]"
  by (simp add: clean_step_def plain_name_def)

lemma normal_elemsI:
  "(\<And>u. u \<in> set ups \<Longrightarrow> u = ''..'') \<Longrightarrow> (\<And>n. n \<in> set names \<Longrightarrow> plain_name n) \<Longrightarrow>
   (r \<Longrightarrow> ups = []) \<Longrightarrow> normal_elems r (ups @ names)"
  unfolding normal_elems_def by blast

lemma normal_elemsE:
  assumes "normal_elems r es"
  obtains ups names where "es = ups @ names" "\<And>u. u \<in> set ups \<Longrightarrow> u = ''..''"
    "\<And>n. n \<in> set names \<Longrightarrow> plain_name n" "r \<Longrightarrow> ups = []"
  using assms unfolding normal_elems_def by blast

lemma normal_elems_snoc_plain:
  assumes "normal_elems r es" "plain_name e"
  shows "normal_elems r (es @ [e])"
proof -
  obtain ups names where un: "es = ups @ names" "\<And>u. u \<in> set ups \<Longrightarrow> u = ''..''"
    "\<And>n. n \<in> set names \<Longrightarrow> plain_name n" "r \<Longrightarrow> ups = []"
    using assms(1) by (elim normal_elemsE) blast
  have "normal_elems r (ups @ (names @ [e]))"
    using un assms(2) by (intro normal_elemsI) auto
  with un show ?thesis by simp
qed

lemma normal_elems_step:
  assumes "normal_elems r out" "CHR ''/'' \<notin> set e"
  shows "normal_elems r (clean_step r out e)"
proof -
  obtain ups names where out: "out = ups @ names" and ups: "\<And>u. u \<in> set ups \<Longrightarrow> u = ''..''"
    and names: "\<And>n. n \<in> set names \<Longrightarrow> plain_name n" and rooted: "r \<Longrightarrow> ups = []"
    using assms(1) by (elim normal_elemsE) blast
  consider "e = [] \<or> e = ''.''" | "e = ''..''" "names \<noteq> []" | "e = ''..''" "names = []" | "plain_name e"
    using assms(2) unfolding plain_name_def by blast
  then show ?thesis
  proof cases
    case 1
    with assms(1) show ?thesis by (auto simp: clean_step_def)
  next
    case 2
    have "last names \<noteq> ''..''" using names [of "last names"] 2 by (simp add: plain_name_def)
    then have "clean_step r out e = ups @ butlast names"
      using 2 out by (simp add: clean_step_def butlast_append)
    moreover have "normal_elems r (ups @ butlast names)"
      using ups names rooted by (intro normal_elemsI) (auto dest: in_set_butlastD)
    ultimately show ?thesis by simp
  next
    case 3
    have "out = [] \<or> last out = ''..''" using 3 out ups [of "last ups"] by (cases "ups = []") auto
    then have "clean_step r out e = (if r then out else ups @ [''..'']) "
      using 3 out by (auto simp: clean_step_def)
    moreover have "\<not> r \<Longrightarrow> normal_elems r ((ups @ [''..'']) @ [])"
      using ups by (intro normal_elemsI) auto
    ultimately show ?thesis using assms(1) by auto
  next
    case 4
    with assms(1) show ?thesis by (simp add: normal_elems_snoc_plain)
  qed
qed

lemma normal_elems_foldl:
  "normal_elems r out \<Longrightarrow> (\<forall>e \<in> set es. CHR ''/'' \<notin> set e) \<Longrightarrow> normal_elems r (foldl (clean_step r) out es)"
  by (induction es arbitrary: out) (auto simp: normal_elems_step)

lemma normal_path_elems: "normal_elems (IsAbs p) (path_elems p)"
proof -
  have "normal_elems (IsAbs p) []" by (simp add: normal_elems_def)
  then show ?thesis
    unfolding path_elems_def by (rule normal_elems_foldl) (auto dest: Split_parts_no_sep)
qed

text \<open>A normal list is a fixed point of the cleaning loop.\<close>

lemma foldl_plain: "(\<forall>n \<in> set names. plain_name n) \<Longrightarrow> foldl (clean_step r) out names = out @ names"
  by (induction names arbitrary: out) auto

lemma foldl_ups:
  "(\<forall>u \<in> set ups. u = ''..'') \<Longrightarrow> (\<forall>u \<in> set out. u = ''..'') \<Longrightarrow>
   foldl (clean_step False) out ups = out @ ups"
proof (induction ups arbitrary: out)
  case (Cons u ups)
  then have "clean_step False out u = out @ [u]"
    by (cases out rule: rev_cases) (auto simp: clean_step_def)
  with Cons show ?case by simp
qed simp

lemma foldl_normal: "normal_elems r es \<Longrightarrow> foldl (clean_step r) [] es = es"
  unfolding normal_elems_def by (cases r) (auto simp: foldl_plain foldl_ups)

lemma normal_elems_no_slash: "normal_elems r es \<Longrightarrow> e \<in> set es \<Longrightarrow> CHR ''/'' \<notin> set e \<and> e \<noteq> []"
  by (auto simp: plain_name_def elim!: normal_elemsE) fastforce+

lemma normal_elems_slash_free: "normal_elems r es \<Longrightarrow> \<forall>e \<in> set es. CHR ''/'' \<notin> set e"
  using normal_elems_no_slash by blast

lemma join_hd_not_slash:
  "es \<noteq> [] \<Longrightarrow> normal_elems r es \<Longrightarrow> \<not> HasPrefix (join_with ''/'' es) ''/''"
proof -
  assume ne: "es \<noteq> []" and nf: "normal_elems r es"
  obtain e rest where es: "es = e # rest" using ne by (cases es) auto
  have "e \<noteq> []" "CHR ''/'' \<notin> set e" using normal_elems_no_slash [OF nf, of e] es by auto
  then obtain c e' where "e = c # e'" "c \<noteq> CHR ''/''" by (cases e) auto
  then show ?thesis using es by (cases rest) auto
qed

lemma IsAbs_render: "normal_elems r es \<Longrightarrow> IsAbs (render r es) = r"
  using join_hd_not_slash [of es r] by (auto simp: IsAbs_def render_def)

lemma path_elems_render: "normal_elems r es \<Longrightarrow> path_elems (render r es) = es"
proof -
  assume n: "normal_elems r es"
  have sp: "es \<noteq> [] \<Longrightarrow> Split (join_with ''/'' es) CHR ''/'' = es"
    using Split_join [of es "CHR ''/''"] normal_elems_slash_free [OF n] by simp
  have abs: "IsAbs (render r es) = r" by (rule IsAbs_render [OF n])
  show ?thesis
    using foldl_normal [OF n] sp abs unfolding path_elems_def
    by (cases "es = []") (auto simp: render_def clean_step_def)
qed

lemma IsAbs_Clean [simp]: "IsAbs (Clean p) = IsAbs p"
  unfolding Clean_def by (rule IsAbs_render [OF normal_path_elems])

lemma path_elems_Clean [simp]: "path_elems (Clean p) = path_elems p"
  unfolding Clean_def by (rule path_elems_render [OF normal_path_elems])

lemma Clean_idem [simp]: "Clean (Clean p) = Clean p"
  by (simp add: Clean_def [of "Clean p"] Clean_def [of p, symmetric])

section \<open>Joining a plain name\<close>

lemma IsAbs_append: "p \<noteq> [] \<Longrightarrow> IsAbs (p @ q) = IsAbs p"
  by (cases p) (auto simp: IsAbs_def)

lemma path_elems_append:
  "p \<noteq> [] \<Longrightarrow> path_elems (p @ CHR ''/'' # q) =
     foldl (clean_step (IsAbs p)) (path_elems p) (Split q CHR ''/'')"
  by (simp add: path_elems_def IsAbs_append Split_append_sep)

lemma path_elems_snoc_plain:
  "p \<noteq> [] \<Longrightarrow> plain_name e \<Longrightarrow> path_elems (p @ CHR ''/'' # e) = path_elems p @ [e]"
  by (simp add: path_elems_append) (simp add: plain_name_def)

lemma render_snoc: "es \<noteq> [] \<Longrightarrow> render r (es @ [e]) = render r es @ CHR ''/'' # e"
  by (simp add: render_def join_with_snoc)

lemma Clean_snoc_plain:
  "p \<noteq> [] \<Longrightarrow> path_elems p \<noteq> [] \<Longrightarrow> plain_name e \<Longrightarrow>
   Clean (p @ CHR ''/'' # e) = Clean p @ CHR ''/'' # e"
  unfolding Clean_def by (simp add: path_elems_snoc_plain IsAbs_append render_snoc)

lemma path_elems_plain: "plain_name e \<Longrightarrow> path_elems e = [e]"
  by (simp add: path_elems_def plain_name_def clean_step_def)

lemma Clean_not_Nil [simp]: "Clean p \<noteq> []"
proof (cases "path_elems p")
  case Nil
  then show ?thesis by (simp add: Clean_def render_def)
next
  case (Cons e es)
  then have "e \<noteq> []" using normal_elems_no_slash [OF normal_path_elems, of e p] by simp
  with Cons show ?thesis by (cases es) (auto simp: Clean_def render_def)
qed

lemma Join2: "plain_name e \<Longrightarrow> Join [p, e] = (if p = [] then Clean e else Clean (p @ CHR ''/'' # e))"
  by (auto simp: Join_def plain_name_def)

lemma Join2_elems:
  "plain_name e \<Longrightarrow> path_elems (Join [p, e]) = (if p = [] then [] else path_elems p) @ [e]"
  by (simp add: Join2 path_elems_snoc_plain path_elems_plain)

lemma Join2_not_Nil: "plain_name e \<Longrightarrow> Join [p, e] \<noteq> []"
  by (simp add: Join2)

lemma Clean_Join2: "plain_name e \<Longrightarrow> Clean (Join [p, e]) = Join [p, e]"
  by (simp add: Join2)

text \<open>Joining a second plain name appends it textually.\<close>

lemma Join2_Join2:
  assumes "plain_name a" "plain_name f"
  shows "Join [Join [p, a], f] = Join [p, a] @ CHR ''/'' # f"
  using assms Clean_snoc_plain [of "Join [p, a]" f]
  by (simp add: Join2_not_Nil Join2_elems Clean_Join2 Join2 [OF assms(2)])

lemma Abs_Join2:
  assumes "plain_name f" "root \<noteq> []" "Clean root = root" "path_elems root = es @ [a]" "plain_name a"
    and "Abs wd root = Some r"
  shows "Abs wd (root @ CHR ''/'' # f) = Some (r @ CHR ''/'' # f)"
proof (cases "IsAbs root")
  case True
  with assms show ?thesis
    by (auto simp: Abs_def IsAbs_append Clean_snoc_plain)
next
  case False
  then obtain w where w: "wd = Some w" and r: "r = Join [w, root]"
    using assms(6) by (auto simp: Abs_def split: option.splits)
  have abs: "\<not> IsAbs (root @ CHR ''/'' # f)" using False assms(2) by (simp add: IsAbs_append)
  show ?thesis
  proof (cases "w = []")
    case True
    with r w abs assms show ?thesis
      by (simp add: Abs_def Join_def Clean_snoc_plain)
  next
    case wne: False
    have sp: "Split root CHR ''/'' = es @ [a]"
    proof -
      have "root = join_with ''/'' (es @ [a])"
        using assms(3,4) False by (simp add: Clean_def render_def)
      then show ?thesis
        using Split_join [of "es @ [a]" "CHR ''/''"] normal_path_elems [of root]
          normal_elems_slash_free assms(4) by simp
    qed
    have "path_elems (w @ CHR ''/'' # root) \<noteq> []"
      using wne sp assms(5) by (simp add: path_elems_append)
    then have "Clean ((w @ CHR ''/'' # root) @ CHR ''/'' # f) = Clean (w @ CHR ''/'' # root) @ CHR ''/'' # f"
      using assms(1) by (intro Clean_snoc_plain) simp_all
    with r w wne abs show ?thesis by (simp add: Abs_def Join_def)
  qed
qed

end
