(* ===== verification/Api_Docs.thy ===== *)
theory Api_Docs
  imports Middleware Go_Path
begin

text \<open>
  Package \<open>httpserver\<close>, file \<open>apidocs.go\<close>: the OpenAPI specification and the pages that show it, and the construction of the validation middleware
  (\<open>openapi_validation.go\<close>), which loads it first. The OpenAPI library is a parameter: parsing, checking and printing a document of
  some type \<open>'a\<close>, and building a router from it.
\<close>

definition openAPIYAMLPath :: string where "openAPIYAMLPath = ''/openapi.yaml''"

definition openAPIJSONPath :: string where "openAPIJSONPath = ''/openapi.json''"

section \<open>Loading the specification\<close>

record 'a spec_lib =
  so_LoadFromData :: "string \<Rightarrow> (string, 'a) result"
  so_Validate :: "'a \<Rightarrow> string option"
  so_MarshalIndent :: "'a \<Rightarrow> (string, string) result"
  so_NewRouter :: "'a \<Rightarrow> (string, openapi) result"

text \<open>The variables of the package; \<open>sq_done\<close> is the state of the \<open>sync.Once\<close>.\<close>

record 'a spec_vars =
  sq_done :: bool
  sq_spec :: "'a option"
  sq_json :: string
  sq_err :: "string option"

definition spec_unloaded :: "'a spec_vars" where
  "spec_unloaded = \<lparr>sq_done = False, sq_spec = None, sq_json = [], sq_err = None\<rparr>"

definition load_spec :: "'a spec_lib \<Rightarrow> string \<Rightarrow> 'a spec_vars \<Rightarrow> 'a spec_vars" where
  "load_spec lib yaml v =
     (case so_LoadFromData lib yaml of
        Inl err \<Rightarrow> v\<lparr>sq_err := Some err\<rparr>
      | Inr spec \<Rightarrow>
          (case so_Validate lib spec of
             Some err \<Rightarrow> v\<lparr>sq_err := Some err\<rparr>
           | None \<Rightarrow>
               (case so_MarshalIndent lib spec of
                  Inl err \<Rightarrow> v\<lparr>sq_err := Some err\<rparr>
                | Inr json \<Rightarrow> v\<lparr>sq_spec := Some spec, sq_json := json\<rparr>)))"

definition LoadSpec :: "'a spec_lib \<Rightarrow> string \<Rightarrow> 'a spec_vars \<Rightarrow> ('a option \<times> string option) \<times> 'a spec_vars" where
  "LoadSpec lib yaml v =
     (let v' = (if sq_done v then v else (load_spec lib yaml v)\<lparr>sq_done := True\<rparr>) in ((sq_spec v', sq_err v'), v'))"

text \<open>Building the validation middleware: \<open>None\<close> is a panic.\<close>

definition build_validation :: "'a spec_lib \<Rightarrow> string \<Rightarrow> 'a spec_vars \<Rightarrow> ('s middleware option) \<times> 'a spec_vars" where
  "build_validation lib yaml v =
     (case LoadSpec lib yaml v of
        ((_, Some err), v') \<Rightarrow> (None, v')
      | ((None, None), v') \<Rightarrow> (None, v')
      | ((Some spec, None), v') \<Rightarrow>
          (case so_NewRouter lib spec of Inl err \<Rightarrow> (None, v') | Inr oa \<Rightarrow> (Some (OpenAPIValidation oa), v')))"

section \<open>The pages\<close>

text \<open>What the JSON page finds in the variables after its own call of \<open>LoadSpec\<close>.\<close>

definition spec_answer :: "'a spec_lib \<Rightarrow> string \<Rightarrow> 'a spec_vars \<Rightarrow> (string, string) result" where
  "spec_answer lib yaml v = (case LoadSpec lib yaml v of ((_, Some err), _) \<Rightarrow> Err err | ((_, None), v') \<Rightarrow> Ok (sq_json v'))"

definition serve_text :: "string \<Rightarrow> string \<Rightarrow> 's http_handler" where
  "serve_text contentType body r w s = Returned (Write (WriteHeader (set_header w ''Content-Type'' contentType) 200) body, s)"

definition OpenAPIYAMLHandler :: "string \<Rightarrow> 's http_handler" where
  "OpenAPIYAMLHandler yaml = serve_text ''application/yaml; charset=utf-8'' yaml"

definition OpenAPIJSONHandler :: "(string, string) result \<Rightarrow> 's http_handler" where
  "OpenAPIJSONHandler spec r w s =
     (case spec of
        Inl err \<Rightarrow> Returned (http_Error w (''load openapi spec: '' @ err) 500, s)
      | Inr json \<Rightarrow> serve_text ''application/json; charset=utf-8'' json r w s)"

definition docs_html :: "string \<Rightarrow> string" where
  "docs_html specPath = join_with [CHR 0x0A]
     [''<!doctype html>'', ''<html lang=\"en\">'', ''<head>'', ''  <meta charset=\"utf-8\">'',
      ''  <meta name=\"viewport\" content=\"width=device-width, initial-scale=1\">'', ''  <title>audistro-provider API Docs</title>'',
      ''  <style>'', ''    body { margin: 0; }'', ''  </style>'', ''</head>'', ''<body>'', ''  <script'', ''    id=\"api-reference\"'',
      ''    data-url=\"'' @ specPath @ ''\"'',
      ''    data-configuration='' @ [CHR 0x27] @ ''{\"theme\":\"deepSpace\"}'' @ [CHR 0x27] @ ''></script>'',
      ''  <script src=\"https://cdn.jsdelivr.net/npm/@scalar/api-reference\"></script>'', ''</body>'', ''</html>'']"

definition DocsHandler :: "string \<Rightarrow> 's http_handler" where
  "DocsHandler specPath = serve_text ''text/html; charset=utf-8'' (docs_html (if specPath = [] then openAPIJSONPath else specPath))"

section \<open>Embedded and canonical file\<close>

text \<open>The comparison that the tests run. \<open>caller\<close> is the source file the runtime reports, if any, to each of its two callers; a panic is \<open>None\<close>.\<close>

definition canonicalOpenAPIYAML :: "string option \<Rightarrow> (string \<Rightarrow> (string, string) result) \<Rightarrow> (string, string) result" where
  "canonicalOpenAPIYAML caller readFile =
     (case caller of None \<Rightarrow> Err ''locate current file''
      | Some currentFile \<Rightarrow> readFile (Join [Dir currentFile, ''..'', ''..'', ''api'', ''openapi.v1.yaml'']))"

definition mustCurrentFile :: "string option \<Rightarrow> string option" where
  "mustCurrentFile caller = caller"

definition embeddedOpenAPIYAMLMatchesCanonical ::
  "(bool \<Rightarrow> string option) \<Rightarrow> (string \<Rightarrow> (string, string) result) \<Rightarrow> string \<Rightarrow> (string, unit) result option" where
  "embeddedOpenAPIYAMLMatchesCanonical caller readFile openAPIYAML =
     (case canonicalOpenAPIYAML (caller False) readFile of
        Inl err \<Rightarrow> Some (Err err)
      | Inr canonical \<Rightarrow>
          if canonical \<noteq> openAPIYAML then Some (Err ''embedded spec is out of sync with canonical spec'')
          else (case mustCurrentFile (caller True) of
            None \<Rightarrow> None
          | Some currentFile \<Rightarrow>
              (case readFile (Join [Dir currentFile, ''openapi.yaml'']) of
                 Inl err \<Rightarrow> Some (Err err)
               | Inr compatSpec \<Rightarrow>
                   if canonical \<noteq> compatSpec then Some (Err ''compatibility spec is out of sync with canonical spec'') else Some (Ok ()))))"

lemma sync_check_exact:
  "embeddedOpenAPIYAMLMatchesCanonical caller readFile yaml = Some (Ok ()) \<longleftrightarrow>
     (\<exists>f g. caller False = Some f \<and> caller True = Some g \<and> readFile (Join [Dir f, ''..'', ''..'', ''api'', ''openapi.v1.yaml'']) = Ok yaml \<and>
        readFile (Join [Dir g, ''openapi.yaml'']) = Ok yaml)"
  by (auto simp: embeddedOpenAPIYAMLMatchesCanonical_def canonicalOpenAPIYAML_def mustCurrentFile_def split: option.splits sum.splits if_splits)

section \<open>Properties\<close>

lemma LoadSpec_done: "sq_done (snd (LoadSpec lib yaml v))"
  by (simp add: LoadSpec_def Let_def)

lemma LoadSpec_again: "LoadSpec lib yaml (snd (LoadSpec lib yaml v)) = LoadSpec lib yaml v"
  by (simp add: LoadSpec_def Let_def)

text \<open>A server that has been built shows its documentation: building the validation middleware loads the specification first and panics when that
  fails, so in a running server the JSON page always answers with the JSON text of the embedded file, on every request, and its
  error branch is never taken; the specification is parsed at most once.\<close>

theorem built_server_documents:
  assumes "build_validation lib yaml spec_unloaded = (Some mw, v)"
  shows "\<exists>spec json. so_LoadFromData lib yaml = Ok spec \<and> so_Validate lib spec = None \<and> so_MarshalIndent lib spec = Ok json \<and>
    LoadSpec lib yaml v = ((Some spec, None), v) \<and>
    OpenAPIJSONHandler (spec_answer lib yaml v) r w s =
      Returned (Write (WriteHeader (set_header w ''Content-Type'' ''application/json; charset=utf-8'') 200) json, s)"
proof -
  obtain spec where spec: "LoadSpec lib yaml spec_unloaded = ((Some spec, None), v)"
    using assms by (auto simp: build_validation_def split: prod.splits option.splits sum.splits)
  then obtain json where json: "so_LoadFromData lib yaml = Ok spec" "so_Validate lib spec = None" "so_MarshalIndent lib spec = Ok json" "sq_json v = json"
    by (auto simp: LoadSpec_def load_spec_def spec_unloaded_def Let_def split: sum.splits option.splits)
  have again: "LoadSpec lib yaml v = ((Some spec, None), v)" using LoadSpec_again [of lib yaml spec_unloaded] spec by simp
  then show ?thesis using json by (simp add: spec_answer_def OpenAPIJSONHandler_def serve_text_def)
qed

section \<open>A concrete document\<close>

definition demo_spec_lib :: "string spec_lib" where
  "demo_spec_lib = \<lparr>so_LoadFromData = (\<lambda>y. if y = [] then Err ''empty'' else Ok y), so_Validate = (\<lambda>_. None),
     so_MarshalIndent = (\<lambda>y. Ok (''{'' @ y @ ''}'')), so_NewRouter = (\<lambda>_. Ok \<lparr>oa_findRoute = (\<lambda>_. None), oa_validate = (\<lambda>_. None), oa_quote = id\<rparr>)\<rparr>"

theorem built_server_documents_witness:
  "\<exists>v w'. snd (build_validation demo_spec_lib ''openapi'' spec_unloaded :: unit middleware option \<times> string spec_vars) = v \<and>
     OpenAPIJSONHandler (spec_answer demo_spec_lib ''openapi'' v) demo_asset_request fresh_writer () = Returned (w', ()) \<and> wr_body w' = ''{openapi}''"
proof -
  obtain mw :: "unit middleware" and v where b: "build_validation demo_spec_lib ''openapi'' spec_unloaded = (Some mw, v)"
    by (simp add: build_validation_def LoadSpec_def load_spec_def spec_unloaded_def demo_spec_lib_def)
  show ?thesis
    using built_server_documents [OF b, of demo_asset_request fresh_writer "()"] b by (auto simp: demo_spec_lib_def fresh_writer_def)
qed

end
