(* ===== verification/Assets_Request.thy ===== *)
theory Assets_Request
  imports Go_Path Go_Http
begin

text \<open>
  Package \<open>assets\<close>, the part that decides what a request path names: \<open>errors.go\<close>, \<open>validate.go\<close> and
  \<open>parseAssetPath\<close>, \<open>parseRequest\<close> and \<open>ensureWithinRoot\<close> of \<open>handler.go\<close>. Errors are
  pairs of a status and the message of the Go error.
\<close>

section \<open>Error responses (errors.go)\<close>

definition json_error_body :: "string \<Rightarrow> string" where
  "json_error_body code = ''{\"error\":\"'' @ code @ ''\"}'' @ [CHR 0x0A]"

definition writeJSONError :: "writer \<Rightarrow> int \<Rightarrow> string \<Rightarrow> writer" where
  "writeJSONError w status code =
     (let w1 = set_header w ''Content-Type'' ''application/json'';
          w2 = WriteHeader w1 status
      in Write w2 (json_error_body code))"

lemma writeJSONError_status [simp]:
  "wr_status w = None \<Longrightarrow> 200 \<le> status \<Longrightarrow> wr_status (writeJSONError w status code) = Some status"
  by (simp add: writeJSONError_def)

lemma writeJSONError_body [simp]:
  "wr_body (writeJSONError w status code) = wr_body w @ json_error_body code"
  by (simp add: writeJSONError_def)

lemma writeJSONError_fields [simp, frame]: "wr_fields (writeJSONError w status code) = wr_fields w"
  by (simp add: writeJSONError_def)

section \<open>Validation (validate.go)\<close>

definition asset_id_char :: "char \<Rightarrow> bool" where
  "asset_id_char c \<longleftrightarrow> is_alpha c \<or> is_digit c \<or> c = CHR ''_'' \<or> c = CHR ''-''"

definition assetIDRegex :: "string \<Rightarrow> bool" where
  "assetIDRegex s \<longleftrightarrow> 1 \<le> length s \<and> length s \<le> 128 \<and> list_all asset_id_char s"

definition filenameRegex :: "string \<Rightarrow> bool" where
  "filenameRegex s \<longleftrightarrow>
     1 \<le> length s \<and> length s \<le> 256 \<and> list_all (\<lambda>c. asset_id_char c \<or> c = CHR ''.'') s"

definition validateAssetID :: "string \<Rightarrow> (string, unit) result" where
  "validateAssetID assetID = (if \<not> assetIDRegex assetID then Err ''invalid asset_id'' else Ok ())"

definition validateFilename :: "string \<Rightarrow> (string, unit) result" where
  "validateFilename filename =
     (if filename = [] then Err ''empty filename''
      else if Contains filename ''..'' then Err ''invalid filename''
      else if Contains filename ''/'' \<or> Contains filename [CHR 0x5C] then Err ''invalid filename''
      else if \<not> filenameRegex filename then Err ''invalid filename''
      else Ok ())"

definition validateExtension :: "string \<Rightarrow> (string, string) result" where
  "validateExtension filename =
     (let ext = ToLower (Ext filename)
      in if ext \<in> set [''.m3u8'', ''.ts'', ''.m4s''] then Ok ext
         else if ext = ''.mp4'' then
           (let base = ToLower (Base filename)
            in if base = ''init.mp4'' then Ok ext
               else if HasPrefix base ''init-'' \<and> length ''init-.mp4'' < length base then Ok ext
               else Err ''invalid mp4 filename'')
         else Err ''unsupported extension'')"

section \<open>The request (handler.go)\<close>

record assetRequest =
  rq_assetID :: string
  rq_filename :: string
  rq_ext :: string
  rq_root :: string
  rq_target :: string

definition parseAssetPath :: "string \<Rightarrow> (string \<times> string) option" where
  "parseAssetPath path =
     (if \<not> HasPrefix path ''/assets/'' then None
      else let rest = TrimPrefix path ''/assets/''
           in if rest = [] then None
              else (case SplitN2 rest CHR ''/'' of [a, b] \<Rightarrow> Some (a, b) | _ \<Rightarrow> None))"

definition ensureWithinRoot :: "string option \<Rightarrow> string \<Rightarrow> string \<Rightarrow> (string, unit) result" where
  "ensureWithinRoot getwd root target =
     (case Abs getwd root of
        None \<Rightarrow> Err ''getwd''
      | Some absRoot \<Rightarrow>
          (case Abs getwd target of
             None \<Rightarrow> Err ''getwd''
           | Some absTarget \<Rightarrow>
               if \<not> HasPrefix absTarget (absRoot @ ''/'') then Err ''target outside root'' else Ok ()))"

definition parseRequest :: "string option \<Rightarrow> string \<Rightarrow> string \<Rightarrow> (int \<times> string, assetRequest) result" where
  "parseRequest getwd assetsRoot pathValue =
     (case parseAssetPath pathValue of
        None \<Rightarrow> Err (404, ''not_found'')
      | Some (assetID, filename) \<Rightarrow>
          (case validateAssetID assetID of
             Inl e \<Rightarrow> Err (400, e)
           | Inr _ \<Rightarrow>
               if filename = [] then Err (404, ''not_found'')
               else (case validateFilename filename of
                 Inl e \<Rightarrow> Err (400, e)
               | Inr _ \<Rightarrow>
                   (case validateExtension filename of
                      Inl e \<Rightarrow> Err (400, e)
                    | Inr ext \<Rightarrow>
                        (let root = Join [assetsRoot, assetID];
                             target = Join [root, filename]
                         in case ensureWithinRoot getwd root target of
                              Inl e \<Rightarrow> Err (400, e)
                            | Inr _ \<Rightarrow> Ok \<lparr>rq_assetID = assetID, rq_filename = filename,
                                rq_ext = ext, rq_root = root, rq_target = target\<rparr>)))))"

section \<open>What validation guarantees\<close>

lemma asset_id_char_not:
  "asset_id_char c \<Longrightarrow> c \<noteq> CHR ''/'' \<and> c \<noteq> CHR ''.'' \<and> c \<noteq> CHR 0x5C \<and> c \<noteq> CHR ''|'' \<and> graphic c"
  by (auto simp: asset_id_char_def is_alpha_def is_digit_def ascii_lower_def less_eq_char_def graphic_def
      Let_def split: if_splits)

lemma assetID_plain: "assetIDRegex s \<Longrightarrow> plain_name s"
  by (cases s) (auto simp: assetIDRegex_def plain_name_def list_all_iff dest: asset_id_char_not)

lemma filename_regex_no_slash: "filenameRegex s \<Longrightarrow> CHR ''/'' \<notin> set s \<and> CHR 0x5C \<notin> set s"
  by (auto simp: filenameRegex_def list_all_iff dest: asset_id_char_not)

lemma validateFilename_ok:
  "validateFilename f = Ok () \<longleftrightarrow> filenameRegex f \<and> \<not> Contains f ''..''"
  using filename_regex_no_slash [of f] by (auto simp: validateFilename_def filenameRegex_def)

lemma validateAssetID_ok: "validateAssetID a = Ok () \<longleftrightarrow> assetIDRegex a"
  by (simp add: validateAssetID_def)

lemma validateFilename_plain:
  assumes "validateFilename f = Ok ()" "validateExtension f = Ok e"
  shows "plain_name f"
proof -
  have "f \<noteq> [] \<and> CHR ''/'' \<notin> set f \<and> f \<noteq> ''..''"
    using assms(1) filename_regex_no_slash [of f]
    by (auto simp: validateFilename_ok filenameRegex_def)
  moreover have "f \<noteq> ''.''"
    using assms(2) by (auto simp: validateExtension_def Ext_def)
  ultimately show ?thesis by (simp add: plain_name_def)
qed

lemma parseAssetPath_Some:
  "parseAssetPath path = Some (a, f) \<longleftrightarrow> path = ''/assets/'' @ a @ CHR ''/'' # f \<and> CHR ''/'' \<notin> set a"
proof
  assume "parseAssetPath path = Some (a, f)"
  then obtain rest where rest: "path = ''/assets/'' @ rest" "SplitN2 rest CHR ''/'' = [a, f]"
    by (auto simp: parseAssetPath_def HasPrefix_iff Let_def split: if_splits list.splits)
       (auto simp: TrimPrefix_def)
  with SplitN2_cases [of rest "CHR ''/''"]
  show "path = ''/assets/'' @ a @ CHR ''/'' # f \<and> CHR ''/'' \<notin> set a" by auto
next
  assume "path = ''/assets/'' @ a @ CHR ''/'' # f \<and> CHR ''/'' \<notin> set a"
  then show "parseAssetPath path = Some (a, f)"
    using SplitN2_cut [of "CHR ''/''" a f] TrimPrefix_append [of "''/assets/''" "a @ CHR ''/'' # f"]
      HasPrefix_append [of "''/assets/''" "a @ CHR ''/'' # f"]
    by (simp add: parseAssetPath_def del: append_Cons)
qed

text \<open>The containment check accepts every validated name, wherever the assets root lies.\<close>

lemma ensureWithinRoot_valid:
  assumes "plain_name a" "plain_name f" "Abs wd (Join [p, a]) = Some r"
  shows "ensureWithinRoot wd (Join [p, a]) (Join [Join [p, a], f]) = Ok ()"
    and "Abs wd (Join [Join [p, a], f]) = Some (r @ CHR ''/'' # f)"
proof -
  show abs: "Abs wd (Join [Join [p, a], f]) = Some (r @ CHR ''/'' # f)"
    unfolding Join2_Join2 [OF assms(1,2)]
    using assms Join2_not_Nil Clean_Join2 Join2_elems by (intro Abs_Join2) auto
  show "ensureWithinRoot wd (Join [p, a]) (Join [Join [p, a], f]) = Ok ()"
    using assms(3) abs by (simp add: ensureWithinRoot_def HasPrefix_def)
qed


lemma Abs_with_cwd [simp]: "\<exists>r. Abs (Some w) p = Some r"
  by (simp add: Abs_def)

lemma parseRequest_Ok_iff:
  "parseRequest wd root path = Ok req \<longleftrightarrow>
     (\<exists>a f ext. path = ''/assets/'' @ a @ CHR ''/'' # f \<and> assetIDRegex a \<and>
        validateFilename f = Ok () \<and> validateExtension f = Ok ext \<and>
        ensureWithinRoot wd (Join [root, a]) (Join [Join [root, a], f]) = Ok () \<and>
        req = \<lparr>rq_assetID = a, rq_filename = f, rq_ext = ext, rq_root = Join [root, a],
          rq_target = Join [Join [root, a], f]\<rparr>)" (is "?L \<longleftrightarrow> ?R")
proof
  assume ?L
  then show ?R
    by (auto simp: parseRequest_def Let_def validateAssetID_def parseAssetPath_Some
        split: option.splits sum.splits if_splits prod.splits)
next
  assume ?R
  then obtain a f ext where r: "path = ''/assets/'' @ a @ CHR ''/'' # f" "assetIDRegex a"
    "validateFilename f = Ok ()" "validateExtension f = Ok ext"
    "ensureWithinRoot wd (Join [root, a]) (Join [Join [root, a], f]) = Ok ()"
    "req = \<lparr>rq_assetID = a, rq_filename = f, rq_ext = ext, rq_root = Join [root, a],
          rq_target = Join [Join [root, a], f]\<rparr>" by blast
  have "parseAssetPath path = Some (a, f)"
    using r(1) assetID_plain [OF r(2)] unfolding parseAssetPath_Some by (simp add: plain_name_def)
  moreover have "f \<noteq> []" using r(3) by (auto simp: validateFilename_def)
  ultimately show ?L using r by (simp add: parseRequest_def validateAssetID_def Let_def)
qed

lemma parse_None_form:
  assumes "parseAssetPath path = None"
  shows "\<not> (\<exists>a f. path = ''/assets/'' @ a @ ''/'' @ f)"
proof
  assume "\<exists>a f. path = ''/assets/'' @ a @ ''/'' @ f"
  then obtain a f where p: "path = ''/assets/'' @ a @ CHR ''/'' # f" by auto
  have "CHR ''/'' \<in> set (a @ CHR ''/'' # f)" by simp
  then obtain a' f' where "a @ CHR ''/'' # f = a' @ CHR ''/'' # f'" "CHR ''/'' \<notin> set a'"
    by (blast dest: split_list_first)
  with p have "parseAssetPath path = Some (a', f')" by (simp add: parseAssetPath_Some)
  with assms show False by simp
qed

lemma empty_name_form:
  assumes "path = ''/assets/'' @ a @ CHR ''/'' # f" "CHR ''/'' \<notin> set a"
  shows "(\<exists>b. path = ''/assets/'' @ b @ ''/'' \<and> assetIDRegex b) \<longleftrightarrow> assetIDRegex a \<and> f = []"
proof
  assume "\<exists>b. path = ''/assets/'' @ b @ ''/'' \<and> assetIDRegex b"
  then obtain b where b: "path = ''/assets/'' @ b @ CHR ''/'' # []" "assetIDRegex b" by auto
  have nb: "CHR ''/'' \<notin> set b" using assetID_plain [OF b(2)] by (simp add: plain_name_def)
  have "a @ CHR ''/'' # f = b @ CHR ''/'' # []" using b(1) assms(1) by simp
  from append_sep_inject [OF this assms(2) nb] b(2) show "assetIDRegex a \<and> f = []" by simp
qed (use assms in auto)

section \<open>Properties\<close>

text \<open>C3. A request path that is accepted names exactly one file directly inside its asset's
  directory: the path is \<open>/assets/<id>/<name>\<close> with an identifier that matches the pattern, the
  name holds neither a slash, a backslash nor \<open>..\<close>, the target is the asset root followed by a slash
  and the name, and the absolute target is the absolute root followed by a slash and the name.\<close>

theorem parseRequest_contained:
  assumes "parseRequest wd root path = Ok req"
  shows "path = ''/assets/'' @ rq_assetID req @ ''/'' @ rq_filename req \<and>
         assetIDRegex (rq_assetID req) \<and>
         CHR ''/'' \<notin> set (rq_filename req) \<and> CHR 0x5C \<notin> set (rq_filename req) \<and>
         \<not> Contains (rq_filename req) ''..'' \<and>
         rq_root req = Join [root, rq_assetID req] \<and>
         rq_target req = rq_root req @ ''/'' @ rq_filename req \<and>
         (\<exists>r. Abs wd (rq_root req) = Some r \<and>
              Abs wd (rq_target req) = Some (r @ ''/'' @ rq_filename req))"
proof -
  obtain a f ext where r: "path = ''/assets/'' @ a @ CHR ''/'' # f" "assetIDRegex a"
    "validateFilename f = Ok ()" "validateExtension f = Ok ext"
    "ensureWithinRoot wd (Join [root, a]) (Join [Join [root, a], f]) = Ok ()"
    "req = \<lparr>rq_assetID = a, rq_filename = f, rq_ext = ext, rq_root = Join [root, a],
       rq_target = Join [Join [root, a], f]\<rparr>"
    using assms unfolding parseRequest_Ok_iff by blast
  have plain: "plain_name a" "plain_name f"
    using r assetID_plain validateFilename_plain by auto
  obtain ab where ab: "Abs wd (Join [root, a]) = Some ab"
    using r(5) by (auto simp: ensureWithinRoot_def split: option.splits)
  show ?thesis
    using r ab ensureWithinRoot_valid(2) [OF plain ab] Join2_Join2 [OF plain, of root]
      filename_regex_no_slash [of f] by (auto simp: validateFilename_ok)
qed

theorem parseRequest_contained_witness:
  "let req = \<lparr>rq_assetID = ''a1'', rq_filename = ''seg_0.ts'', rq_ext = ''.ts'',
               rq_root = ''/data/assets/a1'', rq_target = ''/data/assets/a1/seg_0.ts''\<rparr>
   in parseRequest None ''/data/assets'' ''/assets/a1/seg_0.ts'' = Ok req \<and>
      rq_target req = rq_root req @ ''/'' @ rq_filename req \<and>
      (\<exists>r. Abs None (rq_root req) = Some r \<and> Abs None (rq_target req) = Some (r @ ''/seg_0.ts''))"
proof -
  have ok: "parseRequest None ''/data/assets'' ''/assets/a1/seg_0.ts'' =
     Ok \<lparr>rq_assetID = ''a1'', rq_filename = ''seg_0.ts'', rq_ext = ''.ts'',
               rq_root = ''/data/assets/a1'', rq_target = ''/data/assets/a1/seg_0.ts''\<rparr>"
    by code_simp
  have "\<exists>r. Abs None ''/data/assets/a1'' = Some r \<and>
     Abs None ''/data/assets/a1/seg_0.ts'' = Some (r @ ''/seg_0.ts'')"
    using parseRequest_contained [OF ok, THEN conjunct2, THEN conjunct2, THEN conjunct2,
        THEN conjunct2, THEN conjunct2, THEN conjunct2, THEN conjunct2] by simp
  then show ?thesis using ok by simp
qed

text \<open>Acceptance is decided by the names alone: with a working directory, a path is accepted
  exactly when it has the form \<open>/assets/<id>/<name>\<close>, the identifier and the name match their
  patterns, the name has no \<open>..\<close> and its extension is allowed. The containment check never
  refuses what the patterns let through.\<close>

theorem parseRequest_accepts_iff:
  "is_ok (parseRequest (Some w) root path) \<longleftrightarrow>
     (\<exists>a f. path = ''/assets/'' @ a @ ''/'' @ f \<and> assetIDRegex a \<and> filenameRegex f \<and>
            \<not> Contains f ''..'' \<and> is_ok (validateExtension f))" (is "?L \<longleftrightarrow> ?R")
proof
  assume ?L
  then show ?R by (auto simp: is_ok_iff parseRequest_Ok_iff validateFilename_ok)
next
  assume ?R
  then obtain a f ext where r: "path = ''/assets/'' @ a @ CHR ''/'' # f" "assetIDRegex a"
    "validateFilename f = Ok ()" "validateExtension f = Ok ext"
    by (auto simp: is_ok_iff validateFilename_ok)
  then have "plain_name a" "plain_name f" using assetID_plain validateFilename_plain by auto
  then have "ensureWithinRoot (Some w) (Join [root, a]) (Join [Join [root, a], f]) = Ok ()"
    using Abs_with_cwd ensureWithinRoot_valid(1) by blast
  with r show ?L by (auto simp: is_ok_iff parseRequest_Ok_iff)
qed

text \<open>A rejected path is answered with 404 when it does not have the form
  \<open>/assets/<id>/<rest>\<close>, or when the identifier is valid and the rest is empty, and with 400 in every
  other case.\<close>

theorem parseRequest_error_status:
  assumes "parseRequest wd root path = Err (status, e)"
  shows "status = (if (\<exists>a. path = ''/assets/'' @ a @ ''/'' \<and> assetIDRegex a) \<or>
                      \<not> (\<exists>a f. path = ''/assets/'' @ a @ ''/'' @ f)
                   then 404 else 400)"
proof (cases "parseAssetPath path")
  case None
  with assms parse_None_form show ?thesis by (auto simp: parseRequest_def)
next
  case (Some af)
  obtain a f where af: "af = (a, f)" by (cases af)
  then have path: "path = ''/assets/'' @ a @ CHR ''/'' # f" "CHR ''/'' \<notin> set a"
    using Some parseAssetPath_Some by auto
  have form: "\<exists>a f. path = ''/assets/'' @ a @ ''/'' @ f" using path by auto
  have e: "status = (if assetIDRegex a \<and> f = [] then 404 else 400)"
    using assms Some af
    by (simp add: parseRequest_def Let_def validateAssetID_def split: sum.splits if_splits)
  show ?thesis unfolding e using form empty_name_form [OF path] by simp
qed

theorem parseRequest_error_status_witness:
  "parseRequest None ''/d'' ''/assets/a1/../x.ts'' = Err (400, ''invalid filename'') \<and>
   (400::int) = (if (\<exists>a. ''/assets/a1/../x.ts'' = ''/assets/'' @ a @ ''/'' \<and> assetIDRegex a) \<or>
                      \<not> (\<exists>a f. ''/assets/a1/../x.ts'' = ''/assets/'' @ a @ ''/'' @ f)
                   then 404 else 400)"
proof -
  have e: "parseRequest None ''/d'' ''/assets/a1/../x.ts'' = Err (400, ''invalid filename'')"
    by code_simp
  show ?thesis using e parseRequest_error_status [OF e] by blast
qed

end
