(* ===== verification/Fs_Secure.thy ===== *)
theory Fs_Secure
  imports Go_Path
begin

text \<open>
  Package \<open>fssecure\<close>: opening a file without following symbolic links, and the audit of a directory
  tree. The file system is the environment: a snapshot answers \<open>lstat\<close>, \<open>open\<close> and \<open>readdir\<close> by
  path. The three system calls of \<open>OpenFileNoSymlinks\<close> run on three snapshots, so another process
  may change the tree between any two of them. A \<open>FileInfo\<close> carries the identity that
  \<open>os.SameFile\<close> compares.
\<close>

section \<open>The file system as the process sees it\<close>

datatype oserr = NotExist | PermissionDenied | OtherOSError

datatype fmode = Regular | Directory | Symlink | Irregular

record FileInfo =
  fi_mode :: fmode
  fi_size :: int
  fi_modtime :: int
  fi_id :: nat

record osfile =
  fl_stat :: "(oserr, FileInfo) result"
  fl_content :: string

record fs =
  fs_lstat :: "string \<Rightarrow> (oserr, FileInfo) result"
  fs_open :: "string \<Rightarrow> (oserr, osfile) result"

section \<open>Opening without symlinks\<close>

datatype fserr = OsErr oserr | ErrSymlink | ErrInvalidFilename | ErrNotRegular

definition IsSymlink :: "FileInfo option \<Rightarrow> bool" where
  "IsSymlink fi = (case fi of None \<Rightarrow> False | Some i \<Rightarrow> fi_mode i = Symlink)"

definition SameFile :: "FileInfo \<Rightarrow> FileInfo \<Rightarrow> bool" where
  "SameFile a b \<longleftrightarrow> fi_id a = fi_id b"

definition OpenFileNoSymlinks ::
  "fs \<Rightarrow> fs \<Rightarrow> fs \<Rightarrow> string \<Rightarrow> string \<Rightarrow> (fserr, osfile \<times> FileInfo) result" where
  "OpenFileNoSymlinks fs0 fs1 fs2 rootDir filename =
     (if filename = [] \<or> filename \<noteq> Base filename \<or> Contains filename ''/'' \<or>
         Contains filename [CHR 0x5C]
      then Err ErrInvalidFilename
      else case fs_lstat fs0 rootDir of
        Inl e \<Rightarrow> Err (OsErr e)
      | Inr rootInfo \<Rightarrow>
          if IsSymlink (Some rootInfo) then Err ErrSymlink
          else if fi_mode rootInfo \<noteq> Directory then Err ErrNotRegular
          else let targetPath = Join [rootDir, filename]
               in case fs_lstat fs1 targetPath of
                    Inl e \<Rightarrow> Err (OsErr e)
                  | Inr targetInfo \<Rightarrow>
                      if IsSymlink (Some targetInfo) then Err ErrSymlink
                      else if fi_mode targetInfo \<noteq> Regular then Err ErrNotRegular
                      else case fs_open fs2 targetPath of
                        Inl e \<Rightarrow> Err (OsErr e)
                      | Inr f \<Rightarrow>
                          (case fl_stat f of
                             Inl e \<Rightarrow> Err (OsErr e)
                           | Inr info \<Rightarrow>
                               if fi_mode info \<noteq> Regular then Err ErrNotRegular
                               else if \<not> SameFile targetInfo info then Err ErrSymlink
                               else Ok (f, info)))"

section \<open>The symlink audit\<close>

text \<open>
  The tree that \<open>filepath.WalkDir\<close> visits: a leaf that is not a directory, or a directory with its
  entries and the error of reading them, if any.
\<close>

datatype dnode = Leaf string fmode | Branch string "dnode list" "oserr option"

datatype audit_stop = FoundSymlink | WalkErr oserr

fun audit_node :: "dnode \<Rightarrow> audit_stop option" and audit_list :: "dnode list \<Rightarrow> audit_stop option" where
  "audit_node (Leaf n m) = (if m = Symlink then Some FoundSymlink else None)"
| "audit_node (Branch n cs err) = (case err of Some e \<Rightarrow> Some (WalkErr e) | None \<Rightarrow> audit_list cs)"
| "audit_list [] = None"
| "audit_list (c # cs) = (case audit_node c of Some s \<Rightarrow> Some s | None \<Rightarrow> audit_list cs)"

definition AuditNoSymlinks :: "(oserr, dnode) result \<Rightarrow> (oserr, bool) result" where
  "AuditNoSymlinks root =
     (case root of
        Inl e \<Rightarrow> Err e
      | Inr t \<Rightarrow> (case audit_node t of
            None \<Rightarrow> Ok False
          | Some FoundSymlink \<Rightarrow> Ok True
          | Some (WalkErr e) \<Rightarrow> Err e))"

fun has_symlink :: "dnode \<Rightarrow> bool" where
  "has_symlink (Leaf n m) = (m = Symlink)"
| "has_symlink (Branch n cs err) = (\<exists>c \<in> set cs. has_symlink c)"

fun unreadable :: "dnode \<Rightarrow> bool" where
  "unreadable (Leaf n m) = False"
| "unreadable (Branch n cs err) = (err \<noteq> None \<or> (\<exists>c \<in> set cs. unreadable c))"

lemma audit_sound:
  "audit_node t = r \<Longrightarrow>
     (r = None \<longrightarrow> \<not> has_symlink t \<and> \<not> unreadable t) \<and> (r = Some FoundSymlink \<longrightarrow> has_symlink t) \<and>
     (\<forall>e. r = Some (WalkErr e) \<longrightarrow> unreadable t)"
  and audit_list_sound:
  "audit_list ts = r \<Longrightarrow>
     (r = None \<longrightarrow> (\<forall>t \<in> set ts. \<not> has_symlink t \<and> \<not> unreadable t)) \<and>
     (r = Some FoundSymlink \<longrightarrow> (\<exists>t \<in> set ts. has_symlink t)) \<and>
     (\<forall>e. r = Some (WalkErr e) \<longrightarrow> (\<exists>t \<in> set ts. unreadable t))"
  by (induction t and ts arbitrary: r and r rule: audit_node_audit_list.induct)
     (auto split: option.splits if_splits)

section \<open>Properties\<close>

lemma OpenFileNoSymlinks_Ok:
  assumes "OpenFileNoSymlinks fs0 fs1 fs2 rootDir filename = Ok (f, info)"
  obtains ri ti where "filename \<noteq> []" "CHR ''/'' \<notin> set filename"
    "fs_lstat fs0 rootDir = Ok ri" "fi_mode ri = Directory"
    "fs_lstat fs1 (Join [rootDir, filename]) = Ok ti" "fi_mode ti = Regular"
    "fs_open fs2 (Join [rootDir, filename]) = Ok f" "fl_stat f = Ok info"
    "fi_mode info = Regular" "fi_id ti = fi_id info"
  using assms
  by (auto simp: OpenFileNoSymlinks_def Let_def IsSymlink_def SameFile_def
      split: if_splits sum.splits)

text \<open>
  What a client of the package relies on (interface between \<open>fssecure\<close> and the asset handler): an opened
  file is regular, its information is that of the open handle, and the handle belongs to the entry of that name in the
  directory.
\<close>

locale safe_opener =
  fixes open_file :: "string \<Rightarrow> string \<Rightarrow> (fserr, osfile \<times> FileInfo) result"
    and entry_at :: "string \<Rightarrow> osfile \<Rightarrow> bool"
  assumes opened_regular: "open_file d n = Ok (f, i) \<Longrightarrow> fl_stat f = Ok i \<and> fi_mode i = Regular"
    and opened_entry: "open_file d n = Ok (f, i) \<Longrightarrow> entry_at (Join [d, n]) f"
    and opened_name: "open_file d n = Ok (f, i) \<Longrightarrow> n \<noteq> [] \<and> CHR ''/'' \<notin> set n"
begin

lemma opened_facts:
  "open_file d n = Ok (f, i) \<Longrightarrow>
     entry_at (Join [d, n]) f \<and> fl_stat f = Ok i \<and> fi_mode i = Regular \<and> n \<noteq> [] \<and> CHR ''/'' \<notin> set n"
  using opened_regular opened_entry opened_name by blast

end

definition regular_entry :: "fs \<Rightarrow> fs \<Rightarrow> string \<Rightarrow> osfile \<Rightarrow> bool" where
  "regular_entry fs1 fs2 p f \<longleftrightarrow>
     (\<exists>ti info. fs_lstat fs1 p = Ok ti \<and> fi_mode ti = Regular \<and> fs_open fs2 p = Ok f \<and>
        fl_stat f = Ok info \<and> fi_id info = fi_id ti)"

interpretation opener: safe_opener "OpenFileNoSymlinks fs0 fs1 fs2" "regular_entry fs1 fs2" for fs0 fs1 fs2
  by unfold_locales (auto elim!: OpenFileNoSymlinks_Ok simp: regular_entry_def)

text \<open>C13. Whatever another process does to the tree between the system calls, a file that
  \<open>OpenFileNoSymlinks\<close> returns is the very file that \<open>lstat\<close> saw as a regular file, not a link, at
  the joined path: the opened handle has the same identity, is regular, and the root was a real
  directory when it was looked at.\<close>

theorem open_no_symlink_race:
  assumes "OpenFileNoSymlinks fs0 fs1 fs2 rootDir filename = Ok (f, info)"
  shows "\<exists>ri ti. fs_lstat fs0 rootDir = Ok ri \<and> fi_mode ri = Directory \<and>
           fs_lstat fs1 (Join [rootDir, filename]) = Ok ti \<and> fi_mode ti = Regular \<and>
           fs_open fs2 (Join [rootDir, filename]) = Ok f \<and> fl_stat f = Ok info \<and>
           fi_mode info = Regular \<and> fi_id info = fi_id ti"
  using assms by (elim OpenFileNoSymlinks_Ok) auto

text \<open>The audit answers \<open>false\<close> only for a tree that it could read in full and that holds no
  symbolic link at any depth, \<open>true\<close> only when there is a link, and an error only when a directory
  could not be read.\<close>

theorem audit_decides:
  "(AuditNoSymlinks (Ok t) = Ok False \<longleftrightarrow> \<not> has_symlink t \<and> \<not> unreadable t) \<and>
   (AuditNoSymlinks (Ok t) = Ok True \<longrightarrow> has_symlink t) \<and>
   (\<forall>e. AuditNoSymlinks (Ok t) = Err e \<longrightarrow> unreadable t) \<and>
   (\<not> unreadable t \<longrightarrow> AuditNoSymlinks (Ok t) = Ok (has_symlink t))"
  using audit_sound [OF refl, of t]
  by (auto simp: AuditNoSymlinks_def split: option.splits audit_stop.splits)

section \<open>A concrete tree\<close>

definition demo_info :: FileInfo where
  "demo_info = \<lparr>fi_mode = Regular, fi_size = 3, fi_modtime = 0, fi_id = 7\<rparr>"

definition demo_fs :: fs where
  "demo_fs =
     \<lparr>fs_lstat = (\<lambda>p. if p = ''/d/a1'' then Ok (demo_info\<lparr>fi_mode := Directory, fi_id := 1\<rparr>)
                     else if p = ''/d/a1/s.ts'' then Ok demo_info else Err NotExist),
      fs_open = (\<lambda>p. if p = ''/d/a1/s.ts'' then Ok \<lparr>fl_stat = Ok demo_info, fl_content = ''abc''\<rparr>
                    else Err NotExist)\<rparr>"

lemma demo_open:
  "OpenFileNoSymlinks demo_fs demo_fs demo_fs ''/d/a1'' ''s.ts'' =
     Ok (\<lparr>fl_stat = Ok demo_info, fl_content = ''abc''\<rparr>, demo_info)"
proof -
  have j: "Join [''/d/a1'', ''s.ts''] = ''/d/a1/s.ts''" and b: "Base ''s.ts'' = ''s.ts''"
    by code_simp+
  show ?thesis
    by (simp add: OpenFileNoSymlinks_def j b demo_fs_def demo_info_def IsSymlink_def SameFile_def)
qed

theorem open_no_symlink_race_witness:
  "\<exists>ri ti. fs_lstat demo_fs ''/d/a1'' = Ok ri \<and> fi_mode ri = Directory \<and>
     fs_lstat demo_fs (Join [''/d/a1'', ''s.ts'']) = Ok ti \<and> fi_mode ti = Regular \<and>
     fi_id demo_info = fi_id ti"
  using open_no_symlink_race [OF demo_open] by blast

theorem audit_decides_witness:
  "AuditNoSymlinks (Ok (Branch ''r'' [Leaf ''a'' Regular, Branch ''d'' [Leaf ''l'' Symlink] None] None)) =
     Ok True"
  using audit_decides [of "Branch ''r'' [Leaf ''a'' Regular, Branch ''d'' [Leaf ''l'' Symlink] None] None"]
  by simp

end
