(* ===== verification/Scanner.thy ===== *)
theory Scanner
  imports Assets_Request Fs_Secure Metrics "HOL-Library.Multiset"
begin

text \<open>
  Package \<open>scanner\<close>. The directory tree is the environment: the entries of the assets root and of each
  asset directory with the results of \<open>lstat\<close> and \<open>Info\<close>, the clock, whether the context is cancelled when the loop
  looks at it, and SHA-256. \<open>os.ReadDir\<close> returns entries sorted by name. \<open>sort.Slice\<close> is the sort by key:
  names within a directory differ, so stability does not matter.
\<close>

record dir_entry =
  de_name :: string
  de_type :: fmode
  de_info :: "(oserr, FileInfo) result"

record scan_env =
  se_mkdir :: "oserr option"
  se_root :: "(oserr, dir_entry list) result"
  se_lstat :: "string \<Rightarrow> (oserr, FileInfo) result"
  se_readDir :: "string \<Rightarrow> (oserr, dir_entry list) result"
  se_cancelled :: "string \<Rightarrow> bool"
  se_now :: "string \<Rightarrow> int"
  se_elapsed :: int
  se_sha256 :: "string \<Rightarrow> string"

record Asset =
  as_AssetID :: string
  as_MasterPlaylistPath :: string
  as_ContentHash :: string
  as_FileCount :: int
  as_TotalSizeBytes :: int
  as_LastScannedAt :: int

record ScanResult =
  sr_Assets :: "Asset list"
  sr_ScannedAssets :: int
  sr_Duration :: int

record fileMeta =
  fm_name :: string
  fm_size :: int
  fm_modUnix :: int

datatype scan_error = EnsureRoot oserr | ReadRoot oserr | Cancelled
  | LstatAssetDir string oserr | ReadAssetDir string oserr | StatFile string string oserr

section \<open>Files\<close>

definition isAllowedInitMP4 :: "string \<Rightarrow> bool" where
  "isAllowedInitMP4 name =
     (let lower = ToLower name
      in lower = ''init.mp4'' \<or>
         HasPrefix lower ''init-'' \<and> HasSuffix lower ''.mp4'' \<and> length ''init-.mp4'' < length lower)"

definition isAllowedFile :: "string \<Rightarrow> string \<Rightarrow> bool" where
  "isAllowedFile name ext =
     (if ext \<in> set [''.m3u8'', ''.ts'', ''.m4s''] then True
      else if ext = ''.mp4'' then isAllowedInitMP4 name else False)"

definition hash_line :: "fileMeta \<Rightarrow> string" where
  "hash_line f = fm_name f @ ''|'' @ FormatInt (fm_size f) @ ''|'' @ FormatInt (fm_modUnix f) @ [CHR 0x0A]"

definition hash_input :: "fileMeta list \<Rightarrow> string" where
  "hash_input files = concat (map hash_line (sort_key fm_name files))"

definition computeContentHash :: "(string \<Rightarrow> string) \<Rightarrow> fileMeta list \<Rightarrow> string" where
  "computeContentHash sha256 files = hex_EncodeToString (sha256 (hash_input files))"

section \<open>One asset directory\<close>

record dir_acc =
  da_hasMaster :: bool
  da_hasPlayable :: bool
  da_files :: "fileMeta list"
  da_totalSize :: int

text \<open>The loop over the entries: \<open>Ok None\<close> is the early return of a directory with a symbolic link.\<close>

fun scan_entries :: "string \<Rightarrow> dir_entry list \<Rightarrow> dir_acc \<Rightarrow> (scan_error, dir_acc option) result" where
  "scan_entries assetID [] acc = Ok (Some acc)"
| "scan_entries assetID (e # es) acc =
     (let name = de_name e; ext = ToLower (Ext name)
      in if de_type e = Symlink then Ok None
         else if de_type e = Directory then scan_entries assetID es acc
         else if \<not> isAllowedFile name ext then scan_entries assetID es acc
         else case de_info e of
           Inl err \<Rightarrow> Err (StatFile name assetID err)
         | Inr info \<Rightarrow>
             scan_entries assetID es
               \<lparr>da_hasMaster = (EqualFold name ''master.m3u8'' \<or> da_hasMaster acc),
                da_hasPlayable = (ext = ''.ts'' \<or> ext = ''.m4s'' \<or> isAllowedInitMP4 name \<or> da_hasPlayable acc),
                da_files = da_files acc @ [\<lparr>fm_name = name, fm_size = fi_size info, fm_modUnix = fi_modtime info\<rparr>],
                da_totalSize = int64 (da_totalSize acc + fi_size info)\<rparr>)"

definition scanAssetDir :: "scan_env \<Rightarrow> string \<Rightarrow> string \<Rightarrow> (scan_error, Asset option) result" where
  "scanAssetDir env assetsRoot assetID =
     (let assetDir = Join [assetsRoot, assetID]
      in case se_lstat env assetDir of
        Inl err \<Rightarrow> Err (LstatAssetDir assetID err)
      | Inr info \<Rightarrow>
          if IsSymlink (Some info) then Ok None
          else case se_readDir env assetDir of
            Inl err \<Rightarrow> Err (ReadAssetDir assetID err)
          | Inr entries \<Rightarrow>
              (case scan_entries assetID entries \<lparr>da_hasMaster = False, da_hasPlayable = False, da_files = [], da_totalSize = 0\<rparr> of
                 Inl err \<Rightarrow> Err err
               | Inr None \<Rightarrow> Ok None
               | Inr (Some acc) \<Rightarrow>
                   if \<not> da_hasMaster acc \<or> \<not> da_hasPlayable acc then Ok None
                   else Ok (Some
                     \<lparr>as_AssetID = assetID, as_MasterPlaylistPath = Join [assetID, ''master.m3u8''],
                      as_ContentHash = computeContentHash (se_sha256 env) (da_files acc),
                      as_FileCount = int (length (da_files acc)), as_TotalSizeBytes = da_totalSize acc,
                      as_LastScannedAt = se_now env assetID\<rparr>)))"

section \<open>The scan\<close>

fun scan_root :: "scan_env \<Rightarrow> string \<Rightarrow> dir_entry list \<Rightarrow> Asset list \<Rightarrow> (scan_error, Asset list) result" where
  "scan_root env assetsRoot [] assets = Ok assets"
| "scan_root env assetsRoot (e # es) assets =
     (if se_cancelled env (de_name e) then Err Cancelled
      else if de_type e = Symlink then scan_root env assetsRoot es assets
      else if de_type e \<noteq> Directory then scan_root env assetsRoot es assets
      else if \<not> assetIDRegex (de_name e) then scan_root env assetsRoot es assets
      else case scanAssetDir env assetsRoot (de_name e) of
        Inl err \<Rightarrow> Err err
      | Inr None \<Rightarrow> scan_root env assetsRoot es assets
      | Inr (Some asset) \<Rightarrow> scan_root env assetsRoot es (assets @ [asset]))"

definition Scan :: "scan_env \<Rightarrow> string \<Rightarrow> metrics \<Rightarrow> (scan_error, ScanResult) result \<times> metrics" where
  "Scan env assetsRoot m =
     (let result =
        (case se_mkdir env of
           Some err \<Rightarrow> Err (EnsureRoot err)
         | None \<Rightarrow>
             (case se_root env of
                Inl err \<Rightarrow> Err (ReadRoot err)
              | Inr entries \<Rightarrow>
                  (case scan_root env assetsRoot entries [] of
                     Inl err \<Rightarrow> Err err
                   | Inr assets \<Rightarrow> Ok \<lparr>sr_Assets = sort_key as_AssetID assets,
                       sr_ScannedAssets = int (length assets), sr_Duration = se_elapsed env\<rparr>)))
      in (result, ObserveScan (if is_ok result then ''ok'' else ''error'') (se_elapsed env) m))"

section \<open>What a scan finds\<close>

definition media :: "dir_entry \<Rightarrow> bool" where
  "media e \<longleftrightarrow> de_type e \<noteq> Directory \<and> isAllowedFile (de_name e) (ToLower (Ext (de_name e)))"

definition playable :: "dir_entry \<Rightarrow> bool" where
  "playable e \<longleftrightarrow> ToLower (Ext (de_name e)) \<in> {''.ts'', ''.m4s''} \<or> isAllowedInitMP4 (de_name e)"

text \<open>A directory that is published: a real directory without links, with a master playlist and something to play.\<close>

definition publishable :: "scan_env \<Rightarrow> string \<Rightarrow> string \<Rightarrow> bool" where
  "publishable env assetsRoot assetID \<longleftrightarrow>
     (\<exists>info entries. se_lstat env (Join [assetsRoot, assetID]) = Ok info \<and> fi_mode info \<noteq> Symlink \<and>
        se_readDir env (Join [assetsRoot, assetID]) = Ok entries \<and> (\<forall>e \<in> set entries. de_type e \<noteq> Symlink) \<and>
        (\<exists>e \<in> set entries. media e \<and> EqualFold (de_name e) ''master.m3u8'') \<and>
        (\<exists>e \<in> set entries. media e \<and> playable e))"

lemma scan_entries_None: "scan_entries a es acc = Ok None \<Longrightarrow> \<exists>e \<in> set es. de_type e = Symlink"
  by (induction es arbitrary: acc) (auto simp: Let_def split: if_splits sum.splits)

lemma scan_entries_Some:
  "scan_entries a es acc = Ok (Some acc') \<Longrightarrow>
     (\<forall>e \<in> set es. de_type e \<noteq> Symlink) \<and>
     da_hasMaster acc' = (da_hasMaster acc \<or> (\<exists>e \<in> set es. media e \<and> EqualFold (de_name e) ''master.m3u8'')) \<and>
     da_hasPlayable acc' = (da_hasPlayable acc \<or> (\<exists>e \<in> set es. media e \<and> playable e)) \<and>
     map fm_name (da_files acc') = map fm_name (da_files acc) @ map de_name (filter media es)"
proof (induction es arbitrary: acc)
  case (Cons e es)
  have link: "de_type e \<noteq> Symlink" using Cons.prems by (auto simp: Let_def split: if_splits)
  show ?case
  proof (cases "media e")
    case True
    then obtain info where info: "de_info e = Ok info"
      using Cons.prems link by (auto simp: Let_def media_def split: sum.splits)
    define acc1 where "acc1 =
      \<lparr>da_hasMaster = (EqualFold (de_name e) ''master.m3u8'' \<or> da_hasMaster acc),
       da_hasPlayable = (playable e \<or> da_hasPlayable acc),
       da_files = da_files acc @ [\<lparr>fm_name = de_name e, fm_size = fi_size info, fm_modUnix = fi_modtime info\<rparr>],
       da_totalSize = int64 (da_totalSize acc + fi_size info)\<rparr>"
    have "scan_entries a es acc1 = Ok (Some acc')"
      using Cons.prems True link info by (simp add: Let_def media_def playable_def acc1_def)
    from Cons.IH [OF this] show ?thesis using True link by (auto simp: acc1_def)
  next
    case False
    then have "scan_entries a es acc = Ok (Some acc')"
      using Cons.prems link by (simp add: Let_def media_def split: if_splits)
    from Cons.IH [OF this] show ?thesis using False link by auto
  qed
qed simp

lemma scanAssetDir_Some:
  "scanAssetDir env root a = Ok (Some asset) \<Longrightarrow> publishable env root a \<and> as_AssetID asset = a"
  by (auto simp: scanAssetDir_def publishable_def IsSymlink_def Let_def
      split: sum.splits if_splits option.splits dest!: scan_entries_Some)

lemma scanAssetDir_None: "scanAssetDir env root a = Ok None \<Longrightarrow> \<not> publishable env root a"
  by (auto simp: scanAssetDir_def publishable_def IsSymlink_def Let_def
      split: sum.splits if_splits option.splits dest!: scan_entries_Some scan_entries_None)

definition candidate :: "dir_entry \<Rightarrow> bool" where
  "candidate e \<longleftrightarrow> de_type e = Directory \<and> assetIDRegex (de_name e)"

lemma scan_root_ids:
  "scan_root env root es assets = Ok assets' \<Longrightarrow>
     map as_AssetID assets' = map as_AssetID assets @
       map de_name (filter (\<lambda>e. candidate e \<and> publishable env root (de_name e)) es)"
proof (induction es arbitrary: assets)
  case (Cons e es)
  then show ?case
    by (auto simp: candidate_def split: if_splits sum.splits option.splits
        dest!: scanAssetDir_Some scanAssetDir_None)
qed simp

section \<open>The content hash\<close>

lemma FormatInt_plain: "CHR ''|'' \<notin> set (FormatInt n)" "CHR 0x0A \<notin> set (FormatInt n)"
  using FormatInt_chars [of "CHR ''|''" n] FormatInt_chars [of "CHR 0x0A" n]
  by (auto simp: is_digit_def less_eq_char_def)

lemma hash_line_inject: "hash_line f = hash_line g \<Longrightarrow> f = g"
proof -
  assume "hash_line f = hash_line g"
  then have "(fm_name f @ CHR ''|'' # FormatInt (fm_size f)) @ CHR ''|'' # FormatInt (fm_modUnix f) =
      (fm_name g @ CHR ''|'' # FormatInt (fm_size g)) @ CHR ''|'' # FormatInt (fm_modUnix g)"
    by (simp add: hash_line_def)
  then have "FormatInt (fm_modUnix f) = FormatInt (fm_modUnix g)"
    and "fm_name f @ CHR ''|'' # FormatInt (fm_size f) = fm_name g @ CHR ''|'' # FormatInt (fm_size g)"
    using append_sep_inject_last FormatInt_plain(1) by metis+
  then show "f = g"
    using append_sep_inject_last FormatInt_plain(1) FormatInt_inject by (metis fileMeta.equality old.unit.exhaust)
qed

lemma concat_hash_line_inject:
  assumes "concat (map hash_line fs) = concat (map hash_line gs)"
    and "\<forall>f \<in> set fs \<union> set gs. CHR 0x0A \<notin> set (fm_name f)"
  shows "fs = gs"
  using assms
proof (induction fs arbitrary: gs)
  case Nil
  then show ?case by (cases gs) (auto simp: hash_line_def)
next
  case (Cons f fs)
  then obtain g gs' where gs: "gs = g # gs'" by (cases gs) (auto simp: hash_line_def)
  define b where "b = (\<lambda>f :: fileMeta. fm_name f @ ''|'' @ FormatInt (fm_size f) @ ''|'' @ FormatInt (fm_modUnix f))"
  have line: "hash_line f = b f @ [CHR 0x0A]" for f by (simp add: hash_line_def b_def)
  have free: "CHR 0x0A \<notin> set (b f)" "CHR 0x0A \<notin> set (b g)"
    using Cons.prems(2) gs FormatInt_plain(2) by (auto simp: b_def)
  have "b f @ CHR 0x0A # concat (map hash_line fs) = b g @ CHR 0x0A # concat (map hash_line gs')"
    using Cons.prems(1) line [of f] line [of g] by (simp add: gs)
  then have "b f = b g" "concat (map hash_line fs) = concat (map hash_line gs')"
    using append_sep_inject [OF _ free] by auto
  then show ?case using Cons.IH [of gs'] Cons.prems(2) hash_line_inject [of f g] gs line [of f] line [of g] by auto
qed

lemma sort_key_mset_eq:
  assumes "mset fs = mset gs" "distinct (map fm_name fs)"
  shows "sort_key fm_name fs = sort_key fm_name gs"
  using assms sort_key_inj_key_eq [of fs "sort_key fm_name gs" fm_name] by (simp add: distinct_map)

section \<open>Allowed names\<close>

lemma ToLower_dot: "ToLower (a @ CHR ''.'' # b) = ToLower a @ CHR ''.'' # ToLower b"
proof (induction a rule: ToLower.induct)
  case 1
  have "ascii_lower (CHR ''.'') = CHR ''.''" by code_simp
  then show ?case by simp
next
  case (2 c s)
  have "HasPrefix (c # s @ CHR ''.'' # b) [CHR 0xE2, CHR 0x84, CHR 0xAA] = HasPrefix (c # s) [CHR 0xE2, CHR 0x84, CHR 0xAA]"
    "HasPrefix (c # s @ CHR ''.'' # b) [CHR 0xC4, CHR 0xB0] = HasPrefix (c # s) [CHR 0xC4, CHR 0xB0]"
    by (auto simp: HasPrefix_def take_Cons' split: list.splits if_splits) (cases s; cases "tl s"; auto)+
  moreover have "HasPrefix (c # s) [CHR 0xE2, CHR 0x84, CHR 0xAA] \<Longrightarrow> 2 \<le> length s"
    "HasPrefix (c # s) [CHR 0xC4, CHR 0xB0] \<Longrightarrow> 1 \<le> length s"
    by (auto simp: HasPrefix_iff)
  ultimately show ?case using 2 by (auto simp: HasPrefix_def)
qed

lemma Ext_split: "Ext p = [] \<or> (\<exists>a b. p = a @ CHR ''.'' # b \<and> Ext p = CHR ''.'' # b)"
proof -
  define tail where "tail = takeWhile (\<lambda>c. c \<noteq> CHR ''.'' \<and> c \<noteq> CHR ''/'') (rev p)"
  have rp: "rev p = tail @ drop (length tail) (rev p)"
    unfolding tail_def by (metis dropWhile_eq_drop takeWhile_dropWhile_id)
  show ?thesis
  proof (cases "drop (length tail) (rev p)")
    case (Cons c r)
    then have "p = rev r @ c # rev tail" using rp by (metis append.assoc append_Cons append_Nil rev.simps(2) rev_append rev_rev_ident)
    then show ?thesis using Cons by (auto simp: Ext_def tail_def Let_def)
  qed (simp add: Ext_def tail_def)
qed

lemma ToLower_Ext_suffix: "ToLower (Ext p) = ''.mp4'' \<Longrightarrow> HasSuffix (ToLower p) ''.mp4''"
  using Ext_split [of p] ToLower_dot [of "[]"] by (auto simp: ToLower_dot HasSuffix_iff)

lemma Base_plain: "p \<noteq> [] \<Longrightarrow> CHR ''/'' \<notin> set p \<Longrightarrow> Base p = p"
proof -
  assume p: "p \<noteq> []" "CHR ''/'' \<notin> set p"
  then have "dropWhile (\<lambda>c. c \<in> set ''/'') (rev p) = rev p" by (simp add: dropWhile_eq_self_iff) (metis hd_in_set rev_is_Nil_conv set_rev)
  then have trim: "TrimRight p ''/'' = p" by (simp add: TrimRight_def)
  have whole: "takeWhile (\<lambda>c. c \<noteq> CHR ''/'') (rev p) = rev p" by (subst takeWhile_eq_all_conv) (use p(2) in auto)
  show ?thesis unfolding Base_def Let_def trim whole using p(1) by simp
qed

lemma scan_result:
  assumes "Scan env root m = (Ok res, m')" "se_root env = Ok entries" "distinct (map de_name entries)"
  shows "sorted_wrt (<) (map as_AssetID (sr_Assets res)) \<and>
     set (map as_AssetID (sr_Assets res)) =
       {de_name e | e. e \<in> set entries \<and> de_type e = Directory \<and> assetIDRegex (de_name e) \<and>
          publishable env root (de_name e)} \<and>
     sr_ScannedAssets res = int (length (sr_Assets res))"
proof -
  obtain assets where sr: "scan_root env root entries [] = Ok assets"
    and res: "res = \<lparr>sr_Assets = sort_key as_AssetID assets, sr_ScannedAssets = int (length assets), sr_Duration = se_elapsed env\<rparr>"
    using assms(1,2) by (auto simp: Scan_def Let_def split: option.splits sum.splits)
  have ids: "map as_AssetID assets = map de_name (filter (\<lambda>e. candidate e \<and> publishable env root (de_name e)) entries)"
    using scan_root_ids [OF sr] by simp
  then have "distinct (map as_AssetID assets)" using assms(3) by (simp add: distinct_map_filter)
  then have "distinct (map as_AssetID (sort_key as_AssetID assets))" by (simp add: distinct_map)
  moreover have "set (map as_AssetID (sort_key as_AssetID assets)) =
      de_name ` {e \<in> set entries. candidate e \<and> publishable env root (de_name e)}"
    using arg_cong [OF ids, of set] by simp
  ultimately show ?thesis
    by (auto simp: res strict_sorted_iff candidate_def)
qed

section \<open>Properties\<close>

text \<open>C12. A successful scan returns, in strictly increasing order of identifier, exactly the
  publishable assets: the real subdirectories of the root with a valid identifier that hold no
  symbolic link, a master playlist and at least one playable file.\<close>

theorem scan_exact:
  assumes "Scan env root m = (Ok res, m')" "se_root env = Ok entries" "distinct (map de_name entries)"
  shows "sorted_wrt (<) (map as_AssetID (sr_Assets res)) \<and>
     set (map as_AssetID (sr_Assets res)) =
       {de_name e | e. e \<in> set entries \<and> de_type e = Directory \<and> assetIDRegex (de_name e) \<and>
          publishable env root (de_name e)} \<and>
     sr_ScannedAssets res = int (length (sr_Assets res))"
  using scan_result [OF assms] .

text \<open>The content hash covers exactly the set of files: for directories whose names hold no line feed,
  two file lists give the same text to hash if and only if they hold the same names with the same sizes and modification
  times, in any order.\<close>

theorem content_hash_input_exact:
  assumes "distinct (map fm_name fs)"
    and "list_all (\<lambda>f. CHR 0x0A \<notin> set (fm_name f)) fs" "list_all (\<lambda>f. CHR 0x0A \<notin> set (fm_name f)) gs"
  shows "hash_input fs = hash_input gs \<longleftrightarrow> mset fs = mset gs"
proof
  assume "hash_input fs = hash_input gs"
  then have "sort_key fm_name fs = sort_key fm_name gs"
    unfolding hash_input_def using assms(2,3) by (intro concat_hash_line_inject) (auto simp: list_all_iff)
  then show "mset fs = mset gs" by (metis mset_sort)
qed (simp add: hash_input_def sort_key_mset_eq assms(1))

text \<open>The scanner and the asset handler agree on names: for a name without a slash the
  scanner counts the file exactly when the handler's extension check would serve it.\<close>

theorem scanner_handler_agree:
  assumes "name \<noteq> []" "CHR ''/'' \<notin> set name"
  shows "isAllowedFile name (ToLower (Ext name)) \<longleftrightarrow> is_ok (validateExtension name)"
  using assms ToLower_Ext_suffix [of name]
  by (auto simp: isAllowedFile_def validateExtension_def isAllowedInitMP4_def Base_plain Let_def)

section \<open>A concrete directory\<close>

definition demo_entry :: "string \<Rightarrow> dir_entry" where
  "demo_entry n = \<lparr>de_name = n, de_type = Regular, de_info = Ok demo_info\<rparr>"

definition demo_scan :: scan_env where
  "demo_scan = \<lparr>se_mkdir = None,
     se_root = Ok [\<lparr>de_name = ''a1'', de_type = Directory, de_info = Err NotExist\<rparr>,
                   \<lparr>de_name = ''b2'', de_type = Directory, de_info = Err NotExist\<rparr>,
                   \<lparr>de_name = ''c'', de_type = Symlink, de_info = Err NotExist\<rparr>],
     se_lstat = (\<lambda>p. Ok (demo_info\<lparr>fi_mode := Directory\<rparr>)),
     se_readDir = (\<lambda>p. if p = ''/d/a1'' then Ok [demo_entry ''master.m3u8'', demo_entry ''s.ts''] else Ok []),
     se_cancelled = (\<lambda>_. False), se_now = (\<lambda>_. 0), se_elapsed = 0, se_sha256 = (\<lambda>s. [])\<rparr>"

lemma demo_scan_result:
  "\<exists>res. Scan demo_scan ''/d'' None = (Ok res, None) \<and> map as_AssetID (sr_Assets res) = [''a1'']"
proof -
  have j: "Join [''/d'', ''a1''] = ''/d/a1''" "Join [''/d'', ''b2''] = ''/d/b2''" by code_simp+
  have r: "assetIDRegex ''a1''" "assetIDRegex ''b2''" by code_simp+
  have x: "isAllowedFile ''master.m3u8'' (ToLower (Ext ''master.m3u8''))" "isAllowedFile ''s.ts'' (ToLower (Ext ''s.ts''))"
    "ToLower (Ext ''s.ts'') = ''.ts''" "isAllowedFile ''s.ts'' ''.ts''" "EqualFold ''master.m3u8'' ''master.m3u8''" by code_simp+
  show ?thesis
    by (simp add: Scan_def demo_scan_def scanAssetDir_def j r x demo_entry_def demo_info_def IsSymlink_def ObserveScan_def Let_def)
qed

lemma named_entry: "x \<in> {de_name e | e. e \<in> S \<and> P e \<and> Q (de_name e) \<and> R (de_name e)} \<Longrightarrow> R x"
  by auto

theorem scan_exact_witness:
  "\<exists>res. Scan demo_scan ''/d'' None = (Ok res, None) \<and> map as_AssetID (sr_Assets res) = [''a1''] \<and>
     publishable demo_scan ''/d'' ''a1''"
proof -
  obtain res where res: "Scan demo_scan ''/d'' None = (Ok res, None)" "map as_AssetID (sr_Assets res) = [''a1'']"
    using demo_scan_result by (elim exE conjE)
  have root: "se_root demo_scan = Ok [\<lparr>de_name = ''a1'', de_type = Directory, de_info = Err NotExist\<rparr>,
        \<lparr>de_name = ''b2'', de_type = Directory, de_info = Err NotExist\<rparr>,
        \<lparr>de_name = ''c'', de_type = Symlink, de_info = Err NotExist\<rparr>]" by (simp add: demo_scan_def)
  have "distinct (map de_name [\<lparr>de_name = ''a1'', de_type = Directory, de_info = Err NotExist\<rparr>,
        \<lparr>de_name = ''b2'', de_type = Directory, de_info = Err NotExist\<rparr>,
        \<lparr>de_name = ''c'', de_type = Symlink, de_info = Err NotExist\<rparr>])" by simp
  note exact = scan_exact [OF res(1) root this, THEN conjunct2, THEN conjunct1]
  have "''a1'' \<in> set (map as_AssetID (sr_Assets res))" unfolding res(2) by simp
  then have "publishable demo_scan ''/d'' ''a1''" unfolding exact by (rule named_entry)
  with res show ?thesis by (intro exI conjI)
qed

definition demo_files :: "fileMeta list" where
  "demo_files = [\<lparr>fm_name = ''a'', fm_size = 1, fm_modUnix = 2\<rparr>, \<lparr>fm_name = ''b'', fm_size = 1, fm_modUnix = 2\<rparr>]"

theorem content_hash_input_exact_witness: "hash_input demo_files = hash_input (rev demo_files)"
  using content_hash_input_exact [of demo_files "rev demo_files"] by (simp add: demo_files_def)

theorem scanner_handler_agree_witness: "is_ok (validateExtension ''init-1.MP4'')"
proof -
  have "isAllowedFile ''init-1.MP4'' (ToLower (Ext ''init-1.MP4''))" by code_simp
  then show ?thesis using scanner_handler_agree [of "''init-1.MP4''"] by simp
qed

end
