(* ===== verification/Go_Time.thy ===== *)
theory Go_Time
  imports Go_Strings
begin

text \<open>
  Instants and their RFC 3339 text. A \<open>time.Time\<close> is its number of nanoseconds since the Unix epoch; the
  zero time is midnight of January 1 of year 1. \<open>Format\<close> writes whole seconds in UTC. \<open>Parse\<close> is
  the parser for the layout \<open>time.RFC3339\<close>; the lenient parser that Go falls back to accepts a few more spellings
  (one-digit hours, a comma before the fraction) that the program never writes, and is left out.
\<close>

section \<open>Instants\<close>

type_synonym instant = int

abbreviation nanos :: int where
  "nanos \<equiv> 1000000000"

definition zero_time :: instant where
  "zero_time = - 62135596800 * nanos"

definition IsZero :: "instant \<Rightarrow> bool" where
  "IsZero t \<longleftrightarrow> t = zero_time"

definition Unix :: "instant \<Rightarrow> int" where
  "Unix t = t div nanos"

definition from_Unix :: "int \<Rightarrow> instant" where
  "from_Unix s = s * nanos"

text \<open>\<open>time.Duration(n) * time.Second\<close> and its like: a 64-bit product.\<close>

definition seconds :: "int \<Rightarrow> int" where
  "seconds n = int64 (n * nanos)"

definition milliseconds :: "int \<Rightarrow> int" where
  "milliseconds n = int64 (n * 1000000)"

lemma Unix_from_Unix [simp]: "Unix (from_Unix s) = s"
  by (simp add: Unix_def from_Unix_def)

section \<open>The civil calendar\<close>

definition leap :: "int \<Rightarrow> bool" where
  "leap y \<longleftrightarrow> 4 dvd y \<and> (\<not> 100 dvd y \<or> 400 dvd y)"

text \<open>Days from January 1 of year 1 to January 1 of year \<open>y\<close>.\<close>

definition days_before_year :: "int \<Rightarrow> int" where
  "days_before_year y = 365 * (y - 1) + (y - 1) div 4 - (y - 1) div 100 + (y - 1) div 400"

definition year_of :: "int \<Rightarrow> int" where
  "year_of d =
     (let y = d * 400 div 146097 + 1
      in if d < days_before_year y then y - 1
         else if days_before_year (y + 1) \<le> d then y + 1
         else y)"

text \<open>Days from the start of the year to the start of month \<open>m\<close> (1 to 13).\<close>

definition days_before_month :: "bool \<Rightarrow> nat \<Rightarrow> int" where
  "days_before_month l m =
     [0, 0, 31, 59, 90, 120, 151, 181, 212, 243, 273, 304, 334, 365] ! m + (if l \<and> 2 < m then 1 else 0)"

definition month_of :: "bool \<Rightarrow> int \<Rightarrow> nat" where
  "month_of l doy = length (takeWhile (\<lambda>m. days_before_month l m \<le> doy) [1..<13])"

definition days_of_date :: "int \<Rightarrow> nat \<Rightarrow> int \<Rightarrow> int" where
  "days_of_date y m d = days_before_year y + days_before_month (leap y) m + (d - 1)"

lemma div_step:
  fixes y n :: int
  assumes "0 < n"
  shows "y div n = (y - 1) div n + (if n dvd y then 1 else 0)"
proof -
  define q r where "q = (y - 1) div n" and "r = (y - 1) mod n"
  have r: "0 \<le> r" "r < n" using assms by (simp_all add: r_def)
  have y: "y = (r + 1) + n * q" using div_mult_mod_eq [of "y - 1" n] by (simp add: q_def r_def algebra_simps)
  have d: "y div n = (r + 1) div n + q" using assms unfolding y by simp
  have dv: "n dvd y \<longleftrightarrow> n dvd r + 1" unfolding y by (rule dvd_add_left_iff) simp
  show ?thesis
  proof (cases "r + 1 = n")
    case True
    then show ?thesis using d dv assms by (simp add: q_def)
  next
    case False
    then have "\<not> n dvd r + 1" "(r + 1) div n = 0" using r zdvd_not_zless [of "r + 1" n] by auto
    then show ?thesis using d dv by (simp add: q_def)
  qed
qed

lemma days_before_year_Suc: "days_before_year (y + 1) = days_before_year y + 365 + (if leap y then 1 else 0)"
proof -
  have imp: "400 dvd y \<longrightarrow> 100 dvd y" "100 dvd y \<longrightarrow> 4 dvd y"
    using dvd_trans [of 100 400 y] dvd_trans [of 4 100 y] by simp_all
  have arith: "a = a' + u \<Longrightarrow> b = b' + v \<Longrightarrow> c = c' + w \<Longrightarrow>
      365 * y + a - b + c = 365 * (y - 1) + a' - b' + c' + 365 + u - v + w" for a b c a' b' c' u v w :: int
    by simp
  have eq: "days_before_year (y + 1) = days_before_year y + 365 + (if 4 dvd y then 1 else 0) -
      (if 100 dvd y then 1 else 0) + (if 400 dvd y then 1 else 0)"
    unfolding days_before_year_def add_diff_cancel_right' by (rule arith) (rule div_step, simp)+
  show ?thesis
    unfolding eq leap_def using imp by (cases "4 dvd y"; cases "100 dvd y"; cases "400 dvd y") simp_all
qed

lemma div_bounds:
  fixes z n :: int
  assumes "0 < n"
  shows "n * (z div n) \<le> z" "z < n * (z div n) + n"
  using mult_div_mod_eq [of n z] pos_mod_sign [OF assms, of z] pos_mod_bound [OF assms, of z] by linarith+

lemma days_before_year_estimate:
  "days_before_year z * 400 \<le> 146097 * (z - 1) + 800" "146097 * (z - 1) - 800 \<le> days_before_year z * 400"
  unfolding days_before_year_def
  using div_bounds [of 4 "z - 1"] div_bounds [of 100 "z - 1"] div_bounds [of 400 "z - 1"] by simp_all

lemma year_of_bounds: "days_before_year (year_of d) \<le> d \<and> d < days_before_year (year_of d + 1)"
proof -
  define y where "y = d * 400 div 146097 + 1"
  have est: "146097 * (y - 1) \<le> d * 400" "d * 400 < 146097 * y"
    using div_bounds [of 146097 "d * 400"] by (simp_all add: y_def)
  have "d < days_before_year (y + 2)" using est(2) days_before_year_estimate(2) [of "y + 2"] by (simp add: algebra_simps)
  moreover have "days_before_year (y - 1) \<le> d" using est(1) days_before_year_estimate(1) [of "y - 1"] by (simp add: algebra_simps)
  ultimately show ?thesis unfolding year_of_def Let_def y_def [symmetric] by (auto simp: add.commute)
qed

lemma days_before_year_mono: "y \<le> z \<Longrightarrow> days_before_year y \<le> days_before_year z"
proof (induction z rule: int_ge_induct)
  case (step z)
  then show ?case using days_before_year_Suc [of z] by simp
qed simp

lemma year_of_unique:
  assumes "days_before_year y \<le> d" "d < days_before_year (y + 1)"
  shows "year_of d = y"
proof (rule ccontr)
  assume "year_of d \<noteq> y"
  then consider "year_of d + 1 \<le> y" | "y + 1 \<le> year_of d" by linarith
  then show False
    using days_before_year_mono year_of_bounds [of d] assms by cases (meson leD le_less_trans less_le_trans)+
qed

lemma month_table: "days_before_month l 1 = 0" "days_before_month l 13 = 365 + (if l then 1 else 0)"
  by (simp_all add: days_before_month_def)

lemma month_of_bounds:
  assumes "0 \<le> doy" "doy < 365 + (if l then 1 else 0)"
  shows "1 \<le> month_of l doy \<and> month_of l doy \<le> 12 \<and> days_before_month l (month_of l doy) \<le> doy \<and>
     doy < days_before_month l (Suc (month_of l doy))"
proof (cases l)
  case True
  with assms show ?thesis by (auto simp: month_of_def days_before_month_def upt_rec)
next
  case False
  with assms show ?thesis by (auto simp: month_of_def days_before_month_def upt_rec)
qed

section \<open>Text\<close>

text \<open>\<open>appendInt\<close>: decimal digits with leading zeros up to a width.\<close>

definition pad :: "nat \<Rightarrow> nat \<Rightarrow> string" where
  "pad w n = replicate (w - length (dec_nat n)) CHR ''0'' @ dec_nat n"

definition pad_int :: "nat \<Rightarrow> int \<Rightarrow> string" where
  "pad_int w n = (if n < 0 then CHR ''-'' # pad w (nat (- n)) else pad w (nat n))"

record civil =
  cv_year :: int
  cv_month :: nat
  cv_day :: nat
  cv_hour :: nat
  cv_min :: nat
  cv_sec :: nat

text \<open>Day 719162 counted from January 1 of year 1 is January 1 of 1970.\<close>

definition civil_of :: "int \<Rightarrow> civil" where
  "civil_of s =
     (let days = s div 86400 + 719162; r = nat (s mod 86400);
          y = year_of days; doy = days - days_before_year y; m = month_of (leap y) doy
      in \<lparr>cv_year = y, cv_month = m, cv_day = nat (doy - days_before_month (leap y) m + 1),
          cv_hour = r div 3600, cv_min = r mod 3600 div 60, cv_sec = r mod 60\<rparr>)"

definition unix_of :: "civil \<Rightarrow> int" where
  "unix_of c =
     (days_of_date (cv_year c) (cv_month c) (int (cv_day c)) - 719162) * 86400 +
     int (cv_hour c * 3600 + cv_min c * 60 + cv_sec c)"

definition civil_text :: "civil \<Rightarrow> string" where
  "civil_text c =
     pad_int 4 (cv_year c) @ ''-'' @ pad 2 (cv_month c) @ ''-'' @ pad 2 (cv_day c) @ ''T'' @
     pad 2 (cv_hour c) @ '':'' @ pad 2 (cv_min c) @ '':'' @ pad 2 (cv_sec c) @ ''Z''"

text \<open>\<open>t.UTC().Format(time.RFC3339)\<close>.\<close>

definition Format :: "instant \<Rightarrow> string" where
  "Format t = civil_text (civil_of (Unix t))"

text \<open>\<open>parseUint\<close> of the RFC 3339 parser on a slice.\<close>

definition parse_field :: "string \<Rightarrow> nat \<Rightarrow> nat \<Rightarrow> nat option" where
  "parse_field s lo hi =
     (if list_all is_digit s \<and> lo \<le> dec_val 0 s \<and> dec_val 0 s \<le> hi then Some (dec_val 0 s) else None)"

definition slice :: "nat \<Rightarrow> nat \<Rightarrow> string \<Rightarrow> string" where
  "slice a b s = take (b - a) (drop a s)"

definition days_in :: "nat \<Rightarrow> nat \<Rightarrow> nat" where
  "days_in m y = nat (days_before_month (leap (int y)) (Suc m) - days_before_month (leap (int y)) m)"

definition parse_nanoseconds :: "string \<Rightarrow> int" where
  "parse_nanoseconds digits =
     (let ds = take 9 digits
      in foldl (\<lambda>a c. 10 * a + int (digit_val c)) 0 ds * 10 ^ (9 - length ds))"

definition Parse :: "string \<Rightarrow> instant option" where
  "Parse s =
     (if length s < 19 then None
      else case (parse_field (slice 0 4 s) 0 9999, parse_field (slice 5 7 s) 1 12,
                 parse_field (slice 11 13 s) 0 23, parse_field (slice 14 16 s) 0 59, parse_field (slice 17 19 s) 0 59) of
        (Some y, Some mo, Some h, Some mi, Some sec) \<Rightarrow>
          (case parse_field (slice 8 10 s) 1 (days_in mo y) of
             None \<Rightarrow> None
           | Some d \<Rightarrow>
               if \<not> (s ! 4 = CHR ''-'' \<and> s ! 7 = CHR ''-'' \<and> s ! 10 = CHR ''T'' \<and> s ! 13 = CHR '':'' \<and> s ! 16 = CHR '':'')
               then None
               else
                 (let rest = drop 19 s;
                      frac = (if 2 \<le> length rest \<and> hd rest = CHR ''.'' then takeWhile is_digit (tl rest) else []);
                      zone = (if frac = [] then rest else drop (Suc (length frac)) rest);
                      nsec = (if frac = [] then 0 else parse_nanoseconds frac);
                      t = from_Unix (unix_of \<lparr>cv_year = int y, cv_month = mo, cv_day = d, cv_hour = h, cv_min = mi, cv_sec = sec\<rparr>) + nsec
                  in if zone = ''Z'' then Some t
                     else if length zone \<noteq> 6 then None
                     else case (parse_field (slice 1 3 zone) 0 23, parse_field (slice 4 6 zone) 0 59) of
                       (Some hr, Some mm) \<Rightarrow>
                         if zone ! 3 \<noteq> CHR '':'' then None
                         else if hd zone = CHR ''-'' then Some (t + from_Unix (int ((hr * 60 + mm) * 60)))
                         else if hd zone = CHR ''+'' then Some (t - from_Unix (int ((hr * 60 + mm) * 60)))
                         else None
                     | _ \<Rightarrow> None))
      | _ \<Rightarrow> None)"

section \<open>Calendar facts\<close>

definition valid_civil :: "civil \<Rightarrow> bool" where
  "valid_civil c \<longleftrightarrow> 1 \<le> cv_month c \<and> cv_month c \<le> 12 \<and> 1 \<le> cv_day c \<and>
     days_before_month (leap (cv_year c)) (cv_month c) + int (cv_day c) \<le> days_before_month (leap (cv_year c)) (Suc (cv_month c)) \<and>
     cv_hour c < 24 \<and> cv_min c < 60 \<and> cv_sec c < 60"

lemma civil_of_valid: "valid_civil (civil_of s)" and unix_of_civil_of: "unix_of (civil_of s) = s"
proof -
  define days r y where "days = s div 86400 + 719162" and "r = nat (s mod 86400)" and "y = year_of days"
  define doy where "doy = days - days_before_year y"
  define m where "m = month_of (leap y) doy"
  have b: "0 \<le> doy" "doy < 365 + (if leap y then 1 else 0)"
    using year_of_bounds [of days] days_before_year_Suc [of y] by (simp_all add: doy_def y_def)
  note mb = month_of_bounds [OF b, folded m_def]
  have r: "r < 86400" "int r = s mod 86400" by (simp_all add: r_def nat_less_iff)
  have c: "civil_of s = \<lparr>cv_year = y, cv_month = m, cv_day = nat (doy - days_before_month (leap y) m + 1),
      cv_hour = r div 3600, cv_min = r mod 3600 div 60, cv_sec = r mod 60\<rparr>"
    by (simp add: civil_of_def Let_def days_def r_def y_def doy_def m_def)
  show "valid_civil (civil_of s)"
    using mb r(1) by (auto simp: c valid_civil_def div_less_iff_less_mult)
  have "r div 3600 * 3600 + r mod 3600 div 60 * 60 + r mod 60 = r"
  proof -
    have "r mod 3600 mod 60 = r mod 60" by (rule mod_mod_cancel) simp
    then show ?thesis using div_mult_mod_eq [of r 3600] div_mult_mod_eq [of "r mod 3600" 60] by linarith
  qed
  moreover have "days * 86400 + int r = s + 719162 * 86400"
    using r(2) div_mult_mod_eq [of s 86400] by (simp add: days_def)
  ultimately show "unix_of (civil_of s) = s"
    using mb by (simp add: c unix_of_def days_of_date_def doy_def)
qed

definition day_number :: "civil \<Rightarrow> int" where
  "day_number c = days_of_date (cv_year c) (cv_month c) (int (cv_day c))"

definition second_number :: "civil \<Rightarrow> int" where
  "second_number c = int (cv_hour c * 3600 + cv_min c * 60 + cv_sec c)"

lemma unix_of_split: "unix_of c = (day_number c - 719162) * 86400 + second_number c"
  by (simp add: unix_of_def day_number_def second_number_def)

lemma second_number_bounds: "valid_civil c \<Longrightarrow> 0 \<le> second_number c \<and> second_number c < 86400"
  by (auto simp: valid_civil_def second_number_def)

lemma days_before_month_mono:
  assumes "1 \<le> m" "m \<le> n" "n \<le> 13"
  shows "days_before_month l m \<le> days_before_month l n"
proof -
  have step: "days_before_month l k \<le> days_before_month l (Suc k)" if "1 \<le> k" "k \<le> 12" for k
  proof -
    have "k = 1 \<or> k = 2 \<or> k = 3 \<or> k = 4 \<or> k = 5 \<or> k = 6 \<or> k = 7 \<or> k = 8 \<or> k = 9 \<or> k = 10 \<or> k = 11 \<or> k = 12"
      using that by presburger
    then show ?thesis by (auto simp: days_before_month_def)
  qed
  show ?thesis using assms(2,3)
  proof (induction n rule: dec_induct)
    case (step n)
    then show ?case using assms(1) \<open>\<And>k. 1 \<le> k \<Longrightarrow> k \<le> 12 \<Longrightarrow> days_before_month l k \<le> days_before_month l (Suc k)\<close> [of n]
      by simp
  qed simp
qed

text \<open>Calendar order is the order of the day and second numbers.\<close>

definition date_less :: "civil \<Rightarrow> civil \<Rightarrow> bool" where
  "date_less c c' \<longleftrightarrow> cv_year c < cv_year c' \<or> cv_year c = cv_year c' \<and>
     (cv_month c < cv_month c' \<or> cv_month c = cv_month c' \<and> cv_day c < cv_day c')"

definition clock_less :: "civil \<Rightarrow> civil \<Rightarrow> bool" where
  "clock_less c c' \<longleftrightarrow> cv_hour c < cv_hour c' \<or> cv_hour c = cv_hour c' \<and>
     (cv_min c < cv_min c' \<or> cv_min c = cv_min c' \<and> cv_sec c < cv_sec c')"

definition same_date :: "civil \<Rightarrow> civil \<Rightarrow> bool" where
  "same_date c c' \<longleftrightarrow> cv_year c = cv_year c' \<and> cv_month c = cv_month c' \<and> cv_day c = cv_day c'"

lemma day_number_bounds:
  assumes "valid_civil c"
  shows "days_before_year (cv_year c) \<le> day_number c" "day_number c < days_before_year (cv_year c + 1)"
    "days_before_year (cv_year c) + days_before_month (leap (cv_year c)) (cv_month c) \<le> day_number c"
    "day_number c < days_before_year (cv_year c) + days_before_month (leap (cv_year c)) (Suc (cv_month c))"
  using assms days_before_month_mono [of 1 "cv_month c" "leap (cv_year c)"] days_before_year_Suc [of "cv_year c"]
    days_before_month_mono [of "Suc (cv_month c)" 13 "leap (cv_year c)"] month_table [of "leap (cv_year c)"]
  by (auto simp: valid_civil_def day_number_def days_of_date_def)

lemma date_less_day_number:
  assumes "valid_civil c" "valid_civil c'" "date_less c c'"
  shows "day_number c < day_number c'"
proof -
  consider "cv_year c + 1 \<le> cv_year c'"
    | "cv_year c = cv_year c'" "Suc (cv_month c) \<le> cv_month c'"
    | "cv_year c = cv_year c'" "cv_month c = cv_month c'" "cv_day c < cv_day c'"
    using assms(3) by (force simp: date_less_def)
  then show ?thesis
  proof cases
    case 1
    then show ?thesis
      using days_before_year_mono day_number_bounds(2) [OF assms(1)] day_number_bounds(1) [OF assms(2)] by fastforce
  next
    case 2
    then show ?thesis
      using days_before_month_mono [of "Suc (cv_month c)" "cv_month c'" "leap (cv_year c)"] assms(2)
        day_number_bounds(4) [OF assms(1)] day_number_bounds(3) [OF assms(2)] by (simp add: valid_civil_def)
  next
    case 3
    then show ?thesis by (simp add: day_number_def days_of_date_def)
  qed
qed

lemma clock_less_second_number:
  "valid_civil c \<Longrightarrow> valid_civil c' \<Longrightarrow> clock_less c c' \<Longrightarrow> second_number c < second_number c'"
  by (auto simp: valid_civil_def clock_less_def second_number_def)

lemma unix_of_less:
  assumes "valid_civil c" "valid_civil c'"
  shows "unix_of c < unix_of c' \<longleftrightarrow> date_less c c' \<or> same_date c c' \<and> clock_less c c'"
proof -
  have fwd: "unix_of a < unix_of b" if "valid_civil a" "valid_civil b" "date_less a b \<or> same_date a b \<and> clock_less a b" for a b
    using that(3)
  proof
    assume "date_less a b"
    then have "day_number a + 1 \<le> day_number b" using date_less_day_number that(1,2) by fastforce
    then show ?thesis using second_number_bounds [OF that(1)] second_number_bounds [OF that(2)] by (simp add: unix_of_split)
  next
    assume "same_date a b \<and> clock_less a b"
    then show ?thesis using clock_less_second_number [OF that(1,2)]
      by (simp add: unix_of_split same_date_def day_number_def)
  qed
  have total: "date_less c c' \<or> date_less c' c \<or> same_date c c' \<and> (clock_less c c' \<or> clock_less c' c \<or> c = c')"
    by (auto simp: date_less_def same_date_def clock_less_def intro: civil.equality)
  show ?thesis
    using fwd [OF assms] fwd [OF assms(2,1)] total by (auto simp: same_date_def)
qed

section \<open>Digits\<close>

lemma dec_val_acc: "dec_val acc s = acc * 10 ^ length s + dec_val 0 s"
proof (induction s arbitrary: acc)
  case (Cons c s)
  show ?case using Cons [of "10 * acc + digit_val c"] Cons [of "digit_val c"] by (simp add: algebra_simps)
qed simp

lemma digit_val_less: "is_digit c \<Longrightarrow> digit_val c < 10"
  by (auto simp: is_digit_def digit_val_def less_eq_char_def)

lemma digit_val_order: "is_digit c \<Longrightarrow> is_digit d \<Longrightarrow> c < d \<longleftrightarrow> digit_val c < digit_val d"
  by (auto simp: is_digit_def digit_val_def less_eq_char_def less_char_def)

lemma digit_val_inject: "is_digit c \<Longrightarrow> is_digit d \<Longrightarrow> digit_val c = digit_val d \<Longrightarrow> c = d"
  by (metis digit_val_order less_irrefl linorder_neqE)

lemma dec_val_bound: "list_all is_digit s \<Longrightarrow> dec_val 0 s < 10 ^ length s"
proof (induction s)
  case (Cons c s)
  have "digit_val c \<le> 9" using Cons.prems digit_val_less [of c] by simp
  then have "digit_val c * 10 ^ length s \<le> 9 * 10 ^ length s" by (rule mult_le_mono1)
  moreover have "dec_val 0 s < 10 ^ length s" using Cons by simp
  ultimately have "digit_val c * 10 ^ length s + dec_val 0 s < 10 * 10 ^ length s" by linarith
  then show ?case using dec_val_acc [of "digit_val c" s] by simp
qed simp

lemma digits_less:
  "list_all is_digit xs \<Longrightarrow> list_all is_digit ys \<Longrightarrow> length xs = length ys \<Longrightarrow>
   (xs < ys \<longleftrightarrow> dec_val 0 xs < dec_val 0 ys)"
proof (induction xs arbitrary: ys)
  case (Cons x xs)
  then obtain y zs where ys: "ys = y # zs" by (cases ys) auto
  let ?p = "10 ^ length xs :: nat"
  have v: "dec_val 0 (x # xs) = digit_val x * ?p + dec_val 0 xs" "dec_val 0 ys = digit_val y * ?p + dec_val 0 zs"
    using dec_val_acc [of "digit_val x" xs] dec_val_acc [of "digit_val y" zs] Cons.prems ys by simp_all
  have b: "dec_val 0 xs < ?p" "dec_val 0 zs < ?p" using Cons.prems ys dec_val_bound [of xs] dec_val_bound [of zs] by auto
  have lt: "digit_val a < digit_val b \<Longrightarrow> u < ?p \<Longrightarrow> digit_val a * ?p + u < digit_val b * ?p + w" for a b u w
    using mult_le_mono1 [of "Suc (digit_val a)" "digit_val b" ?p] by simp
  have IH: "xs < zs \<longleftrightarrow> dec_val 0 xs < dec_val 0 zs" using Cons ys by auto
  have dx: "is_digit x" "is_digit y" using Cons.prems ys by auto
  consider "digit_val x < digit_val y" | "digit_val y < digit_val x" | "digit_val x = digit_val y" by linarith
  then show ?case
  proof cases
    case 1
    then show ?thesis using lt [OF 1 b(1), of "dec_val 0 zs"] dx v ys digit_val_order by simp
  next
    case 2
    then show ?thesis using lt [OF 2 b(2), of "dec_val 0 xs"] dx v ys digit_val_order [of y x] digit_val_order [of x y] by auto
  next
    case 3
    then have "x = y" using dx digit_val_inject by blast
    then show ?thesis using v ys IH 3 by simp
  qed
qed simp

lemma append_less:
  "length a = length a' \<Longrightarrow> a @ b < a' @ (b' :: 'a::linorder list) \<longleftrightarrow> a < a' \<or> a = a' \<and> b < b'"
proof (induction a arbitrary: a')
  case (Cons x a)
  then obtain y c where "a' = y # c" "length a = length c" by (cases a') auto
  then show ?case using Cons.IH [of c] by auto
qed simp

lemma dec_nat_length: "n < 10 ^ Suc w \<Longrightarrow> length (dec_nat n) \<le> Suc w"
proof (induction w arbitrary: n)
  case 0
  then show ?case by (simp add: dec_nat.simps [of n])
next
  case (Suc w)
  then have "n div 10 < 10 ^ Suc w" by (simp add: less_mult_imp_div_less)
  with Suc.IH [of "n div 10"] show ?case by (cases "n < 10") (simp_all add: dec_nat.simps [of n])
qed

lemma digit_zero: "is_digit CHR ''0''" "digit_val CHR ''0'' = 0"
  by (simp_all add: is_digit_def digit_val_def)

lemma pad_digits: "list_all is_digit (pad w n)"
  using dec_nat_digits by (auto simp: pad_def list_all_iff digit_zero)

lemma dec_val_zeros: "dec_val 0 (replicate k CHR ''0'' @ s) = dec_val 0 s"
  by (induction k) (simp_all add: digit_zero)

lemma dec_val_pad [simp]: "dec_val 0 (pad w n) = n"
  by (simp add: pad_def dec_val_zeros)

lemma pad_length: "0 < w \<Longrightarrow> n < 10 ^ w \<Longrightarrow> length (pad w n) = w"
  using dec_nat_length [of n "w - 1"] by (simp add: pad_def)

lemma pad_less: "0 < w \<Longrightarrow> m < 10 ^ w \<Longrightarrow> n < 10 ^ w \<Longrightarrow> pad w m < pad w n \<longleftrightarrow> m < n"
  by (simp add: digits_less pad_digits pad_length)

lemma pad_inject [simp]: "pad w m = pad w n \<longleftrightarrow> m = n"
  by (metis dec_val_pad)

section \<open>Order and round trip of the text\<close>

text \<open>The instants whose year has four digits.\<close>

definition rfc_range :: "instant \<Rightarrow> bool" where
  "rfc_range t \<longleftrightarrow> - 62167219200 \<le> Unix t \<and> Unix t < 253402300800"

lemma rfc_range_year: "rfc_range t \<Longrightarrow> 0 \<le> cv_year (civil_of (Unix t)) \<and> cv_year (civil_of (Unix t)) < 10000"
proof -
  assume r: "rfc_range t"
  define d where "d = Unix t div 86400 + 719162"
  have "days_before_year 0 \<le> d" "d < days_before_year 10000"
    using r div_bounds [of 86400 "Unix t"] by (simp_all add: d_def rfc_range_def days_before_year_def)
  moreover have "year_of d < 0 \<Longrightarrow> d < days_before_year 0"
    using year_of_bounds [of d] days_before_year_mono [of "year_of d + 1" 0] by simp
  moreover have "10000 \<le> year_of d \<Longrightarrow> days_before_year 10000 \<le> d"
    using year_of_bounds [of d] days_before_year_mono [of 10000 "year_of d"] by simp
  ultimately show ?thesis by (fastforce simp: civil_of_def Let_def d_def)
qed

lemma month_length: "1 \<le> m \<Longrightarrow> m \<le> 12 \<Longrightarrow> days_before_month l (Suc m) - days_before_month l m \<le> 31"
proof -
  assume "1 \<le> m" "m \<le> 12"
  then have "m = 1 \<or> m = 2 \<or> m = 3 \<or> m = 4 \<or> m = 5 \<or> m = 6 \<or> m = 7 \<or> m = 8 \<or> m = 9 \<or> m = 10 \<or> m = 11 \<or> m = 12"
    by presburger
  then show ?thesis by (auto simp: days_before_month_def)
qed

lemma valid_civil_two_digits:
  assumes "valid_civil c"
  shows "cv_month c < 10\<^sup>2" "cv_day c < 10\<^sup>2" "cv_hour c < 10\<^sup>2" "cv_min c < 10\<^sup>2" "cv_sec c < 10\<^sup>2"
  using assms month_length [of "cv_month c" "leap (cv_year c)"] by (auto simp: valid_civil_def)

lemma civil_text_less:
  assumes "valid_civil c" "valid_civil c'" "0 \<le> cv_year c" "cv_year c < 10000" "0 \<le> cv_year c'" "cv_year c' < 10000"
  shows "civil_text c < civil_text c' \<longleftrightarrow> date_less c c' \<or> same_date c c' \<and> clock_less c c'"
proof -
  note lens = pad_length [of 2, OF zero_less_numeral] pad_length [of 4, OF zero_less_numeral]
  note ords = pad_less [of 2, OF zero_less_numeral] pad_less [of 4, OF zero_less_numeral]
  have y: "nat (cv_year c) < 10 ^ 4" "nat (cv_year c') < 10 ^ 4" using assms(3-6) by auto
  note two = valid_civil_two_digits [OF assms(1)] valid_civil_two_digits [OF assms(2)]
  have "civil_text c < civil_text c' \<longleftrightarrow>
     nat (cv_year c) < nat (cv_year c') \<or> nat (cv_year c) = nat (cv_year c') \<and>
     (cv_month c < cv_month c' \<or> cv_month c = cv_month c' \<and>
      (cv_day c < cv_day c' \<or> cv_day c = cv_day c' \<and>
       (cv_hour c < cv_hour c' \<or> cv_hour c = cv_hour c' \<and>
        (cv_min c < cv_min c' \<or> cv_min c = cv_min c' \<and> cv_sec c < cv_sec c'))))"
    using assms(3,5) two y
    by (simp add: civil_text_def pad_int_def append_less lens ords)
  then show ?thesis using assms(3,5) by (auto simp: date_less_def same_date_def clock_less_def)
qed

text \<open>Comparing the texts compares the instants, to the second.\<close>

lemma Format_less: "rfc_range t \<Longrightarrow> rfc_range u \<Longrightarrow> Format t < Format u \<longleftrightarrow> Unix t < Unix u"
  using civil_text_less [OF civil_of_valid civil_of_valid] unix_of_less [OF civil_of_valid civil_of_valid]
    rfc_range_year by (simp add: Format_def unix_of_civil_of)

lemma Format_not_Nil: "Format t \<noteq> []"
  by (simp add: Format_def civil_text_def)

lemma parse_field_pad: "lo \<le> n \<Longrightarrow> n \<le> hi \<Longrightarrow> parse_field (pad w n) lo hi = Some n"
  by (simp add: parse_field_def pad_digits)

lemma Parse_fields:
  assumes "length ye = 4" "length mo = 2" "length da = 2" "length ho = 2" "length mi = 2" "length se = 2"
  defines "s \<equiv> ye @ ''-'' @ mo @ ''-'' @ da @ ''T'' @ ho @ '':'' @ mi @ '':'' @ se @ ''Z''"
  shows "slice 0 4 s = ye" "slice 5 7 s = mo" "slice 8 10 s = da" "slice 11 13 s = ho" "slice 14 16 s = mi"
    "slice 17 19 s = se" "s ! 4 = CHR ''-''" "s ! 7 = CHR ''-''" "s ! 10 = CHR ''T''" "s ! 13 = CHR '':''" "s ! 16 = CHR '':''"
    "length s = 20" "drop 19 s = ''Z''"
  using assms(1-6) by (simp_all add: s_def slice_def nth_append)

lemma Parse_Format: "rfc_range t \<Longrightarrow> Parse (Format t) = Some (from_Unix (Unix t))"
proof -
  assume r: "rfc_range t"
  define c where "c = civil_of (Unix t)"
  have v: "valid_civil c" by (simp add: c_def civil_of_valid)
  note two = valid_civil_two_digits [OF v]
  have y: "0 \<le> cv_year c" "nat (cv_year c) < 10 ^ 4" "nat (cv_year c) \<le> 9999" using rfc_range_year [OF r] by (auto simp: c_def)
  note lens = pad_length [of 2, OF zero_less_numeral] pad_length [of 4, OF zero_less_numeral]
  have shape: "Format t = pad 4 (nat (cv_year c)) @ ''-'' @ pad 2 (cv_month c) @ ''-'' @ pad 2 (cv_day c) @ ''T'' @
      pad 2 (cv_hour c) @ '':'' @ pad 2 (cv_min c) @ '':'' @ pad 2 (cv_sec c) @ ''Z''"
    using y by (simp add: Format_def civil_text_def pad_int_def c_def)
  note f = Parse_fields [OF lens(2) [OF y(2)] lens(1) [OF two(1)] lens(1) [OF two(2)] lens(1) [OF two(3)]
      lens(1) [OF two(4)] lens(1) [OF two(5)], folded shape]
  have day: "cv_day c \<le> days_in (cv_month c) (nat (cv_year c))"
    using v y(1) by (auto simp: valid_civil_def days_in_def)
  have "\<lparr>cv_year = int (nat (cv_year c)), cv_month = cv_month c, cv_day = cv_day c, cv_hour = cv_hour c,
      cv_min = cv_min c, cv_sec = cv_sec c\<rparr> = c" using y(1) by simp
  then show ?thesis
    using v y(3) day unix_of_civil_of [of "Unix t"]
    by (simp add: Parse_def f parse_field_pad valid_civil_def c_def)
qed

end
