(* ===== verification/Repository.thy ===== *)
theory Repository
  imports Go_Time "HOL-Library.AList"
begin

text \<open>
  Package \<open>repository\<close> over the two tables of the SQLite database. A table is an association list from its primary key to its row;
  a text column that may be NULL is an option. The model says what each SQL statement of the package does; whether the
  database reports an error for the \<open>k\<close>-th call of an operation is a parameter \<open>fault\<close>, and a failed statement changes
  nothing. \<open>fk\<close> says whether foreign keys are enforced on the connection used.
\<close>

section \<open>Tables\<close>

record asset_row =
  at_status :: string
  at_master_playlist_path :: string
  at_content_hash :: string
  at_file_count :: int
  at_total_size_bytes :: int
  at_last_scanned_at :: string
  at_created_at :: string
  at_updated_at :: string
  at_missing_at :: "string option"

record announcement_row =
  nt_last_announced_at :: "string option"
  nt_expires_at :: "string option"
  nt_status :: string
  nt_created_at :: string
  nt_updated_at :: string

record database =
  tb_assets :: "(string \<times> asset_row) list"
  tb_announcements :: "(string \<times> announcement_row) list"

type_synonym faults = "nat \<Rightarrow> bool"

definition db_inv :: "database \<Rightarrow> bool" where
  "db_inv db \<longleftrightarrow> distinct (map fst (tb_assets db)) \<and> distinct (map fst (tb_announcements db)) \<and>
     (\<forall>(a, r) \<in> set (tb_assets db). at_status r \<in> {''active'', ''missing''})"

section \<open>Assets\<close>

record AssetRecord =
  rc_AssetID :: string
  rc_MasterPlaylistPath :: string
  rc_ContentHash :: string
  rc_FileCount :: int
  rc_TotalSizeBytes :: int
  rc_LastScannedAt :: instant

text \<open>The upsert statement: a conflict keeps the creation time of the row that is there.\<close>

definition upsert_asset :: "string \<Rightarrow> AssetRecord \<Rightarrow> database \<Rightarrow> database" where
  "upsert_asset nowStr a db =
     (let fresh = \<lparr>at_status = ''active'', at_master_playlist_path = rc_MasterPlaylistPath a, at_content_hash = rc_ContentHash a,
            at_file_count = rc_FileCount a, at_total_size_bytes = rc_TotalSizeBytes a,
            at_last_scanned_at = Format (rc_LastScannedAt a), at_created_at = nowStr, at_updated_at = nowStr, at_missing_at = None\<rparr>;
          row = (case map_of (tb_assets db) (rc_AssetID a) of
                   None \<Rightarrow> fresh | Some old \<Rightarrow> fresh\<lparr>at_created_at := at_created_at old\<rparr>)
      in db\<lparr>tb_assets := AList.update (rc_AssetID a) row (tb_assets db)\<rparr>)"

fun upsert_loop :: "faults \<Rightarrow> nat \<Rightarrow> string \<Rightarrow> AssetRecord list \<Rightarrow> database \<Rightarrow> (string, database) result" where
  "upsert_loop fault k nowStr [] db = Ok db"
| "upsert_loop fault k nowStr (a # as) db =
     (if fault k then Err ''upsert asset'' else upsert_loop fault (Suc k) nowStr as (upsert_asset nowStr a db))"

text \<open>Statement 0 is BEGIN, statements 1 to n the upserts, statement n + 1 COMMIT. An error rolls back.\<close>

definition UpsertAssets :: "faults \<Rightarrow> AssetRecord list \<Rightarrow> instant \<Rightarrow> database \<Rightarrow> (string, unit) result \<times> database" where
  "UpsertAssets fault assets now db =
     (if fault 0 then (Err ''begin upsert tx'', db)
      else case upsert_loop fault 1 (Format now) assets db of
        Inl e \<Rightarrow> (Err e, db)
      | Inr db' \<Rightarrow> if fault (Suc (length assets)) then (Err ''commit upsert tx'', db) else (Ok (), db'))"

definition mark_rows :: "(string \<Rightarrow> asset_row \<Rightarrow> bool) \<Rightarrow> string \<Rightarrow> database \<Rightarrow> database" where
  "mark_rows P nowStr db =
     db\<lparr>tb_assets := map (\<lambda>(a, r). if P a r then (a, r\<lparr>at_status := ''missing'', at_missing_at := Some nowStr, at_updated_at := nowStr\<rparr>)
                                 else (a, r)) (tb_assets db)\<rparr>"

text \<open>Statement 0 is the update, statement 1 the question how many rows it changed.\<close>

definition MarkMissing :: "faults \<Rightarrow> string list \<Rightarrow> instant \<Rightarrow> database \<Rightarrow> (string, int) result \<times> database" where
  "MarkMissing fault seen now db =
     (let nowStr = Format now;
          P = (if seen = [] then (\<lambda>a r. at_status r \<noteq> ''missing'')
               else (\<lambda>a r. at_status r \<noteq> ''missing'' \<and> a \<notin> set seen));
          rows = int (length (filter (\<lambda>(a, r). P a r) (tb_assets db)))
      in if fault 0 then (Err ''mark missing'', db)
         else if fault 1 then (Err ''rows affected missing'', mark_rows P nowStr db)
         else (Ok rows, mark_rows P nowStr db))"

definition count_status :: "string \<Rightarrow> database \<Rightarrow> int" where
  "count_status st db = int (length (filter (\<lambda>(a, r). at_status r = st) (tb_assets db)))"

definition CountActive :: "faults \<Rightarrow> database \<Rightarrow> (string, int) result" where
  "CountActive fault db = (if fault 0 then Err ''count active assets'' else Ok (count_status ''active'' db))"

definition CountMissing :: "faults \<Rightarrow> database \<Rightarrow> (string, int) result" where
  "CountMissing fault db = (if fault 0 then Err ''count missing assets'' else Ok (count_status ''missing'' db))"

definition ListActiveAssetIDs :: "faults \<Rightarrow> database \<Rightarrow> (string, string list) result" where
  "ListActiveAssetIDs fault db =
     (if fault 0 then Err ''query active assets''
      else Ok (sort (map fst (filter (\<lambda>(a, r). at_status r = ''active'') (tb_assets db)))))"

section \<open>Announcements\<close>

record AnnouncementRow =
  aw_AssetID :: string
  aw_LastAnnouncedAt :: instant
  aw_ExpiresAt :: instant
  aw_Status :: string
  aw_CreatedAt :: instant
  aw_UpdatedAt :: instant

definition time_text :: "instant \<Rightarrow> string" where
  "time_text t = (if IsZero t then [] else Format t)"

definition UpsertAnnouncementStatus ::
  "bool \<Rightarrow> bool \<Rightarrow> string \<Rightarrow> instant \<Rightarrow> instant \<Rightarrow> string \<Rightarrow> instant \<Rightarrow> database \<Rightarrow> (string, unit) result \<times> database" where
  "UpsertAnnouncementStatus fk fault assetID lastAnnouncedAt expiresAt status now db =
     (let nowStr = Format now;
          fresh = \<lparr>nt_last_announced_at = Some (time_text lastAnnouncedAt), nt_expires_at = Some (time_text expiresAt),
            nt_status = status, nt_created_at = nowStr, nt_updated_at = nowStr\<rparr>;
          row = (case map_of (tb_announcements db) assetID of
                   None \<Rightarrow> fresh | Some old \<Rightarrow> fresh\<lparr>nt_created_at := nt_created_at old\<rparr>)
      in if fault \<or> fk \<and> map_of (tb_announcements db) assetID = None \<and> map_of (tb_assets db) assetID = None
         then (Err ''upsert announcement status'', db)
         else (Ok (), db\<lparr>tb_announcements := AList.update assetID row (tb_announcements db)\<rparr>))"

text \<open>A NULL column cannot be scanned into a Go string: the query fails.\<close>

definition GetAnnouncement :: "bool \<Rightarrow> string \<Rightarrow> database \<Rightarrow> (string, AnnouncementRow option) result" where
  "GetAnnouncement fault assetID db =
     (if fault then Err ''query announcement''
      else case map_of (tb_announcements db) assetID of
        None \<Rightarrow> Ok None
      | Some r \<Rightarrow>
          (case (nt_last_announced_at r, nt_expires_at r) of
             (Some lastAnnounced, Some expires) \<Rightarrow>
               (let required = (\<lambda>s. if s = [] then Some zero_time else Parse s);
                    lenient = (\<lambda>s. if s = [] then zero_time else case Parse s of None \<Rightarrow> zero_time | Some t \<Rightarrow> t)
                in case required lastAnnounced of
                     None \<Rightarrow> Err ''parse last_announced_at''
                   | Some la \<Rightarrow>
                       (case required expires of
                          None \<Rightarrow> Err ''parse expires_at''
                        | Some ex \<Rightarrow>
                            Ok (Some \<lparr>aw_AssetID = assetID, aw_LastAnnouncedAt = la, aw_ExpiresAt = ex, aw_Status = nt_status r,
                              aw_CreatedAt = lenient (nt_created_at r), aw_UpdatedAt = lenient (nt_updated_at r)\<rparr>)))
           | _ \<Rightarrow> Err ''query announcement''))"

definition expired_row :: "string \<Rightarrow> announcement_row \<Rightarrow> bool" where
  "expired_row cutoff r \<longleftrightarrow> nt_status r \<noteq> ''expired'' \<and>
     (case nt_expires_at r of None \<Rightarrow> False | Some e \<Rightarrow> e \<noteq> [] \<and> e < cutoff)"

definition MarkExpiredBefore :: "faults \<Rightarrow> int \<Rightarrow> instant \<Rightarrow> database \<Rightarrow> (string, int) result \<times> database" where
  "MarkExpiredBefore fault cutoffUnix timeNow db =
     (let cutoff = Format (from_Unix cutoffUnix); nowStr = Format timeNow;
          rows = int (length (filter (\<lambda>(a, r). expired_row cutoff r) (tb_announcements db)));
          db' = db\<lparr>tb_announcements := map (\<lambda>(a, r). if expired_row cutoff r
             then (a, r\<lparr>nt_status := ''expired'', nt_updated_at := nowStr\<rparr>) else (a, r)) (tb_announcements db)\<rparr>
      in if fault 0 then (Err ''mark expired announcements'', db)
         else if fault 1 then (Err ''rows affected expired announcements'', db')
         else (Ok rows, db'))"

section \<open>Lookup lemmas\<close>

abbreviation asset :: "database \<Rightarrow> string \<Rightarrow> asset_row option" where
  "asset db a \<equiv> map_of (tb_assets db) a"

abbreviation announcement :: "database \<Rightarrow> string \<Rightarrow> announcement_row option" where
  "announcement db a \<equiv> map_of (tb_announcements db) a"

lemma map_of_map_rows:
  "map_of (map (\<lambda>(a, r). if P a r then (a, f r) else (a, r)) xs) k =
     map_option (\<lambda>r. if P k r then f r else r) (map_of xs k)"
  by (induction xs) auto

lemma fst_map_rows: "map fst (map (\<lambda>(a, r). if P a r then (a, f r) else (a, r)) xs) = map fst xs"
  by (induction xs) auto

lemma mark_rows_asset:
  "asset (mark_rows P n db) k = map_option
     (\<lambda>r. if P k r then r\<lparr>at_status := ''missing'', at_missing_at := Some n, at_updated_at := n\<rparr> else r) (asset db k)"
  by (simp add: mark_rows_def map_of_map_rows)

lemma mark_rows_inv [inv_intros]: "db_inv db \<Longrightarrow> db_inv (mark_rows P n db)"
  unfolding db_inv_def mark_rows_def by (auto simp: fst_map_rows simp del: map_map split: if_splits)

lemma mark_rows_announcements [simp, frame]: "tb_announcements (mark_rows P n db) = tb_announcements db"
  by (simp add: mark_rows_def)

definition row_for :: "string \<Rightarrow> AssetRecord \<Rightarrow> asset_row option \<Rightarrow> asset_row" where
  "row_for nowStr a old =
     \<lparr>at_status = ''active'', at_master_playlist_path = rc_MasterPlaylistPath a, at_content_hash = rc_ContentHash a,
      at_file_count = rc_FileCount a, at_total_size_bytes = rc_TotalSizeBytes a,
      at_last_scanned_at = Format (rc_LastScannedAt a),
      at_created_at = (case old of None \<Rightarrow> nowStr | Some r \<Rightarrow> at_created_at r),
      at_updated_at = nowStr, at_missing_at = None\<rparr>"

lemma upsert_asset_lookup:
  "asset (upsert_asset n a db) k = (if k = rc_AssetID a then Some (row_for n a (asset db k)) else asset db k)"
  by (auto simp: upsert_asset_def row_for_def Let_def update_conv' split: option.split)

lemma upsert_asset_announcements [simp, frame]: "tb_announcements (upsert_asset n a db) = tb_announcements db"
  by (simp add: upsert_asset_def Let_def)

lemma upsert_asset_inv [inv_intros]: "db_inv db \<Longrightarrow> db_inv (upsert_asset n a db)"
proof -
  assume inv: "db_inv db"
  have "set (AList.update k v al) \<subseteq> insert (k, v) (set al)" for k :: string and v :: asset_row and al
    by (induction al) auto
  then show ?thesis using inv
    by (fastforce simp: db_inv_def upsert_asset_def Let_def distinct_update split: option.splits)
qed

lemma upsert_loop_Ok: "upsert_loop fault k n as db = Ok db' \<Longrightarrow> db' = fold (upsert_asset n) as db"
  by (induction as arbitrary: k db) (auto split: if_splits)

lemma fold_upsert_inv: "db_inv db \<Longrightarrow> db_inv (fold (upsert_asset n) as db)"
  by (induction as arbitrary: db) (auto intro: upsert_asset_inv)

lemma fold_upsert_announcements [simp]: "tb_announcements (fold (upsert_asset n) as db) = tb_announcements db"
  by (induction as arbitrary: db) auto

lemma fold_upsert_other: "k \<notin> rc_AssetID ` set as \<Longrightarrow> asset (fold (upsert_asset n) as db) k = asset db k"
  by (induction as arbitrary: db) (auto simp: upsert_asset_lookup)

lemma fold_upsert_lookup:
  "distinct (map rc_AssetID as) \<Longrightarrow> a \<in> set as \<Longrightarrow>
   asset (fold (upsert_asset n) as db) (rc_AssetID a) = Some (row_for n a (asset db (rc_AssetID a)))"
proof (induction as arbitrary: db)
  case (Cons b as)
  show ?case
  proof (cases "a = b")
    case True
    then have "rc_AssetID a \<notin> rc_AssetID ` set as" using Cons.prems by auto
    then show ?thesis using True by (simp add: fold_upsert_other upsert_asset_lookup)
  next
    case False
    then have "rc_AssetID a \<noteq> rc_AssetID b" using Cons.prems by (auto simp: image_iff)
    then show ?thesis using Cons False by (simp add: upsert_asset_lookup)
  qed
qed simp

section \<open>The announcement store as an interface\<close>

text \<open>
  What the announcement sweep relies on: a status that was stored for a known asset is read back, with its expiry to the second, and the
  records of other assets are untouched.
\<close>

locale announcement_store =
  fixes put :: "string \<Rightarrow> instant \<Rightarrow> instant \<Rightarrow> string \<Rightarrow> instant \<Rightarrow> 'db \<Rightarrow> 'db"
    and get :: "string \<Rightarrow> 'db \<Rightarrow> (string, AnnouncementRow option) result"
    and known :: "string \<Rightarrow> 'db \<Rightarrow> bool"
  assumes get_put: "known a db \<Longrightarrow> rfc_range la \<Longrightarrow> rfc_range ex \<Longrightarrow>
        \<exists>row. get a (put a la ex st now db) = Ok (Some row) \<and> aw_Status row = st \<and> aw_ExpiresAt row = from_Unix (Unix ex)"
    and get_put_other: "a' \<noteq> a \<Longrightarrow> get a' (put a la ex st now db) = get a' db"
    and known_put: "known a' (put a la ex st now db) = known a' db"
begin

lemma get_after_puts:
  "a \<notin> fst ` set ps \<Longrightarrow> get a (foldr (\<lambda>(k, la, ex, st, now). put k la ex st now) ps db) = get a db"
  by (induction ps) (auto simp: get_put_other)

end

lemma Parse_time_text:
  "rfc_range t \<Longrightarrow> (if time_text t = [] then Some zero_time else Parse (time_text t)) = Some (from_Unix (Unix t))"
proof -
  assume r: "rfc_range t"
  show ?thesis
  proof (cases "IsZero t")
    case True
    then have "from_Unix (Unix t) = zero_time" by (simp add: IsZero_def zero_time_def from_Unix_def Unix_def)
    with True show ?thesis by (simp add: time_text_def)
  next
    case False
    then show ?thesis using r Format_not_Nil [of t] by (simp add: time_text_def Parse_Format)
  qed
qed

lemma stored_announcement:
  assumes "announcement db a \<noteq> None \<or> asset db a \<noteq> None"
  shows "\<exists>created. announcement (snd (UpsertAnnouncementStatus fk False a la ex st now db)) a =
     Some \<lparr>nt_last_announced_at = Some (time_text la), nt_expires_at = Some (time_text ex), nt_status = st,
           nt_created_at = created, nt_updated_at = Format now\<rparr>"
  using assms by (cases "announcement db a") (auto simp: UpsertAnnouncementStatus_def Let_def update_conv')

lemma upsert_then_get:
  assumes "announcement db a \<noteq> None \<or> asset db a \<noteq> None" "rfc_range la" "rfc_range ex"
  shows "\<exists>row. GetAnnouncement False a (snd (UpsertAnnouncementStatus fk False a la ex st now db)) = Ok (Some row) \<and>
     aw_AssetID row = a \<and> aw_Status row = st \<and> aw_LastAnnouncedAt row = from_Unix (Unix la) \<and>
     aw_ExpiresAt row = from_Unix (Unix ex)"
proof -
  obtain created where "announcement (snd (UpsertAnnouncementStatus fk False a la ex st now db)) a =
     Some \<lparr>nt_last_announced_at = Some (time_text la), nt_expires_at = Some (time_text ex), nt_status = st,
           nt_created_at = created, nt_updated_at = Format now\<rparr>"
    using stored_announcement [OF assms(1)] by blast
  then show ?thesis
    using Parse_time_text [OF assms(2)] Parse_time_text [OF assms(3)] by (simp add: GetAnnouncement_def Let_def)
qed

lemma upsert_announcement_other:
  "a' \<noteq> a \<Longrightarrow> announcement (snd (UpsertAnnouncementStatus fk f a la ex st now db)) a' = announcement db a'"
  by (auto simp: UpsertAnnouncementStatus_def Let_def update_conv')

lemma upsert_announcement_assets [simp, frame]:
  "tb_assets (snd (UpsertAnnouncementStatus fk f a la ex st now db)) = tb_assets db"
  by (simp add: UpsertAnnouncementStatus_def Let_def)

interpretation sqlite: announcement_store
  "\<lambda>a la ex st now db. snd (UpsertAnnouncementStatus fk False a la ex st now db)"
  "GetAnnouncement False" "\<lambda>a db. asset db a \<noteq> None" for fk
proof unfold_locales
  fix a db la ex st now
  assume "asset db a \<noteq> None" "rfc_range la" "rfc_range ex"
  then show "\<exists>row. GetAnnouncement False a (snd (UpsertAnnouncementStatus fk False a la ex st now db)) = Ok (Some row) \<and>
      aw_Status row = st \<and> aw_ExpiresAt row = from_Unix (Unix ex)"
    using upsert_then_get [of db a la ex fk st now] by blast
next
  fix a' a :: string and la ex st now db
  assume "a' \<noteq> a"
  then show "GetAnnouncement False a' (snd (UpsertAnnouncementStatus fk False a la ex st now db)) = GetAnnouncement False a' db"
    by (simp add: GetAnnouncement_def upsert_announcement_other)
qed simp

section \<open>Properties\<close>

text \<open>Storing a scan is all or nothing: on any database error nothing has changed; on success each scanned asset is active with its
  data, keeps the creation time of a row that was there, and no other asset and no announcement is touched.\<close>

theorem upsert_assets_atomic:
  assumes "UpsertAssets fault as now db = (r, db')" "distinct (map rc_AssetID as)"
  shows "(r \<noteq> Ok () \<longrightarrow> db' = db) \<and>
    (r = Ok () \<longrightarrow>
       (\<forall>a. a \<in> set as \<longrightarrow> asset db' (rc_AssetID a) = Some (row_for (Format now) a (asset db (rc_AssetID a)))) \<and>
       (\<forall>k. k \<notin> rc_AssetID ` set as \<longrightarrow> asset db' k = asset db k) \<and>
       tb_announcements db' = tb_announcements db \<and> (db_inv db \<longrightarrow> db_inv db'))"
proof (cases "r = Ok ()")
  case True
  then have "upsert_loop fault 1 (Format now) as db = Ok db'"
    using assms(1) by (auto simp: UpsertAssets_def split: if_splits sum.splits)
  then have "db' = fold (upsert_asset (Format now)) as db" by (rule upsert_loop_Ok)
  with True show ?thesis using assms(2) by (simp add: fold_upsert_lookup fold_upsert_other fold_upsert_inv)
next
  case False
  then show ?thesis using assms(1) by (auto simp: UpsertAssets_def split: if_splits sum.splits)
qed

text \<open>C32. An announcement status that was stored is read back: the status, and announcement and expiry time to the second, also for the zero time,
  which is stored as an empty text.\<close>

theorem announcement_roundtrip:
  assumes "UpsertAnnouncementStatus fk fault a la ex st now db = (Ok (), db')" "rfc_range la" "rfc_range ex"
  shows "\<exists>row. GetAnnouncement False a db' = Ok (Some row) \<and> aw_AssetID row = a \<and> aw_Status row = st \<and>
     aw_LastAnnouncedAt row = from_Unix (Unix la) \<and> aw_ExpiresAt row = from_Unix (Unix ex)"
proof -
  have f: "\<not> fault" "db' = snd (UpsertAnnouncementStatus False False a la ex st now db)"
    using assms(1) by (auto simp: UpsertAnnouncementStatus_def Let_def split: if_splits)
  have "announcement db' a = Some ((case announcement db a of None \<Rightarrow> id | Some old \<Rightarrow> (\<lambda>r. r\<lparr>nt_created_at := nt_created_at old\<rparr>))
     \<lparr>nt_last_announced_at = Some (time_text la), nt_expires_at = Some (time_text ex), nt_status = st,
      nt_created_at = Format now, nt_updated_at = Format now\<rparr>)"
    unfolding f(2) by (auto simp: UpsertAnnouncementStatus_def Let_def update_conv' split: option.split)
  then show ?thesis
    using Parse_time_text [OF assms(2)] Parse_time_text [OF assms(3)]
    by (cases "announcement db a") (simp_all add: GetAnnouncement_def Let_def)
qed

text \<open>Expiry by comparing texts is expiry by time: among the announcements with a stored expiry time, those marked are exactly the ones that were not
  expired and whose expiry lies before the cutoff, and the count returned is their number; announcements without an expiry
  time are never marked.\<close>

theorem mark_expired_exact:
  assumes "MarkExpiredBefore fault limit now db = (Ok n, db')" "rfc_range (from_Unix limit)"
  shows "n = int (length (filter (\<lambda>(a, r). expired_row (Format (from_Unix limit)) r) (tb_announcements db))) \<and>
    (rfc_range ex \<and> announcement db a = Some r \<and> nt_expires_at r = Some (Format ex) \<longrightarrow>
       (\<exists>r'. announcement db' a = Some r' \<and>
          nt_status r' = (if Unix ex < limit then ''expired'' else nt_status r) \<and> nt_expires_at r' = nt_expires_at r)) \<and>
    (announcement db a = Some r \<and> nt_expires_at r \<in> {None, Some []} \<longrightarrow> announcement db' a = Some r)"
proof -
  have db': "announcement db' a = map_option (\<lambda>r. if expired_row (Format (from_Unix limit)) r
      then r\<lparr>nt_status := ''expired'', nt_updated_at := Format now\<rparr> else r) (announcement db a)" for a
    using assms(1) by (auto simp: MarkExpiredBefore_def Let_def map_of_map_rows split: if_splits)
  have "rfc_range ex \<Longrightarrow> nt_expires_at r = Some (Format ex) \<Longrightarrow>
      expired_row (Format (from_Unix limit)) r \<longleftrightarrow> nt_status r \<noteq> ''expired'' \<and> Unix ex < limit"
    using Format_less [OF _ assms(2), of ex] Format_not_Nil by (simp add: expired_row_def)
  moreover have "nt_expires_at r \<in> {None, Some []} \<Longrightarrow> \<not> expired_row (Format (from_Unix limit)) r"
    by (auto simp: expired_row_def)
  moreover have "n = int (length (filter (\<lambda>(a, r). expired_row (Format (from_Unix limit)) r) (tb_announcements db)))"
    using assms(1) by (auto simp: MarkExpiredBefore_def Let_def split: if_splits)
  ultimately show ?thesis by (auto simp: db')
qed

section \<open>A concrete database\<close>

definition demo_record :: AssetRecord where
  "demo_record = \<lparr>rc_AssetID = ''a1'', rc_MasterPlaylistPath = ''a1/master.m3u8'', rc_ContentHash = ''00'', rc_FileCount = 2,
     rc_TotalSizeBytes = 6, rc_LastScannedAt = 0\<rparr>"

definition empty_db :: database where
  "empty_db = \<lparr>tb_assets = [], tb_announcements = []\<rparr>"

definition demo_db :: database where
  "demo_db = upsert_asset (Format 0) demo_record empty_db"

lemma demo_upsert: "UpsertAssets (\<lambda>_. False) [demo_record] 0 empty_db = (Ok (), demo_db)"
  by (simp add: UpsertAssets_def demo_db_def)

theorem upsert_assets_atomic_witness: "asset demo_db ''a1'' = Some (row_for (Format 0) demo_record None)"
  using upsert_assets_atomic [OF demo_upsert] by (simp add: demo_record_def empty_db_def)

definition demo_db2 :: database where
  "demo_db2 = snd (UpsertAnnouncementStatus True False ''a1'' 0 (7 * nanos) ''ok'' 0 demo_db)"

lemma demo_announced: "UpsertAnnouncementStatus True False ''a1'' 0 (7 * nanos) ''ok'' 0 demo_db = (Ok (), demo_db2)"
  by (simp add: demo_db2_def UpsertAnnouncementStatus_def demo_db_def upsert_asset_lookup demo_record_def Let_def)

theorem announcement_roundtrip_witness:
  "\<exists>row. GetAnnouncement False ''a1'' demo_db2 = Ok (Some row) \<and> aw_Status row = ''ok'' \<and> aw_ExpiresAt row = 7 * nanos"
  using announcement_roundtrip [OF demo_announced]
  by (simp add: rfc_range_def Unix_def from_Unix_def) blast

theorem mark_expired_exact_witness:
  "\<exists>r'. announcement (snd (MarkExpiredBefore (\<lambda>_. False) 8 0 demo_db2)) ''a1'' = Some r' \<and> nt_status r' = ''expired''"
proof -
  have shown: "time_text (7 * nanos) = Format (7 * nanos)" by (simp add: time_text_def IsZero_def zero_time_def)
  obtain r where row: "announcement demo_db2 ''a1'' = Some r" "nt_expires_at r = Some (Format (7 * nanos))"
    using stored_announcement [of demo_db "''a1''" True 0 "7 * nanos" "''ok''" 0] shown
    by (auto simp: demo_db2_def demo_db_def upsert_asset_lookup demo_record_def)
  obtain n where run: "MarkExpiredBefore (\<lambda>_. False) 8 0 demo_db2 = (Ok n, snd (MarkExpiredBefore (\<lambda>_. False) 8 0 demo_db2))"
    by (simp add: MarkExpiredBefore_def Let_def)
  show ?thesis
    using mark_expired_exact [OF run, of "7 * nanos" "''a1''" r] row
    by (auto simp: rfc_range_def Unix_def from_Unix_def)
qed

end
