(* ===== verification/Go_Netip.thy ===== *)
theory Go_Netip
  imports Go_Strings "HOL-Library.Word"
begin

text \<open>
  The part of packages \<open>net\<close> and \<open>net/netip\<close> behind \<open>net.ParseIP\<close>, \<open>net.ParseCIDR\<close> and \<open>IPNet.Contains\<close>. An address is a list
  of four or sixteen bytes. Addresses with a zone are refused by both parsers and so have no representation. The lemmas
  say that the byte-wise masks compare address prefixes bit by bit.
\<close>

unbundle bit_operations_syntax

type_synonym ip = "8 word list"

datatype addr = Addr4 ip | Addr6 ip

section \<open>Parsing\<close>

definition octet :: "string \<Rightarrow> bool" where
  "octet s \<longleftrightarrow> s \<noteq> [] \<and> list_all is_digit s \<and> (hd s \<noteq> CHR ''0'' \<or> length s = 1) \<and> dec_val 0 s \<le> 255"

definition parseIPv4 :: "string \<Rightarrow> ip option" where
  "parseIPv4 s =
     (let fs = Split s CHR ''.''
      in if length fs = 4 \<and> list_all octet fs then Some (map (\<lambda>f. of_nat (dec_val 0 f)) fs) else None)"

definition group_bytes :: "string \<Rightarrow> ip" where
  "group_bytes ds =
     (let v = foldl (\<lambda>a c. 16 * a + (case hex_val c of None \<Rightarrow> 0 | Some d \<Rightarrow> d)) 0 ds
      in [of_nat (v div 256), of_nat (v mod 256)])"

text \<open>The loop over the groups: bytes read so far, position of the ellipsis, rest of the text. At most eight groups fit.\<close>

fun v6_groups :: "nat \<Rightarrow> ip \<Rightarrow> nat option \<Rightarrow> string \<Rightarrow> (ip \<times> nat option) option" where
  "v6_groups 0 acc e s = (if s = [] then Some (acc, e) else None)"
| "v6_groups (Suc n) acc e s =
     (let ds = takeWhile (\<lambda>c. hex_val c \<noteq> None) s; rest = drop (length ds) s
      in if ds = [] \<or> 4 < length ds then None
         else if rest \<noteq> [] \<and> hd rest = CHR ''.'' then
           (if e = None \<and> length acc \<noteq> 12 \<or> 16 < length acc + 4 then None
            else case parseIPv4 s of None \<Rightarrow> None | Some b \<Rightarrow> Some (acc @ b, e))
         else
           (let acc' = acc @ group_bytes ds
            in case rest of
                 [] \<Rightarrow> Some (acc', e)
               | c # s1 \<Rightarrow>
                   if c \<noteq> CHR '':'' \<or> s1 = [] then None
                   else if hd s1 \<noteq> CHR '':'' then v6_groups n acc' e s1
                   else if e \<noteq> None then None
                   else if tl s1 = [] then Some (acc', Some (length acc'))
                   else v6_groups n acc' (Some (length acc')) (tl s1)))"

definition expand_ellipsis :: "ip \<times> nat option \<Rightarrow> ip option" where
  "expand_ellipsis p =
     (case p of (acc, e) \<Rightarrow>
        if length acc < 16
        then (case e of None \<Rightarrow> None | Some k \<Rightarrow> Some (take k acc @ replicate (16 - length acc) 0 @ drop k acc))
        else if e \<noteq> None then None else Some acc)"

definition parseIPv6 :: "string \<Rightarrow> ip option" where
  "parseIPv6 s =
     (if HasPrefix s ''::''
      then (let s' = drop 2 s
            in if s' = [] then Some (replicate 16 0) else Option.bind (v6_groups 8 [] (Some 0) s') expand_ellipsis)
      else Option.bind (v6_groups 8 [] None s) expand_ellipsis)"

definition ParseAddr :: "string \<Rightarrow> addr option" where
  "ParseAddr s =
     (if CHR ''%'' \<in> set s then None
      else case find (\<lambda>c. c = CHR ''.'' \<or> c = CHR '':'') s of
        None \<Rightarrow> None
      | Some c \<Rightarrow> if c = CHR ''.'' then map_option Addr4 (parseIPv4 s) else map_option Addr6 (parseIPv6 s))"

definition v4InV6Prefix :: ip where
  "v4InV6Prefix = replicate 10 0 @ [0xff, 0xff]"

definition As16 :: "addr \<Rightarrow> ip" where
  "As16 a = (case a of Addr4 b \<Rightarrow> v4InV6Prefix @ b | Addr6 b \<Rightarrow> b)"

definition ParseIP :: "string \<Rightarrow> ip option" where
  "ParseIP s = map_option As16 (ParseAddr s)"

section \<open>Networks\<close>

definition To4 :: "ip \<Rightarrow> ip option" where
  "To4 ip = (if length ip = 4 then Some ip else if length ip = 16 \<and> take 12 ip = v4InV6Prefix then Some (drop 12 ip) else None)"

fun mask_bytes :: "nat \<Rightarrow> nat \<Rightarrow> ip" where
  "mask_bytes 0 n = []"
| "mask_bytes (Suc l) n = (if 8 \<le> n then 0xff # mask_bytes l (n - 8) else NOT (drop_bit n 0xff) # mask_bytes l 0)"

definition CIDRMask :: "nat \<Rightarrow> nat \<Rightarrow> ip" where
  "CIDRMask ones bits = mask_bytes (bits div 8) ones"

definition and_mask :: "ip \<Rightarrow> ip \<Rightarrow> ip" where
  "and_mask ip m = map2 (\<lambda>a b. a AND b) ip m"

record IPNet =
  nt_IP :: ip
  nt_Mask :: ip

text \<open>The network of an address and a prefix length; an IPv4 address is masked in its four-byte form.\<close>

definition cidr_net :: "addr \<Rightarrow> nat \<Rightarrow> IPNet" where
  "cidr_net a n =
     (case a of
        Addr4 b \<Rightarrow> \<lparr>nt_IP = and_mask b (CIDRMask n 32), nt_Mask = CIDRMask n 32\<rparr>
      | Addr6 b \<Rightarrow> \<lparr>nt_IP = and_mask b (CIDRMask n 128), nt_Mask = CIDRMask n 128\<rparr>)"

definition BitLen :: "addr \<Rightarrow> nat" where
  "BitLen a = (case a of Addr4 _ \<Rightarrow> 32 | Addr6 _ \<Rightarrow> 128)"

definition ParseCIDR :: "string \<Rightarrow> IPNet option" where
  "ParseCIDR s =
     (let addr = takeWhile (\<lambda>c. c \<noteq> CHR ''/'') s; mask = drop (Suc (length addr)) s
      in if CHR ''/'' \<notin> set s then None
         else case ParseAddr addr of
           None \<Rightarrow> None
         | Some a \<Rightarrow>
             if mask = [] \<or> \<not> list_all is_digit mask \<or> BitLen a < dec_val 0 mask then None
             else Some (cidr_net a (dec_val 0 mask)))"

definition networkNumberAndMask :: "IPNet \<Rightarrow> (ip \<times> ip) option" where
  "networkNumberAndMask n =
     (let number = (case To4 (nt_IP n) of Some x \<Rightarrow> x | None \<Rightarrow> nt_IP n)
      in if length number \<noteq> 4 \<and> length number \<noteq> 16 then None
         else if length (nt_Mask n) = 4 then (if length number \<noteq> 4 then None else Some (number, nt_Mask n))
         else if length (nt_Mask n) = 16 then Some (number, if length number = 4 then drop 12 (nt_Mask n) else nt_Mask n)
         else None)"

definition IPNet_Contains :: "IPNet \<Rightarrow> ip \<Rightarrow> bool" where
  "IPNet_Contains n ip =
     (case networkNumberAndMask n of
        None \<Rightarrow> ip = []
      | Some (nn, m) \<Rightarrow>
          (let x = (case To4 ip of Some y \<Rightarrow> y | None \<Rightarrow> ip)
           in length x = length nn \<and> and_mask nn m = and_mask x m))"

section \<open>Masks compare prefixes\<close>

definition byte_bits :: "8 word \<Rightarrow> bool list" where
  "byte_bits w = map (bit w) [7, 6, 5, 4, 3, 2, 1, 0]"

definition bits :: "ip \<Rightarrow> bool list" where
  "bits ip = concat (map byte_bits ip)"

lemma byte_bits_length [simp]: "length (byte_bits w) = 8"
  by (simp add: byte_bits_def)

lemma bits_Cons [simp]: "bits (a # as) = byte_bits a @ bits as" "bits [] = []"
  by (simp_all add: bits_def)

lemma byte_bits_inject: "byte_bits a = byte_bits b \<longleftrightarrow> a = b"
proof
  assume "byte_bits a = byte_bits b"
  then have "bit a n = bit b n" if "n < 8" for n
    using that by (simp add: byte_bits_def less_Suc_eq numeral_eq_Suc) auto
  then show "a = b" by (intro bit_word_eqI) simp
qed simp

lemma take_byte_bits: "n \<le> 8 \<Longrightarrow> take n (byte_bits w) = map (\<lambda>i. bit w (7 - i)) [0..<n]"
proof -
  assume "n \<le> 8"
  have "byte_bits w = map (\<lambda>i. bit w (7 - i)) [0..<8]" by (simp add: byte_bits_def upt_rec numeral_eq_Suc)
  then show ?thesis using \<open>n \<le> 8\<close> by (simp add: take_map)
qed

text \<open>One partial mask byte keeps the high bits.\<close>

lemma mask_byte_eq:
  fixes a b :: "8 word"
  assumes "n < 8"
  shows "a AND NOT (drop_bit n 0xff) = b AND NOT (drop_bit n 0xff) \<longleftrightarrow> take n (byte_bits a) = take n (byte_bits b)"
proof -
  have ff: "(0xff :: 8 word) = mask 8" by (simp add: mask_eq_exp_minus_1)
  have m: "bit (NOT (drop_bit n (0xff :: 8 word))) i \<longleftrightarrow> 8 - n \<le> i \<and> i < 8" for i
    unfolding ff using assms by (auto simp: bit_simps)
  have "a AND NOT (drop_bit n 0xff) = b AND NOT (drop_bit n 0xff) \<longleftrightarrow> (\<forall>i. 8 - n \<le> i \<and> i < 8 \<longrightarrow> bit a i = bit b i)"
    unfolding bit_eq_iff bit_and_iff m by (auto simp: bit_imp_le_length)
  also have "\<dots> \<longleftrightarrow> (\<forall>i < n. bit a (7 - i) = bit b (7 - i))"
  proof
    assume h: "\<forall>i < n. bit a (7 - i) = bit b (7 - i)"
    show "\<forall>i. 8 - n \<le> i \<and> i < 8 \<longrightarrow> bit a i = bit b i"
    proof (intro allI impI)
      fix i assume "8 - n \<le> i \<and> i < 8"
      then have "7 - i < n" "7 - (7 - i) = i" by linarith+
      then show "bit a i = bit b i" using h by metis
    qed
  next
    assume h: "\<forall>i. 8 - n \<le> i \<and> i < 8 \<longrightarrow> bit a i = bit b i"
    show "\<forall>i < n. bit a (7 - i) = bit b (7 - i)"
    proof (intro allI impI)
      fix i assume "i < n"
      then have "8 - n \<le> 7 - i \<and> 7 - i < 8" using assms by linarith
      then show "bit a (7 - i) = bit b (7 - i)" using h by blast
    qed
  qed
  finally show ?thesis using assms by (auto simp: take_byte_bits)
qed

lemma and_mask_Cons [simp]: "and_mask (a # as) (m # ms) = (a AND m) # and_mask as ms" "and_mask [] ms = []"
  by (simp_all add: and_mask_def)

lemma and_mask_length [simp]: "length (and_mask as ms) = min (length as) (length ms)"
  by (simp add: and_mask_def)

lemma mask_bytes_length [simp]: "length (mask_bytes l n) = l"
  by (induction l n rule: mask_bytes.induct) simp_all

lemma mask_bytes_drop: "drop k (mask_bytes (k + l) n) = mask_bytes l (n - 8 * k)"
proof (induction k arbitrary: n)
  case (Suc k)
  show ?case
  proof (cases "8 \<le> n")
    case True
    then have "n - 8 - 8 * k = n - 8 * Suc k" by simp
    then show ?thesis using True Suc.IH [of "n - 8"] by simp
  next
    case False
    then show ?thesis using Suc.IH [of 0] by simp
  qed
qed simp

lemma ff_neutral [simp]: "(a :: 8 word) AND 0xff = a"
proof -
  have "(0xff :: 8 word) = mask 8" by (simp add: mask_eq_exp_minus_1)
  then show ?thesis by (simp add: bit_eq_iff bit_simps bit_imp_le_length)
qed

lemma mask_prefix:
  "length as = l \<Longrightarrow> length bs = l \<Longrightarrow> and_mask as (mask_bytes l n) = and_mask bs (mask_bytes l n) \<longleftrightarrow> take n (bits as) = take n (bits bs)"
proof (induction l n arbitrary: as bs rule: mask_bytes.induct)
  case (2 l n)
  obtain a as' b bs' where l: "as = a # as'" "bs = b # bs'" "length as' = l" "length bs' = l"
    using 2(3,4) by (metis length_Suc_conv)
  show ?case
  proof (cases "8 \<le> n")
    case True
    then show ?thesis using 2(1) [OF True l(3,4)] l by (simp add: byte_bits_inject [symmetric])
  next
    case False
    then show ?thesis using 2(2) [OF False l(3,4)] l mask_byte_eq [of n a b] by simp
  qed
qed simp

lemma and_mask_idem [simp]: "and_mask (and_mask as ms) ms = and_mask as ms"
  by (induction as ms rule: list_induct2') (simp_all add: and_mask_def and.assoc)

section \<open>Membership\<close>

lemma IPNet_Contains_v4:
  assumes "length b = 4" "n \<le> 32"
  shows "IPNet_Contains (cidr_net (Addr4 b) n) ip \<longleftrightarrow> (\<exists>x. To4 ip = Some x \<and> take n (bits x) = take n (bits b))"
proof -
  have len: "length (CIDRMask n 32) = 4" by (simp add: CIDRMask_def)
  have num: "networkNumberAndMask (cidr_net (Addr4 b) n) = Some (and_mask b (CIDRMask n 32), CIDRMask n 32)"
    using assms(1) len by (simp add: networkNumberAndMask_def cidr_net_def To4_def)
  have To4_len: "To4 ip = Some x \<Longrightarrow> length x = 4" for x by (auto simp: To4_def split: if_splits)
  have no4: "To4 ip = None \<Longrightarrow> length ip \<noteq> 4" by (auto simp: To4_def)
  show ?thesis
  proof (cases "To4 ip")
    case (Some x)
    have "and_mask b (mask_bytes 4 n) = and_mask x (mask_bytes 4 n) \<longleftrightarrow> take n (bits b) = take n (bits x)"
      using assms(1) To4_len [OF Some] by (rule mask_prefix)
    then show ?thesis using Some assms(1) To4_len [OF Some] len by (auto simp: IPNet_Contains_def num Let_def CIDRMask_def)
  qed (use no4 assms(1) len in \<open>auto simp: IPNet_Contains_def num Let_def\<close>)
qed

lemma IPNet_Contains_v6:
  assumes "length b = 16" "To4 (and_mask b (CIDRMask n 128)) = None"
  shows "IPNet_Contains (cidr_net (Addr6 b) n) ip \<longleftrightarrow> To4 ip = None \<and> length ip = 16 \<and> take n (bits ip) = take n (bits b)"
proof -
  have len: "length (CIDRMask n 128) = 16" by (simp add: CIDRMask_def)
  have num: "networkNumberAndMask (cidr_net (Addr6 b) n) = Some (and_mask b (CIDRMask n 128), CIDRMask n 128)"
    using assms len by (simp add: networkNumberAndMask_def cidr_net_def)
  have To4_len: "To4 ip = Some x \<Longrightarrow> length x = 4" for x by (auto simp: To4_def split: if_splits)
  show ?thesis
    using mask_prefix [of b 16 ip n] assms(1) To4_len len
    by (cases "To4 ip") (auto simp: IPNet_Contains_def num Let_def CIDRMask_def)
qed

section \<open>The reference: prefixes of sixteen bytes\<close>

lemma bits_append [simp]: "bits (as @ bs) = bits as @ bits bs"
  by (simp add: bits_def)

lemma bits_length [simp]: "length (bits as) = 8 * length as"
  by (induction as) simp_all

lemma bits_inject: "length as = length bs \<Longrightarrow> bits as = bits bs \<longleftrightarrow> as = bs"
  by (induction as bs rule: list_induct2) (simp_all add: byte_bits_inject)

lemma byte_bits_masked:
  assumes "n < 8"
  shows "byte_bits (a AND NOT (drop_bit n 0xff)) = take n (byte_bits a) @ replicate (8 - n) False"
proof -
  have ff: "(0xff :: 8 word) = mask 8" by (simp add: mask_eq_exp_minus_1)
  have all: "byte_bits w = map (\<lambda>i. bit w (7 - i)) [0..<8]" for w using take_byte_bits [of 8 w] by simp
  show ?thesis
    unfolding all ff using assms by (intro nth_equalityI) (auto simp: nth_append bit_simps)
qed

lemma bits_masked: "length b = l \<Longrightarrow> bits (and_mask b (mask_bytes l n)) = take n (bits b) @ replicate (8 * l - n) False"
proof (induction l n arbitrary: b rule: mask_bytes.induct)
  case (2 l n)
  obtain a as where b: "b = a # as" "length as = l" using 2(3) by (metis length_Suc_conv)
  show ?case
  proof (cases "8 \<le> n")
    case True
    then show ?thesis using 2(1) [OF True b(2)] b by simp
  next
    case False
    moreover have "replicate (8 - n) False @ replicate (8 * l) False = replicate (8 + 8 * l - n) False"
      using False by (simp add: replicate_add [symmetric])
    ultimately show ?thesis using 2(2) [OF False b(2)] b by (simp add: byte_bits_masked)
  qed
qed simp

lemma prefix_bits: "length v4InV6Prefix = 12" "bits v4InV6Prefix ! 95"
proof -
  show len: "length v4InV6Prefix = 12" by (simp add: v4InV6Prefix_def)
  show "bits v4InV6Prefix ! 95" by code_simp
qed

lemma take_bits: "take (8 * k) (bits b) = bits (take k b)"
proof (induction b arbitrary: k)
  case (Cons a b)
  show ?case using Cons.IH by (cases k) simp_all
qed simp

lemma To4_masked:
  assumes "length b = 16"
  shows "To4 (and_mask b (CIDRMask n 128)) \<noteq> None \<longleftrightarrow> 96 \<le> n \<and> take 12 b = v4InV6Prefix"
proof -
  let ?m = "and_mask b (mask_bytes 16 n)"
  have len: "length ?m = 16" using assms by simp
  have bm: "bits ?m = take n (bits b) @ replicate (128 - n) False" using bits_masked [OF assms] by simp
  have "take 12 ?m = v4InV6Prefix \<longleftrightarrow> take 96 (bits ?m) = bits v4InV6Prefix"
    using take_bits [of 12 ?m] bits_inject [of "take 12 ?m" v4InV6Prefix] len prefix_bits(1) by simp
  also have "\<dots> \<longleftrightarrow> 96 \<le> n \<and> take 12 b = v4InV6Prefix"
  proof (cases "96 \<le> n")
    case True
    then have "take 96 (bits ?m) = bits (take 12 b)" using take_bits [of 12 b] assms by (simp add: bm min_def)
    then show ?thesis using True bits_inject [of "take 12 b" v4InV6Prefix] assms prefix_bits(1) by simp
  next
    case False
    then have "\<not> take 96 (bits ?m) ! 95" using assms by (simp add: bm nth_append)
    then show ?thesis using False prefix_bits(2) by metis
  qed
  finally show ?thesis using len by (simp add: To4_def CIDRMask_def)
qed

text \<open>
  An address lies in a block when it agrees with the block's address on the prefix, both written with sixteen bytes; an IPv6 block
  that does not fix the IPv4-mapped prefix holds no IPv4 address.
\<close>

definition in_block :: "addr \<Rightarrow> nat \<Rightarrow> ip \<Rightarrow> bool" where
  "in_block a n ip =
     (let k = n + (case a of Addr4 _ \<Rightarrow> 96 | Addr6 _ \<Rightarrow> 0)
      in take k (bits ip) = take k (bits (As16 a)) \<and> (96 \<le> k \<and> take 12 (As16 a) = v4InV6Prefix \<or> To4 ip = None))"

fun valid_addr :: "addr \<Rightarrow> bool" where
  "valid_addr (Addr4 b) = (length b = 4)"
| "valid_addr (Addr6 b) = (length b = 16)"

lemma prefix_split:
  assumes "length ip = 16" "length b = 4"
  shows "take (n + 96) (bits ip) = take (n + 96) (bits (v4InV6Prefix @ b)) \<longleftrightarrow>
    (\<exists>x. To4 ip = Some x \<and> take n (bits x) = take n (bits b))"
proof -
  have "bits ip = bits (take 12 ip) @ bits (drop 12 ip)" by (metis append_take_drop_id bits_append)
  then have "take (n + 96) (bits ip) = bits (take 12 ip) @ take n (bits (drop 12 ip))" using assms(1) by simp
  moreover have "take (n + 96) (bits (v4InV6Prefix @ b)) = bits v4InV6Prefix @ take n (bits b)" using prefix_bits(1) by simp
  ultimately show ?thesis
    using assms(1) prefix_bits(1) bits_inject [of "take 12 ip" v4InV6Prefix] by (auto simp: To4_def)
qed

lemma IPNet_Contains_in_block:
  assumes "valid_addr a" "n \<le> BitLen a" "length ip = 16"
  shows "IPNet_Contains (cidr_net a n) ip \<longleftrightarrow> in_block a n ip"
proof (cases a)
  case (Addr4 b)
  then have b: "length b = 4" "n \<le> 32" using assms(1,2) by (simp_all add: BitLen_def)
  have "in_block a n ip \<longleftrightarrow> take (n + 96) (bits ip) = take (n + 96) (bits (v4InV6Prefix @ b))"
    using prefix_bits(1) by (simp add: in_block_def Addr4 As16_def)
  then show ?thesis unfolding Addr4 using IPNet_Contains_v4 [OF b] prefix_split [OF assms(3) b(1)] by simp
next
  case (Addr6 b)
  then have b: "length b = 16" using assms(1) by simp
  show ?thesis
  proof (cases "To4 (and_mask b (CIDRMask n 128))")
    case None
    then have "\<not> (96 \<le> n \<and> take 12 b = v4InV6Prefix)" using To4_masked [OF b, of n] by simp
    then show ?thesis unfolding Addr6 IPNet_Contains_v6 [OF b None] using assms(3) by (auto simp: in_block_def As16_def)
  next
    case (Some y)
    then have n: "96 \<le> n" "take 12 b = v4InV6Prefix" using To4_masked [OF b, of n] by auto
    have b': "b = v4InV6Prefix @ drop 12 b" "length (drop 12 b) = 4" using n(2) b by (metis append_take_drop_id, simp)
    have m: "CIDRMask n 128 = mask_bytes 16 n" "length (mask_bytes 16 n) = 16" by (simp_all add: CIDRMask_def)
    have y: "y = drop 12 (and_mask b (mask_bytes 16 n))" using Some b m by (simp add: To4_def split: if_splits)
    have dm: "drop 12 (and_mask b (mask_bytes 16 n)) = and_mask (drop 12 b) (drop 12 (mask_bytes 16 n))" 
      by (simp add: and_mask_def drop_map drop_zip)
    have num: "networkNumberAndMask (cidr_net (Addr6 b) n) = Some (y, drop 12 (mask_bytes 16 n))"
      using Some b m y by (simp add: networkNumberAndMask_def cidr_net_def Let_def)
    have mm: "drop 12 (mask_bytes 16 n) = mask_bytes 4 (n - 96)"
      using mask_bytes_drop [of 12 4 n] by simp
    have "IPNet_Contains (cidr_net (Addr6 b) n) ip \<longleftrightarrow> (\<exists>x. To4 ip = Some x \<and> take (n - 96) (bits x) = take (n - 96) (bits (drop 12 b)))"
    proof (cases "To4 ip")
      case None
      then show ?thesis using assms(3) b by (simp add: IPNet_Contains_def num y)
    next
      case (Some x)
      then have x: "length x = 4" by (auto simp: To4_def split: if_splits)
      show ?thesis
        using mask_prefix [OF b'(2) x, of "n - 96"] Some x b
        by (auto simp: IPNet_Contains_def num y dm mm)
    qed
    moreover have "in_block a n ip \<longleftrightarrow> take (n - 96 + 96) (bits ip) = take (n - 96 + 96) (bits (v4InV6Prefix @ drop 12 b))"
      using n b'(1) by (simp add: in_block_def Addr6 As16_def)
    ultimately show ?thesis unfolding Addr6 using prefix_split [OF assms(3) b'(2), of "n - 96"] by simp
  qed
qed

section \<open>Parsed addresses have sixteen bytes\<close>

lemma parseIPv4_length: "parseIPv4 s = Some b \<Longrightarrow> length b = 4"
  by (auto simp: parseIPv4_def Let_def split: if_splits)

lemma v6_groups_length: "v6_groups n acc e s = Some (acc', e') \<Longrightarrow> length acc + 2 * n \<le> 16 \<Longrightarrow> length acc' \<le> 16"
proof (induction n acc e s arbitrary: acc' e' rule: v6_groups.induct)
  case (2 n acc e s)
  have g: "length (group_bytes ds) = 2" for ds by (simp add: group_bytes_def Let_def)
  show ?case
    using 2 g parseIPv4_length by (fastforce simp: Let_def split: if_splits list.splits option.splits)
qed (simp split: if_splits)

lemma parseIPv6_length:
  assumes "parseIPv6 s = Some b"
  shows "length b = 16"
proof (cases "b = replicate 16 0")
  case False
  then obtain e0 s' acc e where "v6_groups 8 [] e0 s' = Some (acc, e)" and ex: "expand_ellipsis (acc, e) = Some b"
    using assms by (auto simp: parseIPv6_def Let_def bind_eq_Some_conv split: if_splits)
  then have "length acc \<le> 16" using v6_groups_length by fastforce
  then show ?thesis using ex by (auto simp: expand_ellipsis_def split: if_splits option.splits)
qed simp

lemma ParseAddr_valid: "ParseAddr s = Some a \<Longrightarrow> valid_addr a"
  by (auto simp: ParseAddr_def parseIPv4_length parseIPv6_length split: if_splits option.splits)

lemma ParseIP_length:
  assumes "ParseIP s = Some ip"
  shows "length ip = 16"
proof -
  obtain a where a: "ParseAddr s = Some a" "ip = As16 a" using assms by (auto simp: ParseIP_def)
  then show ?thesis using ParseAddr_valid [OF a(1)] prefix_bits(1) by (cases a) (simp_all add: As16_def)
qed

lemma ParseCIDR_Some:
  "ParseCIDR s = Some net \<longleftrightarrow> (\<exists>a n. ParseAddr (takeWhile (\<lambda>c. c \<noteq> CHR ''/'') s) = Some a \<and> n \<le> BitLen a \<and>
     CHR ''/'' \<in> set s \<and> (let m = drop (Suc (length (takeWhile (\<lambda>c. c \<noteq> CHR ''/'') s))) s
       in m \<noteq> [] \<and> list_all is_digit m \<and> dec_val 0 m = n) \<and> net = cidr_net a n)"
  by (auto simp: ParseCIDR_def Let_def split: option.splits)

end
