(* ===== verification/Config.thy ===== *)
theory Config
  imports Go_Path Go_Net Go_Netip
begin

text \<open>
  Package \<open>config\<close>: the environment variables as a partial map, \<open>Load\<close> and \<open>Validate\<close>. Validation creates
  the data directories, reads the HMAC secret and parses URLs; these calls are parameters, collected in a record. An error is the name of the variable or the step that failed.
\<close>

section \<open>Reading the environment\<close>

type_synonym os_env = "string \<rightharpoonup> string"

definition Getenv :: "os_env \<Rightarrow> string \<Rightarrow> string" where
  "Getenv os key = (case os key of None \<Rightarrow> [] | Some v \<Rightarrow> v)"

definition getenv :: "os_env \<Rightarrow> string \<Rightarrow> string \<Rightarrow> string" where
  "getenv os key fallback = (case os key of Some value \<Rightarrow> value | None \<Rightarrow> fallback)"

definition getenvWithExplicit :: "os_env \<Rightarrow> string \<Rightarrow> string \<times> bool" where
  "getenvWithExplicit os key = (case os key of None \<Rightarrow> ([], False) | Some value \<Rightarrow> (value, True))"

definition getenvInt :: "os_env \<Rightarrow> string \<Rightarrow> int \<Rightarrow> int" where
  "getenvInt os key fallback =
     (let value = Getenv os key
      in if value = [] then fallback else case ParseInt value of None \<Rightarrow> fallback | Some n \<Rightarrow> n)"

definition getenvInt64 :: "os_env \<Rightarrow> string \<Rightarrow> int \<Rightarrow> int" where
  "getenvInt64 os key fallback =
     (let value = Getenv os key
      in if value = [] then fallback else case ParseInt value of None \<Rightarrow> fallback | Some n \<Rightarrow> n)"

definition getenvBool :: "os_env \<Rightarrow> string \<Rightarrow> bool \<Rightarrow> bool" where
  "getenvBool os key fallback =
     (let value = Getenv os key
      in if value = [] then fallback else case ParseBool value of None \<Rightarrow> fallback | Some b \<Rightarrow> b)"

definition getenvBoolWithExplicit :: "os_env \<Rightarrow> string \<Rightarrow> bool \<Rightarrow> bool \<times> bool" where
  "getenvBoolWithExplicit os key fallback =
     (case os key of None \<Rightarrow> (fallback, False) | Some _ \<Rightarrow> (getenvBool os key fallback, True))"

section \<open>The configuration\<close>

record Config =
  cf_Env :: string
  cf_HTTPAddr :: string
  cf_PublicBaseURL :: string
  cf_AllowInsecurePublicURL :: bool
  cf_DataPath :: string
  cf_IdentityPath :: string
  cf_DBPath :: string
  cf_ScanOnStartup :: bool
  cf_EnableJobs :: bool
  cf_InternalEnable :: bool
  cf_InternalAllowedCIDRs :: string
  cf_TrustProxyHeaders :: bool
  cf_TrustedProxyCIDRs :: string
  cf_ShutdownTimeoutSeconds :: int
  cf_AssetsSubdir :: string
  cf_MaxSegmentBytes :: int
  cf_RateLimitRPS :: int
  cf_RateLimitBurst :: int
  cf_EnableCORS :: bool
  cf_CORSAllowedOrigins :: string
  cf_CORSAllowCredentials :: bool
  cf_EnforceNoSymlinks :: bool
  cf_TrustProxyAddresses :: bool
  cf_RescanIntervalSeconds :: int
  cf_AnnounceSweepIntervalSeconds :: int
  cf_ReannounceThresholdSeconds :: int
  cf_BackoffBaseMillis :: int
  cf_BackoffMaxSeconds :: int
  cf_RejectedRetrySeconds :: int
  cf_UnauthorizedRetrySeconds :: int
  cf_AnnouncementExpiryGraceSeconds :: int
  cf_StorageMode :: string
  cf_OriginBaseURL :: string
  cf_OriginAuthMode :: string
  cf_OriginHMACSecretPath :: string
  cf_OriginHMACKeyID :: string
  cf_OriginAuthIncludeQuery :: bool
  cf_ProxyMaxUpstreamConcurrency :: int
  cf_Transport :: string
  cf_AnnouncePriority :: int
  cf_AnnounceExpiresSeconds :: int
  cf_CatalogTimeoutSeconds :: int
  cf_CatalogBaseURL :: string
  cf_AnnounceInterval :: string
  cf_Region :: string
  cf_PrivateKeyPath :: string
  cf_InternalEnableExplicit :: bool
  cf_InternalAllowedCIDRsExplicit :: bool

definition load_env :: "os_env \<Rightarrow> string" where
  "load_env os =
     (let e0 = ToLower (TrimSpace (Getenv os ''AUDISTRO_ENV''));
          e1 = (if e0 = [] then ToLower (TrimSpace (getenv os ''PROVIDER_ENV'' ''prod'')) else e0)
      in if e1 \<noteq> ''dev'' \<and> e1 \<noteq> ''prod'' \<and> e1 \<noteq> ''test'' then ''prod'' else e1)"

definition Load :: "os_env \<Rightarrow> Config" where
  "Load os =
     (let env = load_env os;
          dataPath = getenv os ''PROVIDER_DATA_PATH'' ''./data'';
          identityPath0 = Getenv os ''PROVIDER_IDENTITY_PATH'';
          identityPath = (if identityPath0 = [] then Join [dataPath, ''provider_identity.json''] else identityPath0);
          dbPath0 = Getenv os ''PROVIDER_DB_PATH'';
          dbPath = (if dbPath0 = [] then Join [dataPath, ''provider.db''] else dbPath0);
          internalEnableDefault = (env = ''dev'' \<or> env = ''test'');
          (internalEnable, internalEnableExplicit) = getenvBoolWithExplicit os ''PROVIDER_INTERNAL_ENABLE'' internalEnableDefault;
          (cidrs, internalAllowedCIDRsExplicit) = getenvWithExplicit os ''PROVIDER_INTERNAL_ALLOWED_CIDRS'';
          internalAllowedCIDRs = (if TrimSpace cidrs = [] \<and> env = ''dev'' then ''127.0.0.1/32,::1/128'' else cidrs)
      in
     \<lparr>cf_Env = env,
      cf_HTTPAddr = getenv os ''PROVIDER_HTTP_ADDR'' '':8080'',
      cf_PublicBaseURL = Getenv os ''PROVIDER_PUBLIC_BASE_URL'',
      cf_AllowInsecurePublicURL = getenvBool os ''PROVIDER_ALLOW_INSECURE_PUBLIC_URL'' False,
      cf_DataPath = dataPath,
      cf_IdentityPath = identityPath,
      cf_DBPath = dbPath,
      cf_ScanOnStartup = getenvBool os ''PROVIDER_SCAN_ON_STARTUP'' True,
      cf_EnableJobs = getenvBool os ''PROVIDER_ENABLE_JOBS'' True,
      cf_InternalEnable = internalEnable,
      cf_InternalAllowedCIDRs = internalAllowedCIDRs,
      cf_TrustProxyHeaders = getenvBool os ''PROVIDER_TRUST_PROXY_HEADERS'' False,
      cf_TrustedProxyCIDRs = TrimSpace (Getenv os ''PROVIDER_TRUSTED_PROXY_CIDRS''),
      cf_ShutdownTimeoutSeconds = getenvInt os ''PROVIDER_SHUTDOWN_TIMEOUT_SECONDS'' 15,
      cf_AssetsSubdir = getenv os ''PROVIDER_ASSETS_SUBDIR'' ''assets'',
      cf_MaxSegmentBytes = getenvInt64 os ''PROVIDER_MAX_SEGMENT_BYTES'' 67108864,
      cf_RateLimitRPS = getenvInt os ''PROVIDER_RATE_LIMIT_RPS'' 20,
      cf_RateLimitBurst = getenvInt os ''PROVIDER_RATE_LIMIT_BURST'' 40,
      cf_EnableCORS = getenvBool os ''PROVIDER_ENABLE_CORS'' False,
      cf_CORSAllowedOrigins = Getenv os ''PROVIDER_CORS_ALLOWED_ORIGINS'',
      cf_CORSAllowCredentials = getenvBool os ''PROVIDER_CORS_ALLOW_CREDENTIALS'' False,
      cf_EnforceNoSymlinks = getenvBool os ''PROVIDER_ENFORCE_NO_SYMLINKS'' True,
      cf_TrustProxyAddresses = False,
      cf_RescanIntervalSeconds = getenvInt os ''PROVIDER_RESCAN_INTERVAL_SECONDS'' 300,
      cf_AnnounceSweepIntervalSeconds = getenvInt os ''PROVIDER_ANNOUNCE_SWEEP_INTERVAL_SECONDS'' 300,
      cf_ReannounceThresholdSeconds = getenvInt os ''PROVIDER_REANNOUNCE_THRESHOLD_SECONDS'' 86400,
      cf_BackoffBaseMillis = getenvInt os ''PROVIDER_BACKOFF_BASE_MILLIS'' 2000,
      cf_BackoffMaxSeconds = getenvInt os ''PROVIDER_BACKOFF_MAX_SECONDS'' 600,
      cf_RejectedRetrySeconds = getenvInt os ''PROVIDER_REJECTED_RETRY_SECONDS'' 86400,
      cf_UnauthorizedRetrySeconds = getenvInt os ''PROVIDER_UNAUTHORIZED_RETRY_SECONDS'' 3600,
      cf_AnnouncementExpiryGraceSeconds = getenvInt os ''PROVIDER_ANNOUNCEMENT_EXPIRY_GRACE_SECONDS'' 86400,
      cf_StorageMode = ToLower (TrimSpace (getenv os ''PROVIDER_STORAGE_MODE'' ''filesystem'')),
      cf_OriginBaseURL = TrimSpace (Getenv os ''PROVIDER_ORIGIN_BASE_URL''),
      cf_OriginAuthMode = ToLower (TrimSpace (getenv os ''PROVIDER_ORIGIN_AUTH_MODE'' ''none'')),
      cf_OriginHMACSecretPath = TrimSpace (Getenv os ''PROVIDER_ORIGIN_HMAC_SECRET_PATH''),
      cf_OriginHMACKeyID = getenv os ''PROVIDER_ORIGIN_HMAC_KEY_ID'' ''v1'',
      cf_OriginAuthIncludeQuery = getenvBool os ''PROVIDER_ORIGIN_AUTH_INCLUDE_QUERY'' True,
      cf_ProxyMaxUpstreamConcurrency = getenvInt os ''PROVIDER_PROXY_MAX_UPSTREAM_CONCURRENCY'' 64,
      cf_Transport = getenv os ''PROVIDER_TRANSPORT'' ''https'',
      cf_AnnouncePriority = getenvInt os ''PROVIDER_ANNOUNCE_PRIORITY'' 10,
      cf_AnnounceExpiresSeconds = getenvInt os ''PROVIDER_ANNOUNCE_EXPIRES_SECONDS'' 604800,
      cf_CatalogTimeoutSeconds = getenvInt os ''PROVIDER_CATALOG_TIMEOUT_SECONDS'' 10,
      cf_CatalogBaseURL = Getenv os ''PROVIDER_CATALOG_BASE_URL'',
      cf_AnnounceInterval = Getenv os ''PROVIDER_ANNOUNCE_INTERVAL'',
      cf_Region = Getenv os ''PROVIDER_REGION'',
      cf_PrivateKeyPath = Getenv os ''PROVIDER_PRIVATE_KEY_PATH'',
      cf_InternalEnableExplicit = internalEnableExplicit,
      cf_InternalAllowedCIDRsExplicit = internalAllowedCIDRsExplicit\<rparr>)"

section \<open>Validation\<close>

record config_env =
  ce_mkdirAll :: "string \<Rightarrow> bool"
  ce_readFile :: "string \<Rightarrow> string option"
  ce_urlParse :: "string \<Rightarrow> url_parts option"

definition validateURL :: "(string \<Rightarrow> url_parts option) \<Rightarrow> string \<Rightarrow> string \<Rightarrow> (string, url_parts) result" where
  "validateURL urlParse raw field =
     (case urlParse (TrimSpace raw) of
        None \<Rightarrow> Err (''invalid '' @ field)
      | Some parsed \<Rightarrow>
          if url_host parsed = [] then Err (''invalid '' @ field @ '': missing host'')
          else if ToLower (url_scheme parsed) \<in> set [''http'', ''https''] then Ok parsed
          else Err (''invalid '' @ field @ '': scheme must be http or https''))"

definition splitCSV :: "string \<Rightarrow> string list" where
  "splitCSV csv = filter (\<lambda>p. p \<noteq> []) (map TrimSpace (Split csv CHR '',''))"

fun parse_all :: "string list \<Rightarrow> (string, IPNet list) result" where
  "parse_all [] = Ok []"
| "parse_all (e # es) =
     (case ParseCIDR e of
        None \<Rightarrow> Err (''parse '' @ e)
      | Some n \<Rightarrow> (case parse_all es of Inl err \<Rightarrow> Err err | Inr ns \<Rightarrow> Ok (n # ns)))"

definition parseCIDRs :: "string \<Rightarrow> (string, IPNet list) result" where
  "parseCIDRs csv =
     (let entries = splitCSV csv in if entries = [] then Err ''no CIDRs provided'' else parse_all entries)"

text \<open>The checks of \<open>Validate\<close> in their order, each a step that passes on a value or stops with an error.\<close>

definition check :: "bool \<Rightarrow> string \<Rightarrow> (string, unit) result" where
  "check ok err = (if ok then Ok () else Err err)"

definition andThen :: "('e, 'a) result \<Rightarrow> ('a \<Rightarrow> ('e, 'b) result) \<Rightarrow> ('e, 'b) result" where
  "andThen r f = (case r of Inl e \<Rightarrow> Err e | Inr x \<Rightarrow> f x)"

definition validate_mode :: "Config \<Rightarrow> (string, string) result" where
  "validate_mode c =
     (let mode = ToLower (TrimSpace (cf_StorageMode c))
      in if mode = [] \<or> mode = ''filesystem'' then Ok ''filesystem''
         else if mode = ''proxy'' \<or> mode = ''hybrid'' then Ok mode
         else Err ''invalid PROVIDER_STORAGE_MODE'')"

definition validate_public :: "config_env \<Rightarrow> Config \<Rightarrow> (string, url_parts option) result" where
  "validate_public ce c =
     (if TrimSpace (cf_PublicBaseURL c) = [] then Ok None
      else andThen (validateURL (ce_urlParse ce) (cf_PublicBaseURL c) ''PROVIDER_PUBLIC_BASE_URL'')
        (\<lambda>u. andThen (check (EqualFold (url_scheme u) ''https'' \<or> cf_AllowInsecurePublicURL c)
            ''PROVIDER_PUBLIC_BASE_URL must use https'') (\<lambda>_. Ok (Some u))))"

definition validate_auth :: "config_env \<Rightarrow> Config \<Rightarrow> (string, unit) result" where
  "validate_auth ce c =
     (let m = ToLower (TrimSpace (cf_OriginAuthMode c))
      in if m = [] \<or> m = ''none'' then Ok ()
         else if m = ''hmac'' then
           (let secretPath = TrimSpace (cf_OriginHMACSecretPath c)
            in if secretPath = [] then Err ''PROVIDER_ORIGIN_HMAC_SECRET_PATH is required''
               else case ce_readFile ce secretPath of
                 None \<Rightarrow> Err ''read PROVIDER_ORIGIN_HMAC_SECRET_PATH''
               | Some secretBytes \<Rightarrow>
                   check (16 \<le> length (TrimRight secretBytes [CHR 0x0D, CHR 0x0A])) ''secret must be at least 16 bytes'')
         else Err ''invalid PROVIDER_ORIGIN_AUTH_MODE'')"

definition validate_limits :: "Config \<Rightarrow> (string, unit) result" where
  "validate_limits c =
     (if cf_MaxSegmentBytes c \<le> 0 then Err ''PROVIDER_MAX_SEGMENT_BYTES must be > 0''
      else if cf_RateLimitRPS c \<le> 0 then Err ''PROVIDER_RATE_LIMIT_RPS must be > 0''
      else if cf_RateLimitBurst c \<le> 0 then Err ''PROVIDER_RATE_LIMIT_BURST must be > 0''
      else if cf_ShutdownTimeoutSeconds c \<le> 0 then Err ''PROVIDER_SHUTDOWN_TIMEOUT_SECONDS must be > 0''
      else if cf_ProxyMaxUpstreamConcurrency c \<le> 0 then Err ''PROVIDER_PROXY_MAX_UPSTREAM_CONCURRENCY must be > 0''
      else Ok ())"

definition validate_paths :: "config_env \<Rightarrow> Config \<Rightarrow> (string, unit) result" where
  "validate_paths ce c =
     (if TrimSpace (cf_DataPath c) = [] then Err ''PROVIDER_DATA_PATH must not be empty''
      else if \<not> ce_mkdirAll ce (cf_DataPath c) then Err ''create PROVIDER_DATA_PATH''
      else if \<not> ce_mkdirAll ce (Join [cf_DataPath c, cf_AssetsSubdir c]) then Err ''create assets root''
      else Ok ())"

definition validate_origin :: "config_env \<Rightarrow> Config \<Rightarrow> string \<Rightarrow> (string, unit) result" where
  "validate_origin ce c mode =
     (if mode = ''proxy'' \<or> mode = ''hybrid'' then
        (if TrimSpace (cf_OriginBaseURL c) = [] then Err ''PROVIDER_ORIGIN_BASE_URL is required''
         else andThen (validateURL (ce_urlParse ce) (cf_OriginBaseURL c) ''PROVIDER_ORIGIN_BASE_URL'') (\<lambda>_. Ok ()))
      else Ok ())"

definition validate_catalog :: "config_env \<Rightarrow> Config \<Rightarrow> url_parts option \<Rightarrow> (string, unit) result" where
  "validate_catalog ce c publicURL =
     (if TrimSpace (cf_CatalogBaseURL c) = [] then Ok ()
      else andThen (validateURL (ce_urlParse ce) (cf_CatalogBaseURL c) ''PROVIDER_CATALOG_BASE_URL'')
        (\<lambda>_. check (publicURL \<noteq> None) ''PROVIDER_PUBLIC_BASE_URL is required when PROVIDER_CATALOG_BASE_URL is set''))"

definition validate_cors :: "Config \<Rightarrow> (string, unit) result" where
  "validate_cors c =
     (if cf_EnableCORS c then
        (let allowed = splitCSV (cf_CORSAllowedOrigins c)
         in if allowed = [] then Err ''PROVIDER_CORS_ALLOWED_ORIGINS must not be empty''
            else check (''*'' \<notin> set allowed) ''PROVIDER_CORS_ALLOWED_ORIGINS must not contain *'')
      else Ok ())"

definition validate_internal :: "Config \<Rightarrow> (string, unit) result" where
  "validate_internal c =
     andThen
       (if cf_InternalEnable c then
          (if TrimSpace (cf_InternalAllowedCIDRs c) = [] then Err ''PROVIDER_INTERNAL_ALLOWED_CIDRS is required''
           else andThen (parseCIDRs (cf_InternalAllowedCIDRs c)) (\<lambda>_. Ok ()))
        else Ok ())
       (\<lambda>_. if TrimSpace (cf_TrustedProxyCIDRs c) \<noteq> []
            then andThen (parseCIDRs (cf_TrustedProxyCIDRs c)) (\<lambda>_. Ok ()) else Ok ())"

definition Validate :: "config_env \<Rightarrow> Config \<Rightarrow> (string, unit) result" where
  "Validate ce c =
     andThen (validate_mode c) (\<lambda>mode.
     andThen (validate_limits c) (\<lambda>_.
     andThen (validate_paths ce c) (\<lambda>_.
     andThen (validate_public ce c) (\<lambda>publicURL.
     andThen (validate_origin ce c mode) (\<lambda>_.
     andThen (validate_auth ce c) (\<lambda>_.
     andThen (validate_catalog ce c publicURL) (\<lambda>_.
     andThen (validate_cors c) (\<lambda>_.
     validate_internal c))))))))"

section \<open>What a validated configuration guarantees\<close>

lemma andThen_Ok [simp]: "andThen r f = Ok y \<longleftrightarrow> (\<exists>x. r = Ok x \<and> f x = Ok y)"
  by (cases r) (auto simp: andThen_def)

lemma check_Ok [simp]: "check b e = Ok u \<longleftrightarrow> b"
  by (simp add: check_def)

lemma validateURL_Ok:
  "validateURL p raw f = Ok u \<longleftrightarrow>
     p (TrimSpace raw) = Some u \<and> url_host u \<noteq> [] \<and> ToLower (url_scheme u) \<in> {''http'', ''https''}"
  by (auto simp: validateURL_def split: option.splits if_splits)

lemma validated_origin:
  "validate_mode c = Ok mode \<Longrightarrow> validate_origin ce c mode = Ok () \<Longrightarrow>
   ToLower (TrimSpace (cf_StorageMode c)) \<in> {''proxy'', ''hybrid''} \<Longrightarrow>
   \<exists>u. ce_urlParse ce (TrimSpace (cf_OriginBaseURL c)) = Some u \<and> url_host u \<noteq> [] \<and>
       ToLower (url_scheme u) \<in> {''http'', ''https''}"
proof -
  assume v: "validate_mode c = Ok mode" "validate_origin ce c mode = Ok ()"
    and m: "ToLower (TrimSpace (cf_StorageMode c)) \<in> {''proxy'', ''hybrid''}"
  have "mode = ToLower (TrimSpace (cf_StorageMode c))" using v(1) m unfolding validate_mode_def Let_def by auto
  with m v(2) have "\<exists>u. validateURL (ce_urlParse ce) (cf_OriginBaseURL c) ''PROVIDER_ORIGIN_BASE_URL'' = Ok u"
    unfolding validate_origin_def by (simp split: if_splits)
  then show ?thesis unfolding validateURL_Ok .
qed

lemma validated_auth:
  "validate_auth ce c = Ok () \<Longrightarrow> ToLower (TrimSpace (cf_OriginAuthMode c)) = ''hmac'' \<Longrightarrow>
   \<exists>s. ce_readFile ce (TrimSpace (cf_OriginHMACSecretPath c)) = Some s \<and> 16 \<le> length (TrimRight s [CHR 0x0D, CHR 0x0A])"
  by (auto simp: validate_auth_def Let_def split: if_splits option.splits)

lemma validate_limits_Ok:
  "validate_limits c = Ok () \<longleftrightarrow> 0 < cf_MaxSegmentBytes c \<and> 0 < cf_RateLimitRPS c \<and> 0 < cf_RateLimitBurst c \<and>
     0 < cf_ShutdownTimeoutSeconds c \<and> 0 < cf_ProxyMaxUpstreamConcurrency c"
  by (auto simp: validate_limits_def split: if_splits)

lemma parse_all_Nil: "parse_all es = Ok [] \<longleftrightarrow> es = []"
  by (cases es) (auto split: option.splits sum.splits)

lemma validated_internal:
  "validate_internal c = Ok () \<Longrightarrow> cf_InternalEnable c \<Longrightarrow>
   TrimSpace (cf_InternalAllowedCIDRs c) \<noteq> [] \<and> (\<exists>nets. parseCIDRs (cf_InternalAllowedCIDRs c) = Ok nets \<and> nets \<noteq> [])"
  by (auto simp: validate_internal_def parseCIDRs_def Let_def parse_all_Nil split: if_splits)

lemma Load_sel:
  "cf_InternalEnable (Load os) =
     fst (getenvBoolWithExplicit os ''PROVIDER_INTERNAL_ENABLE'' (load_env os = ''dev'' \<or> load_env os = ''test''))"
  "cf_InternalAllowedCIDRs (Load os) =
     (let cidrs = fst (getenvWithExplicit os ''PROVIDER_INTERNAL_ALLOWED_CIDRS'')
      in if TrimSpace cidrs = [] \<and> load_env os = ''dev'' then ''127.0.0.1/32,::1/128'' else cidrs)"
  unfolding Load_def Let_def case_prod_unfold by simp_all

lemma fst_getenvWithExplicit: "fst (getenvWithExplicit os k) = Getenv os k"
  by (simp add: getenvWithExplicit_def Getenv_def split: option.split)

lemma prod_internal:
  assumes "load_env os = ''prod''"
  shows "cf_InternalEnable (Load os) \<longleftrightarrow>
      (\<exists>v. os ''PROVIDER_INTERNAL_ENABLE'' = Some v \<and> ParseBool v = Some True)"
    and "cf_InternalAllowedCIDRs (Load os) = Getenv os ''PROVIDER_INTERNAL_ALLOWED_CIDRS''"
proof -
  have nil: "ParseBool [] = None" by (simp add: ParseBool_def)
  show "cf_InternalEnable (Load os) \<longleftrightarrow>
      (\<exists>v. os ''PROVIDER_INTERNAL_ENABLE'' = Some v \<and> ParseBool v = Some True)"
    using assms nil by (cases "os ''PROVIDER_INTERNAL_ENABLE''")
      (auto simp: Load_sel(1) getenvBoolWithExplicit_def getenvBool_def Getenv_def Let_def split: option.split)
  show "cf_InternalAllowedCIDRs (Load os) = Getenv os ''PROVIDER_INTERNAL_ALLOWED_CIDRS''"
    using assms by (simp add: Load_sel(2) fst_getenvWithExplicit)
qed

section \<open>Properties\<close>

text \<open>What validation checks, as one statement: each clause is one requirement on the configuration, independent of the order
  in which the code looks at them.\<close>

definition http_url :: "config_env \<Rightarrow> string \<Rightarrow> (url_parts \<Rightarrow> bool) \<Rightarrow> bool" where
  "http_url ce raw P \<longleftrightarrow> (\<exists>u. ce_urlParse ce (TrimSpace raw) = Some u \<and> url_host u \<noteq> [] \<and>
     ToLower (url_scheme u) \<in> {''http'', ''https''} \<and> P u)"

definition valid_config :: "config_env \<Rightarrow> Config \<Rightarrow> bool" where
  "valid_config ce c \<longleftrightarrow>
     ToLower (TrimSpace (cf_StorageMode c)) \<in> {[], ''filesystem'', ''proxy'', ''hybrid''} \<and>
     (ToLower (TrimSpace (cf_StorageMode c)) \<in> {''proxy'', ''hybrid''} \<longrightarrow>
        TrimSpace (cf_OriginBaseURL c) \<noteq> [] \<and> http_url ce (cf_OriginBaseURL c) (\<lambda>_. True)) \<and>
     0 < cf_MaxSegmentBytes c \<and> 0 < cf_RateLimitRPS c \<and> 0 < cf_RateLimitBurst c \<and>
     0 < cf_ShutdownTimeoutSeconds c \<and> 0 < cf_ProxyMaxUpstreamConcurrency c \<and>
     TrimSpace (cf_DataPath c) \<noteq> [] \<and> ce_mkdirAll ce (cf_DataPath c) \<and> ce_mkdirAll ce (Join [cf_DataPath c, cf_AssetsSubdir c]) \<and>
     (TrimSpace (cf_CatalogBaseURL c) \<noteq> [] \<longrightarrow> http_url ce (cf_CatalogBaseURL c) (\<lambda>_. True) \<and> TrimSpace (cf_PublicBaseURL c) \<noteq> []) \<and>
     (TrimSpace (cf_PublicBaseURL c) \<noteq> [] \<longrightarrow>
        http_url ce (cf_PublicBaseURL c) (\<lambda>u. EqualFold (url_scheme u) ''https'' \<or> cf_AllowInsecurePublicURL c)) \<and>
     ToLower (TrimSpace (cf_OriginAuthMode c)) \<in> {[], ''none'', ''hmac''} \<and>
     (ToLower (TrimSpace (cf_OriginAuthMode c)) = ''hmac'' \<longrightarrow> TrimSpace (cf_OriginHMACSecretPath c) \<noteq> [] \<and>
        (\<exists>s. ce_readFile ce (TrimSpace (cf_OriginHMACSecretPath c)) = Some s \<and> 16 \<le> length (TrimRight s [CHR 0x0D, CHR 0x0A]))) \<and>
     (cf_EnableCORS c \<longrightarrow> splitCSV (cf_CORSAllowedOrigins c) \<noteq> [] \<and> ''*'' \<notin> set (splitCSV (cf_CORSAllowedOrigins c))) \<and>
     (cf_InternalEnable c \<longrightarrow> TrimSpace (cf_InternalAllowedCIDRs c) \<noteq> [] \<and> is_ok (parseCIDRs (cf_InternalAllowedCIDRs c))) \<and>
     (TrimSpace (cf_TrustedProxyCIDRs c) \<noteq> [] \<longrightarrow> is_ok (parseCIDRs (cf_TrustedProxyCIDRs c)))"

lemma validate_mode_Ok:
  "validate_mode c = Ok mode \<longleftrightarrow> ToLower (TrimSpace (cf_StorageMode c)) \<in> {[], ''filesystem'', ''proxy'', ''hybrid''} \<and>
     mode = (if ToLower (TrimSpace (cf_StorageMode c)) \<in> {''proxy'', ''hybrid''} then ToLower (TrimSpace (cf_StorageMode c)) else ''filesystem'')"
  by (simp add: validate_mode_def Let_def) blast

lemma validate_public_Ok:
  "(\<exists>u. validate_public ce c = Ok u \<and> P (u \<noteq> None)) \<longleftrightarrow> P (TrimSpace (cf_PublicBaseURL c) \<noteq> []) \<and>
     (TrimSpace (cf_PublicBaseURL c) \<noteq> [] \<longrightarrow> http_url ce (cf_PublicBaseURL c) (\<lambda>u. EqualFold (url_scheme u) ''https'' \<or> cf_AllowInsecurePublicURL c))"
  by (cases "TrimSpace (cf_PublicBaseURL c) = []") (auto simp: validate_public_def validateURL_Ok http_url_def)

lemma validate_origin_Ok:
  "validate_origin ce c mode = Ok () \<longleftrightarrow> (mode \<in> {''proxy'', ''hybrid''} \<longrightarrow>
     TrimSpace (cf_OriginBaseURL c) \<noteq> [] \<and> http_url ce (cf_OriginBaseURL c) (\<lambda>_. True))"
  by (simp add: validate_origin_def validateURL_Ok http_url_def)

lemma validate_auth_Ok:
  "validate_auth ce c = Ok () \<longleftrightarrow> ToLower (TrimSpace (cf_OriginAuthMode c)) \<in> {[], ''none'', ''hmac''} \<and>
     (ToLower (TrimSpace (cf_OriginAuthMode c)) = ''hmac'' \<longrightarrow> TrimSpace (cf_OriginHMACSecretPath c) \<noteq> [] \<and>
        (\<exists>s. ce_readFile ce (TrimSpace (cf_OriginHMACSecretPath c)) = Some s \<and> 16 \<le> length (TrimRight s [CHR 0x0D, CHR 0x0A])))"
  by (simp add: validate_auth_def Let_def split: option.split)

lemma validate_catalog_Ok:
  "validate_catalog ce c u = Ok () \<longleftrightarrow> (TrimSpace (cf_CatalogBaseURL c) \<noteq> [] \<longrightarrow> http_url ce (cf_CatalogBaseURL c) (\<lambda>_. True) \<and> u \<noteq> None)"
  by (cases u) (simp_all add: validate_catalog_def validateURL_Ok http_url_def)

lemma validate_internal_Ok:
  "validate_internal c = Ok () \<longleftrightarrow>
     (cf_InternalEnable c \<longrightarrow> TrimSpace (cf_InternalAllowedCIDRs c) \<noteq> [] \<and> is_ok (parseCIDRs (cf_InternalAllowedCIDRs c))) \<and>
     (TrimSpace (cf_TrustedProxyCIDRs c) \<noteq> [] \<longrightarrow> is_ok (parseCIDRs (cf_TrustedProxyCIDRs c)))"
  by (auto simp: validate_internal_def is_ok_iff)

lemma Validate_exact: "Validate ce c = Ok () \<longleftrightarrow> valid_config ce c"
proof -
  let ?m = "ToLower (TrimSpace (cf_StorageMode c))"
  have all: "Validate ce c = Ok () \<longleftrightarrow> (\<exists>mode. validate_mode c = Ok mode \<and> validate_origin ce c mode = Ok ()) \<and> validate_limits c = Ok () \<and>
      validate_paths ce c = Ok () \<and> (\<exists>u. validate_public ce c = Ok u \<and> validate_catalog ce c u = Ok ()) \<and> validate_auth ce c = Ok () \<and>
      validate_cors c = Ok () \<and> validate_internal c = Ok ()"
    by (cases "validate_mode c"; cases "validate_public ce c") (simp_all add: Validate_def conj_ac)
  have mode: "(\<exists>mode. validate_mode c = Ok mode \<and> validate_origin ce c mode = Ok ()) \<longleftrightarrow> ?m \<in> {[], ''filesystem'', ''proxy'', ''hybrid''} \<and>
      (?m \<in> {''proxy'', ''hybrid''} \<longrightarrow> TrimSpace (cf_OriginBaseURL c) \<noteq> [] \<and> http_url ce (cf_OriginBaseURL c) (\<lambda>_. True))"
    unfolding validate_mode_Ok validate_origin_Ok by (cases "?m \<in> {''proxy'', ''hybrid''}") (simp_all only: simp_thms if_True if_False, auto)
  have public: "(\<exists>u. validate_public ce c = Ok u \<and> validate_catalog ce c u = Ok ()) \<longleftrightarrow>
      (TrimSpace (cf_CatalogBaseURL c) \<noteq> [] \<longrightarrow> http_url ce (cf_CatalogBaseURL c) (\<lambda>_. True) \<and> TrimSpace (cf_PublicBaseURL c) \<noteq> []) \<and>
      (TrimSpace (cf_PublicBaseURL c) \<noteq> [] \<longrightarrow> http_url ce (cf_PublicBaseURL c) (\<lambda>u. EqualFold (url_scheme u) ''https'' \<or> cf_AllowInsecurePublicURL c))"
    unfolding validate_catalog_Ok
    by (rule validate_public_Ok [of ce c "\<lambda>p. TrimSpace (cf_CatalogBaseURL c) \<noteq> [] \<longrightarrow> http_url ce (cf_CatalogBaseURL c) (\<lambda>_. True) \<and> p"])
  have paths: "validate_paths ce c = Ok () \<longleftrightarrow>
      TrimSpace (cf_DataPath c) \<noteq> [] \<and> ce_mkdirAll ce (cf_DataPath c) \<and> ce_mkdirAll ce (Join [cf_DataPath c, cf_AssetsSubdir c])"
    by (simp add: validate_paths_def)
  have cors: "validate_cors c = Ok () \<longleftrightarrow>
      (cf_EnableCORS c \<longrightarrow> splitCSV (cf_CORSAllowedOrigins c) \<noteq> [] \<and> ''*'' \<notin> set (splitCSV (cf_CORSAllowedOrigins c)))"
    by (simp add: validate_cors_def Let_def)
  show ?thesis
    unfolding all mode public paths cors valid_config_def validate_limits_Ok validate_auth_Ok validate_internal_Ok conj_assoc by (rule refl)
qed

text \<open>In production the internal endpoints open only on purpose: a loaded configuration for the production environment
  that enables them and passes validation comes from an environment that sets
  \<open>PROVIDER_INTERNAL_ENABLE\<close> to a true value and \<open>PROVIDER_INTERNAL_ALLOWED_CIDRS\<close> to a list of valid blocks.\<close>

theorem internal_opt_in:
  assumes "load_env os = ''prod''" "cf_InternalEnable (Load os)" "Validate ce (Load os) = Ok ()"
  shows "\<exists>v cidrs nets. os ''PROVIDER_INTERNAL_ENABLE'' = Some v \<and> ParseBool v = Some True \<and>
     os ''PROVIDER_INTERNAL_ALLOWED_CIDRS'' = Some cidrs \<and> parseCIDRs cidrs = Ok nets \<and> nets \<noteq> []"
proof -
  have "validate_internal (Load os) = Ok ()" using assms(3) by (auto simp: Validate_def)
  from validated_internal [OF this assms(2)]
  obtain nets where c: "TrimSpace (Getenv os ''PROVIDER_INTERNAL_ALLOWED_CIDRS'') \<noteq> []"
    "parseCIDRs (Getenv os ''PROVIDER_INTERNAL_ALLOWED_CIDRS'') = Ok nets" "nets \<noteq> []"
    unfolding prod_internal(2) [OF assms(1)] by blast
  moreover have "os ''PROVIDER_INTERNAL_ALLOWED_CIDRS'' = Some (Getenv os ''PROVIDER_INTERNAL_ALLOWED_CIDRS'')"
    using c(1) by (cases "os ''PROVIDER_INTERNAL_ALLOWED_CIDRS''") (simp_all add: Getenv_def)
  moreover have "\<exists>v. os ''PROVIDER_INTERNAL_ENABLE'' = Some v \<and> ParseBool v = Some True"
    using prod_internal(1) [OF assms(1)] assms(2) by simp
  ultimately show ?thesis by blast
qed

section \<open>A concrete environment\<close>

definition demo_os :: os_env where
  "demo_os = [''PROVIDER_INTERNAL_ENABLE'' \<mapsto> ''true'', ''PROVIDER_INTERNAL_ALLOWED_CIDRS'' \<mapsto> ''10.0.0.0/8'']"

definition demo_ce :: "config_env" where
  "demo_ce = \<lparr>ce_mkdirAll = (\<lambda>_. True), ce_readFile = (\<lambda>_. None), ce_urlParse = (\<lambda>_. None)\<rparr>"

lemma demo_trim:
  "TrimSpace ''prod'' = ''prod''" "TrimSpace ''filesystem'' = ''filesystem''" "TrimSpace ''none'' = ''none''"
  "TrimSpace ''./data'' = ''./data''" "TrimSpace ''10.0.0.0/8'' = ''10.0.0.0/8''"
  by (rule TrimSpace_all_graphic, simp add: graphic_def)+

lemma demo_lower: "ToLower [] = []" "ToLower ''prod'' = ''prod''" "ToLower ''filesystem'' = ''filesystem''" "ToLower ''none'' = ''none''"
  "Split ''10.0.0.0/8'' CHR '','' = [''10.0.0.0/8'']"
  by code_simp+

lemma demo_load_env: "load_env demo_os = ''prod''"
  by (simp add: load_env_def demo_os_def Getenv_def getenv_def Let_def demo_trim demo_lower del: ToLower.simps(2))

lemma demo_load_fields:
  "cf_StorageMode (Load demo_os) = ''filesystem''" "cf_OriginAuthMode (Load demo_os) = ''none''"
  "cf_DataPath (Load demo_os) = ''./data''" "cf_PublicBaseURL (Load demo_os) = []" "cf_CatalogBaseURL (Load demo_os) = []"
  "\<not> cf_EnableCORS (Load demo_os)" "cf_TrustedProxyCIDRs (Load demo_os) = []"
  "cf_MaxSegmentBytes (Load demo_os) = 67108864" "cf_RateLimitRPS (Load demo_os) = 20"
  "cf_RateLimitBurst (Load demo_os) = 40" "cf_ShutdownTimeoutSeconds (Load demo_os) = 15"
  "cf_ProxyMaxUpstreamConcurrency (Load demo_os) = 64"
  unfolding Load_def Let_def case_prod_unfold
  by (simp_all add: demo_os_def Getenv_def getenv_def getenvInt_def getenvInt64_def getenvBool_def Let_def demo_trim demo_lower del: ToLower.simps(2))

lemma demo_internal: "cf_InternalEnable (Load demo_os)" "cf_InternalAllowedCIDRs (Load demo_os) = ''10.0.0.0/8''"
  by (simp_all add: prod_internal [OF demo_load_env]) (simp_all add: demo_os_def ParseBool_def Getenv_def)

lemma demo_cidr: "\<exists>nets. parse_all [''10.0.0.0/8''] = Ok nets"
proof -
  have "ParseCIDR ''10.0.0.0/8'' \<noteq> None" by code_simp
  then show ?thesis by auto
qed

lemma demo_validate: "Validate demo_ce (Load demo_os) = Ok ()"
  by (simp add: Validate_def validate_mode_def validate_limits_Ok validate_paths_def validate_public_def validate_origin_def
      validate_auth_def validate_catalog_def validate_cors_def validate_internal_def parseCIDRs_def splitCSV_def Let_def
      demo_load_fields demo_internal demo_trim demo_lower demo_ce_def demo_cidr del: ToLower.simps parse_all.simps)

theorem internal_opt_in_witness:
  "\<exists>v cidrs. demo_os ''PROVIDER_INTERNAL_ENABLE'' = Some v \<and> ParseBool v = Some True \<and>
     demo_os ''PROVIDER_INTERNAL_ALLOWED_CIDRS'' = Some cidrs"
  using internal_opt_in [OF demo_load_env demo_internal(1) demo_validate] by blast

end
