(* ===== verification/Identity.thy ===== *)
theory Identity
  imports Go_Path Go_Time
begin

text \<open>
  Package \<open>identity\<close>: the provider's key pair and the file it is kept in. Elliptic-curve arithmetic, UUID parsing, JSON and
  SHA-256 are parameters. A private key is its 32-byte serialization, a public key its
  compressed serialization, a provider id its canonical text. The file system maps paths to content and mode;
  the JSON decoder returns the value and whether nothing but white space follows it; every system call of \<open>Save\<close> may fail, as the script \<open>fails\<close> says. The model is that of a Unix target, where
  \<open>enforce0600\<close> changes the mode.
\<close>

record Identity =
  id_ProviderID :: string
  id_PrivateKey :: string
  id_PublicKey :: string
  id_CreatedAt :: instant

record fileIdentity =
  fj_ProviderID :: string
  fj_PublicKey :: string
  fj_PrivateKey :: string
  fj_CreatedAt :: string

record key_lib =
  kl_fromBytes :: "string \<Rightarrow> string \<times> string"
  kl_isZero :: "string \<Rightarrow> bool"
  kl_parsePub :: "string \<Rightarrow> bool"
  kl_uuid :: "string \<Rightarrow> string option"
  kl_encode :: "fileIdentity \<Rightarrow> string option"
  kl_decode :: "string \<Rightarrow> (fileIdentity \<times> bool) option"

datatype identity_error = IdentityNotFound | IdentityError string

definition PublicKeyHexCompressed :: "Identity \<Rightarrow> string" where
  "PublicKeyHexCompressed i = hex_EncodeToString (id_PublicKey i)"

definition Fingerprint :: "(string \<Rightarrow> string) \<Rightarrow> Identity \<Rightarrow> string" where
  "Fingerprint sha256 i = take 8 (hex_EncodeToString (sha256 (id_PublicKey i)))"

section \<open>Parsing\<close>

definition parseProviderID :: "key_lib \<Rightarrow> string \<Rightarrow> (identity_error, string) result" where
  "parseProviderID lib value =
     (case kl_uuid lib value of None \<Rightarrow> Err (IdentityError ''invalid provider_id'') | Some u \<Rightarrow> Ok u)"

definition parseCreatedAt :: "string \<Rightarrow> (identity_error, instant) result" where
  "parseCreatedAt value =
     (case Parse value of None \<Rightarrow> Err (IdentityError ''invalid created_at'') | Some t \<Rightarrow> Ok t)"

definition parsePrivateKeyHex :: "key_lib \<Rightarrow> string \<Rightarrow> (identity_error, string \<times> string) result" where
  "parsePrivateKeyHex lib value =
     (case hex_DecodeString value of
        None \<Rightarrow> Err (IdentityError ''invalid private_key hex'')
      | Some privBytes \<Rightarrow>
          if length privBytes \<noteq> 32 then Err (IdentityError ''invalid private_key length'')
          else let (priv, derivedPub) = kl_fromBytes lib privBytes
               in if kl_isZero lib priv then Err (IdentityError ''invalid private_key: zero scalar'')
                  else Ok (priv, derivedPub))"

definition parsePublicKeyHexCompressed :: "key_lib \<Rightarrow> string \<Rightarrow> (identity_error, string) result" where
  "parsePublicKeyHexCompressed lib value =
     (case hex_DecodeString value of
        None \<Rightarrow> Err (IdentityError ''invalid public_key hex'')
      | Some pubBytes \<Rightarrow>
          if length pubBytes \<noteq> 33 then Err (IdentityError ''invalid public_key length'')
          else if \<not> kl_parsePub lib pubBytes then Err (IdentityError ''invalid public_key'')
          else Ok pubBytes)"

definition validatePubKeyMatchesPrivate :: "string \<Rightarrow> string \<Rightarrow> (identity_error, unit) result" where
  "validatePubKeyMatchesPrivate derivedPub storedPub =
     (if derivedPub \<noteq> storedPub then Err (IdentityError ''public_key does not match private_key'') else Ok ())"

section \<open>The file store\<close>

type_synonym id_fs = "string \<rightharpoonup> string \<times> int"

definition FileStore_Load :: "key_lib \<Rightarrow> bool \<Rightarrow> bool \<Rightarrow> string \<Rightarrow> id_fs \<Rightarrow> (identity_error, Identity) result" where
  "FileStore_Load lib ctxDone readFails path fs =
     (if ctxDone then Err (IdentityError ''context'')
      else if readFails then Err (IdentityError ''read'')
      else case fs path of
        None \<Rightarrow> Err IdentityNotFound
      | Some (raw, _) \<Rightarrow>
          (case kl_decode lib raw of
             None \<Rightarrow> Err (IdentityError ''decode identity json'')
           | Some (stored, atEOF) \<Rightarrow>
               if \<not> atEOF then Err (IdentityError ''invalid identity json: trailing data'') else
               (case parseProviderID lib (fj_ProviderID stored) of Inl e \<Rightarrow> Err e | Inr providerID \<Rightarrow>
               (case parseCreatedAt (fj_CreatedAt stored) of Inl e \<Rightarrow> Err e | Inr createdAt \<Rightarrow>
               (case parsePrivateKeyHex lib (fj_PrivateKey stored) of Inl e \<Rightarrow> Err e | Inr (priv, derivedPub) \<Rightarrow>
               (case parsePublicKeyHexCompressed lib (fj_PublicKey stored) of Inl e \<Rightarrow> Err e | Inr pubBytes \<Rightarrow>
               (case validatePubKeyMatchesPrivate derivedPub pubBytes of Inl e \<Rightarrow> Err e | Inr _ \<Rightarrow>
                  Ok \<lparr>id_ProviderID = providerID, id_PrivateKey = priv, id_PublicKey = derivedPub,
                      id_CreatedAt = createdAt\<rparr>)))))))"

datatype save_step = MkdirStep | CreateTempStep | ChmodTempStep | WriteStep | SyncStep | CloseStep | RenameStep
  | ChmodStep | RemoveStep

definition stored_identity :: "Identity \<Rightarrow> fileIdentity" where
  "stored_identity i =
     \<lparr>fj_ProviderID = id_ProviderID i, fj_PublicKey = PublicKeyHexCompressed i,
      fj_PrivateKey = hex_EncodeToString (id_PrivateKey i), fj_CreatedAt = Format (id_CreatedAt i)\<rparr>"

text \<open>
  \<open>tmpPath\<close> is the name that \<open>os.CreateTemp\<close> picked, a new file with mode 0600 (384); \<open>written\<close> is how
  much of the text a failing write leaves behind.
\<close>

definition FileStore_Save ::
  "key_lib \<Rightarrow> bool \<Rightarrow> (save_step \<Rightarrow> bool) \<Rightarrow> string \<Rightarrow> nat \<Rightarrow> string \<Rightarrow> Identity \<Rightarrow> id_fs \<Rightarrow>
   (identity_error, unit) result \<times> id_fs" where
  "FileStore_Save lib ctxDone fails tmpPath written path i fs =
     (let fail = (\<lambda>msg fs'. (Err (IdentityError msg), if fails RemoveStep then fs' else fs'(tmpPath := None)))
      in if ctxDone then (Err (IdentityError ''context''), fs)
         else if fails MkdirStep then (Err (IdentityError ''create identity dir''), fs)
         else case kl_encode lib (stored_identity i) of
           None \<Rightarrow> (Err (IdentityError ''marshal identity json''), fs)
         | Some json \<Rightarrow>
             let encoded = json @ [CHR 0x0A]
             in if fails CreateTempStep then (Err (IdentityError ''create temp identity file''), fs)
                else let fs1 = fs(tmpPath \<mapsto> ([], 384))
                     in if fails ChmodTempStep then fail ''chmod identity file'' fs1
                        else if fails WriteStep then fail ''write temp identity file'' (fs1(tmpPath \<mapsto> (take written encoded, 384)))
                        else let fs2 = fs1(tmpPath \<mapsto> (encoded, 384))
                             in if fails SyncStep then fail ''sync temp identity file'' fs2
                                else if fails CloseStep then fail ''close temp identity file'' fs2
                                else if fails RenameStep then fail ''rename temp identity file'' fs2
                                else let fs3 = (fs2(tmpPath := None))(path \<mapsto> (encoded, 384))
                                     in if fails ChmodStep then fail ''chmod identity file'' fs3
                                        else (Ok (), fs3))"

section \<open>Load or create\<close>

text \<open>What key generation returns, the UUID drawn and the clock reading are arguments.\<close>

type_synonym key_gen = "(string, string \<times> string) result"

definition newIdentity :: "key_gen \<Rightarrow> string \<Rightarrow> instant \<Rightarrow> (identity_error, Identity) result" where
  "newIdentity keys uuid now =
     (case keys of
        Inl e \<Rightarrow> Err (IdentityError e)
      | Inr (priv, pub) \<Rightarrow>
          Ok \<lparr>id_ProviderID = uuid, id_PrivateKey = priv, id_PublicKey = pub, id_CreatedAt = now\<rparr>)"

definition LoadOrCreate ::
  "('s \<Rightarrow> (identity_error, Identity) result) \<Rightarrow> (Identity \<Rightarrow> 's \<Rightarrow> (identity_error, unit) result \<times> 's) \<Rightarrow>
   key_gen \<Rightarrow> string \<Rightarrow> instant \<Rightarrow> 's \<Rightarrow> (identity_error, Identity \<times> bool) result \<times> 's" where
  "LoadOrCreate load save keys uuid now s =
     (case load s of
        Inr i \<Rightarrow> (Ok (i, False), s)
      | Inl IdentityNotFound \<Rightarrow>
          (case newIdentity keys uuid now of
             Inl e \<Rightarrow> (Err e, s)
           | Inr i \<Rightarrow>
               (case save i s of
                  (Inl e, s') \<Rightarrow> (Err e, s')
                | (Inr _, s') \<Rightarrow> (Ok (i, True), s')))
      | Inl e \<Rightarrow> (Err e, s))"

section \<open>Properties\<close>

text \<open>C31. Saving is atomic: whatever fails, the identity file afterwards is either what it was before or the complete new text with
  mode 0600, the latter whenever saving succeeds, and no other file changes except the temporary one, which is gone unless its removal
  fails.\<close>

theorem save_atomic:
  assumes "FileStore_Save lib ctxDone fails tmpPath n path i fs = (r, fs')" "tmpPath \<noteq> path" "fs tmpPath = None"
  shows "(fs' path = fs path \<or> (\<exists>json. kl_encode lib (stored_identity i) = Some json \<and> fs' path = Some (json @ [CHR 0x0A], 384))) \<and>
    (r = Ok () \<longrightarrow> (\<exists>json. kl_encode lib (stored_identity i) = Some json \<and> fs' path = Some (json @ [CHR 0x0A], 384))) \<and>
    (fs' tmpPath = None \<or> r \<noteq> Ok () \<and> fails RemoveStep) \<and>
    (\<forall>p. p \<noteq> path \<and> p \<noteq> tmpPath \<longrightarrow> fs' p = fs p)"
proof (cases "kl_encode lib (stored_identity i)")
  case None
  with assms show ?thesis by (auto simp: FileStore_Save_def Let_def split: if_splits)
next
  case (Some json)
  consider "ctxDone" | "fails MkdirStep" | "fails CreateTempStep" | "fails ChmodTempStep" | "fails WriteStep" | "fails SyncStep"
    | "fails CloseStep" | "fails RenameStep" | "fails ChmodStep"
    | "\<not> (ctxDone \<or> fails MkdirStep \<or> fails CreateTempStep \<or> fails ChmodTempStep \<or> fails WriteStep \<or> fails SyncStep \<or>
         fails CloseStep \<or> fails RenameStep \<or> fails ChmodStep)" by blast
  then show ?thesis
    using assms Some by cases (auto simp: FileStore_Save_def Let_def split: if_splits)
qed

lemma load_stored:
  assumes "kl_decode lib raw = Some (stored_identity i, True)" "fs path = Some (raw, md)"
    and "kl_uuid lib (id_ProviderID i) = Some (id_ProviderID i)" "rfc_range (id_CreatedAt i)"
    and "length (id_PrivateKey i) = 32" "kl_fromBytes lib (id_PrivateKey i) = (id_PrivateKey i, id_PublicKey i)"
    and "\<not> kl_isZero lib (id_PrivateKey i)" "length (id_PublicKey i) = 33" "kl_parsePub lib (id_PublicKey i)"
  shows "FileStore_Load lib False False path fs =
     Ok (i\<lparr>id_CreatedAt := from_Unix (Unix (id_CreatedAt i))\<rparr>)"
  using assms
  by (simp add: FileStore_Load_def stored_identity_def parseProviderID_def parseCreatedAt_def Parse_Format
      parsePrivateKeyHex_def parsePublicKeyHexCompressed_def PublicKeyHexCompressed_def validatePubKeyMatchesPrivate_def)

text \<open>
  What a generated identity relies on in the libraries: its id is in canonical form, its keys belong together and have their
  lengths, and JSON reads back what it wrote.
\<close>

definition storable :: "key_lib \<Rightarrow> Identity \<Rightarrow> bool" where
  "storable lib i \<longleftrightarrow>
     kl_uuid lib (id_ProviderID i) = Some (id_ProviderID i) \<and> rfc_range (id_CreatedAt i) \<and>
     length (id_PrivateKey i) = 32 \<and> kl_fromBytes lib (id_PrivateKey i) = (id_PrivateKey i, id_PublicKey i) \<and>
     \<not> kl_isZero lib (id_PrivateKey i) \<and> length (id_PublicKey i) = 33 \<and> kl_parsePub lib (id_PublicKey i) \<and>
     (\<exists>json. kl_encode lib (stored_identity i) = Some json \<and> kl_decode lib (json @ [CHR 0x0A]) = Some (stored_identity i, True))"

text \<open>
  The contract of the interface \<open>IdentityStore\<close>: what was saved successfully is loaded, up to the precision \<open>canon\<close> of the store.
\<close>

locale identity_store =
  fixes load :: "'s \<Rightarrow> (identity_error, Identity) result"
    and save :: "Identity \<Rightarrow> 's \<Rightarrow> (identity_error, unit) result \<times> 's"
    and fits :: "Identity \<Rightarrow> bool"
    and canon :: "Identity \<Rightarrow> Identity"
  assumes load_save: "save i s = (Ok (), s') \<Longrightarrow> fits i \<Longrightarrow> load s' = Ok (canon i)"
begin

lemma created_saved:
  "LoadOrCreate load save keys uuid now s = (Ok (i, True), s') \<Longrightarrow> newIdentity keys uuid now = Ok i \<and> save i s = (Ok (), s')"
  by (auto simp: LoadOrCreate_def split: sum.splits identity_error.splits prod.splits)

lemma created_stable:
  assumes "LoadOrCreate load save keys uuid now s = (Ok (i, True), s')" "fits i"
  shows "newIdentity keys uuid now = Ok i \<and> LoadOrCreate load save2 keys2 uuid2 now2 s' = (Ok (canon i, False), s')"
  using created_saved [OF assms(1)] load_save assms(2) by (auto simp: LoadOrCreate_def)

end

lemma FileStore_load_save:
  assumes "FileStore_Save lib False fails tmpPath n path i fs = (Ok (), fs')" "storable lib i \<and> tmpPath \<noteq> path"
  shows "FileStore_Load lib False False path fs' = Ok (i\<lparr>id_CreatedAt := from_Unix (Unix (id_CreatedAt i))\<rparr>)"
proof -
  obtain json where json: "kl_encode lib (stored_identity i) = Some json"
    "kl_decode lib (json @ [CHR 0x0A]) = Some (stored_identity i, True)" using assms(2) by (auto simp: storable_def)
  then have "fs' path = Some (json @ [CHR 0x0A], 384)" using assms by (auto simp: FileStore_Save_def Let_def split: if_splits)
  then show ?thesis using load_stored [OF json(2)] assms(2) by (simp add: storable_def)
qed

interpretation file_store: identity_store
  "FileStore_Load lib False False path" "FileStore_Save lib False fails tmpPath n path" "\<lambda>i. storable lib i \<and> tmpPath \<noteq> path"
  "\<lambda>i. i\<lparr>id_CreatedAt := from_Unix (Unix (id_CreatedAt i))\<rparr>" for lib path fails tmpPath n
  by unfold_locales (rule FileStore_load_save)

text \<open>C16. The identity is stable: when the first start creates and saves an identity, every later start loads the same provider id and
  the same keys, with the creation time to the second, creates nothing and leaves the files alone.\<close>

theorem identity_stable:
  assumes "LoadOrCreate (FileStore_Load lib False False path) (FileStore_Save lib False fails tmpPath n path) keys uuid now fs =
      (Ok (i, True), fs')"
    and "storable lib i" "tmpPath \<noteq> path"
  shows "newIdentity keys uuid now = Ok i \<and>
    LoadOrCreate (FileStore_Load lib False False path) (FileStore_Save lib False fails2 tmpPath2 n2 path) keys2 uuid2 now2 fs' =
      (Ok (i\<lparr>id_CreatedAt := from_Unix (Unix (id_CreatedAt i))\<rparr>, False), fs')"
  using file_store.created_stable [OF assms(1)] assms(2,3) by blast

section \<open>A concrete store\<close>

definition demo_identity :: Identity where
  "demo_identity = \<lparr>id_ProviderID = ''p1'', id_PrivateKey = replicate 32 (CHR ''k''), id_PublicKey = replicate 33 (CHR ''p''),
     id_CreatedAt = 1500000000\<rparr>"

definition demo_lib :: key_lib where
  "demo_lib = \<lparr>kl_fromBytes = (\<lambda>k. (k, replicate 33 (CHR ''p''))), kl_isZero = (\<lambda>_. False), kl_parsePub = (\<lambda>_. True),
     kl_uuid = Some, kl_encode = (\<lambda>_. Some ''{}''), kl_decode = (\<lambda>_. Some (stored_identity demo_identity, True))\<rparr>"

lemma demo_storable: "storable demo_lib demo_identity"
  by (simp add: storable_def demo_lib_def demo_identity_def rfc_range_def Unix_def)

theorem save_atomic_witness:
  "snd (FileStore_Save demo_lib False (\<lambda>s. s = WriteStep) ''/i.tmp'' 1 ''/i'' demo_identity Map.empty) ''/i'' = None"
  using save_atomic [of demo_lib False "\<lambda>s. s = WriteStep" "''/i.tmp''" 1 "''/i''" demo_identity Map.empty,
      OF prod.collapse [symmetric]]
  by (simp add: FileStore_Save_def demo_lib_def Let_def)

definition demo_keys :: key_gen where
  "demo_keys = Ok (id_PrivateKey demo_identity, id_PublicKey demo_identity)"

lemma demo_new: "newIdentity demo_keys ''p1'' 1500000000 = Ok demo_identity"
  by (simp add: newIdentity_def demo_keys_def demo_identity_def)

theorem identity_stable_witness:
  "\<exists>fs'. LoadOrCreate (FileStore_Load demo_lib False False ''/i'')
       (FileStore_Save demo_lib False (\<lambda>_. False) ''/i.tmp'' 0 ''/i'') demo_keys ''p1'' 1500000000 Map.empty = (Ok (demo_identity, True), fs') \<and>
     fst (LoadOrCreate (FileStore_Load demo_lib False False ''/i'')
       (FileStore_Save demo_lib False (\<lambda>_. False) ''/i.tmp'' 0 ''/i'') demo_keys ''p2'' 7 fs') =
       Ok (demo_identity\<lparr>id_CreatedAt := 1000000000\<rparr>, False)"
proof -
  have "\<exists>fs'. LoadOrCreate (FileStore_Load demo_lib False False ''/i'')
       (FileStore_Save demo_lib False (\<lambda>_. False) ''/i.tmp'' 0 ''/i'') demo_keys ''p1'' 1500000000 Map.empty = (Ok (demo_identity, True), fs')"
    by (simp add: LoadOrCreate_def demo_new FileStore_Load_def FileStore_Save_def Let_def) (simp add: demo_lib_def)
  then obtain fs' where run: "LoadOrCreate (FileStore_Load demo_lib False False ''/i'')
       (FileStore_Save demo_lib False (\<lambda>_. False) ''/i.tmp'' 0 ''/i'') demo_keys ''p1'' 1500000000 Map.empty = (Ok (demo_identity, True), fs')"
    by blast
  show ?thesis
    using run identity_stable [OF run demo_storable, of "\<lambda>_. False" "''/i.tmp''" 0 demo_keys "''p2''" 7]
    by (auto simp: demo_identity_def from_Unix_def Unix_def)
qed

end
