(* ===== verification/Catalog.thy ===== *)
theory Catalog
  imports Config Identity Metrics
begin

text \<open>
  Package \<open>catalog\<close>: the client of the remote catalog, the signed announcements and the health state. The network, URL parsing and
  printing, SHA-256, the Schnorr signature and the random source are parameters. A response is its status and what
  decoding its body as JSON gives.
\<close>

section \<open>Models\<close>

record EnsureProviderRequest =
  ep_ProviderID :: string
  ep_PublicKey :: string
  ep_Transport :: string
  ep_BaseURL :: string
  ep_Region :: string

record AnnounceRequest =
  ar_AssetID :: string
  ar_Transport :: string
  ar_BaseURL :: string
  ar_Priority :: int
  ar_ExpiresInSeconds :: int
  ar_ExpiresAt :: int
  ar_Nonce :: string
  ar_Signature :: string

record AnnounceResponse =
  an_Status :: string

datatype catalog_error = ErrNotFound | ErrUnauthorized | ErrConflict | ErrBadRequest | ErrServer
  | ErrUnexpected int | ErrUnconfigured | OtherCatalogError string

text \<open>\<open>err.Error()\<close>.\<close>

definition error_text :: "catalog_error \<Rightarrow> string" where
  "error_text e =
     (case e of
        ErrNotFound \<Rightarrow> ''catalog not found''
      | ErrUnauthorized \<Rightarrow> ''catalog unauthorized''
      | ErrConflict \<Rightarrow> ''catalog conflict''
      | ErrBadRequest \<Rightarrow> ''catalog bad request''
      | ErrServer \<Rightarrow> ''catalog server error''
      | ErrUnexpected n \<Rightarrow> ''catalog unexpected response: status='' @ FormatInt n
      | ErrUnconfigured \<Rightarrow> ''catalog client unconfigured''
      | OtherCatalogError s \<Rightarrow> s)"

section \<open>Signing\<close>

definition buildSignatureMessage :: "string \<Rightarrow> string \<Rightarrow> string \<Rightarrow> string \<Rightarrow> int \<Rightarrow> string \<Rightarrow> string" where
  "buildSignatureMessage providerID assetID transport baseURL expiresAt nonce =
     providerID @ ''|'' @ assetID @ ''|'' @ transport @ ''|'' @ baseURL @ ''|'' @ FormatInt expiresAt @ ''|'' @ nonce"

record sign_lib =
  sl_nonce :: "nat \<Rightarrow> (string, string) result"
  sl_sha256 :: "string \<Rightarrow> string"
  sl_schnorr :: "string \<Rightarrow> string \<Rightarrow> (string, string) result"

definition BuildAnnouncement ::
  "sign_lib \<Rightarrow> Identity \<Rightarrow> Config \<Rightarrow> string \<Rightarrow> instant \<Rightarrow> (catalog_error, AnnounceRequest) result" where
  "BuildAnnouncement lib i cfg assetID now =
     (if TrimSpace (cf_PublicBaseURL cfg) = [] then Err (OtherCatalogError ''public base url is required'')
      else if TrimSpace assetID = [] then Err (OtherCatalogError ''asset_id is required'')
      else case sl_nonce lib 16 of
        Inl e \<Rightarrow> Err (OtherCatalogError (''generate nonce: '' @ e))
      | Inr nonceBytes \<Rightarrow>
          (let nonceHex = hex_EncodeToString nonceBytes;
               baseURL = TrimRight (cf_PublicBaseURL cfg) ''/'' @ ''/assets/'' @ assetID;
               expiresAt = Unix (now + seconds (cf_AnnounceExpiresSeconds cfg));
               message = buildSignatureMessage (id_ProviderID i) assetID (cf_Transport cfg) baseURL expiresAt nonceHex;
               hash = sl_sha256 lib message
           in case sl_schnorr lib (id_PrivateKey i) hash of
                Inl e \<Rightarrow> Err (OtherCatalogError (''sign announcement: '' @ e))
              | Inr sig \<Rightarrow>
                  Ok \<lparr>ar_AssetID = assetID, ar_Transport = cf_Transport cfg, ar_BaseURL = baseURL,
                      ar_Priority = cf_AnnouncePriority cfg, ar_ExpiresInSeconds = cf_AnnounceExpiresSeconds cfg,
                      ar_ExpiresAt = expiresAt, ar_Nonce = nonceHex, ar_Signature = hex_EncodeToString sig\<rparr>))"

section \<open>The client\<close>

record Client =
  cl_baseURL :: url_parts
  cl_timeout :: int

definition NewClient :: "(string \<Rightarrow> url_parts option) \<Rightarrow> string \<Rightarrow> int \<Rightarrow> (catalog_error, Client) result" where
  "NewClient urlParse rawBaseURL timeout =
     (let trimmed = TrimSpace rawBaseURL
      in if trimmed = [] then Err ErrUnconfigured
         else case urlParse trimmed of
           None \<Rightarrow> Err (OtherCatalogError ''parse catalog base url'')
         | Some u \<Rightarrow>
             if url_scheme u = [] \<or> url_host u = [] then Err (OtherCatalogError ''invalid catalog base url'')
             else Ok \<lparr>cl_baseURL = u, cl_timeout = (if timeout \<le> 0 then 10 * nanos else timeout)\<rparr>)"

definition joinPath :: "(url_parts \<Rightarrow> string) \<Rightarrow> Client \<Rightarrow> string list \<Rightarrow> string" where
  "joinPath urlString c parts =
     (let joined = foldl (\<lambda>j p. Join [j, p]) [] parts
      in urlString ((cl_baseURL c)\<lparr>url_path := Join [url_path (cl_baseURL c), joined]\<rparr>))"

definition statusError :: "int \<Rightarrow> catalog_error" where
  "statusError status =
     (if status = 400 then ErrBadRequest
      else if status = 401 \<or> status = 403 then ErrUnauthorized
      else if status = 404 then ErrNotFound
      else if status = 409 then ErrConflict
      else if 500 \<le> status then ErrServer
      else ErrUnexpected status)"

definition catalogResult :: "int \<Rightarrow> string" where
  "catalogResult status =
     (if status = 401 \<or> status = 403 then ''unauthorized''
      else if status = 404 then ''rejected''
      else if 500 \<le> status then ''server_error''
      else if 400 \<le> status then ''client_error''
      else ''ok'')"

datatype payload = EnsurePayload EnsureProviderRequest | AnnouncePayload AnnounceRequest

record catalog_request =
  cq_method :: string
  cq_url :: string
  cq_contentType :: string
  cq_payload :: payload

datatype json_result = Decoded AnnounceResponse | DecodeEOF | DecodeError string

record catalog_response =
  cs_status :: int
  cs_json :: json_result

type_synonym catalog_net = "catalog_request \<Rightarrow> (string, catalog_response) result"

definition doJSON :: "catalog_net \<Rightarrow> string \<Rightarrow> string \<Rightarrow> payload \<Rightarrow> (catalog_error, catalog_response) result" where
  "doJSON net method endpoint p =
     (case net \<lparr>cq_method = method, cq_url = endpoint, cq_contentType = ''application/json'', cq_payload = p\<rparr> of
        Inl e \<Rightarrow> Err (OtherCatalogError (''request catalog: '' @ e))
      | Inr resp \<Rightarrow> Ok resp)"

definition EnsureProvider ::
  "catalog_net \<Rightarrow> (url_parts \<Rightarrow> string) \<Rightarrow> int \<Rightarrow> Client \<Rightarrow> Identity \<Rightarrow> Config \<Rightarrow> metrics \<Rightarrow>
   (catalog_error, unit) result \<times> metrics" where
  "EnsureProvider net urlString elapsed c i cfg m =
     (let observe = (\<lambda>result status. ObserveCatalog ''providers_register'' result status elapsed m)
      in if TrimSpace (cf_PublicBaseURL cfg) = []
         then (Err (OtherCatalogError ''public base url is required''), observe ''error'' 0)
         else case doJSON net ''POST'' (joinPath urlString c [''/v1/providers''])
             (EnsurePayload \<lparr>ep_ProviderID = id_ProviderID i, ep_PublicKey = PublicKeyHexCompressed i,
                ep_Transport = cf_Transport cfg, ep_BaseURL = cf_PublicBaseURL cfg, ep_Region = cf_Region cfg\<rparr>) of
           Inl e \<Rightarrow> (Err e, observe ''error'' 0)
         | Inr resp \<Rightarrow>
             if cs_status resp < 200 \<or> 300 \<le> cs_status resp
             then (Err (statusError (cs_status resp)), observe (catalogResult (cs_status resp)) (cs_status resp))
             else (Ok (), observe ''ok'' (cs_status resp)))"

definition Announce ::
  "catalog_net \<Rightarrow> (url_parts \<Rightarrow> string) \<Rightarrow> int \<Rightarrow> Client \<Rightarrow> Identity \<Rightarrow> AnnounceRequest \<Rightarrow> metrics \<Rightarrow>
   (catalog_error, AnnounceResponse) result \<times> metrics" where
  "Announce net urlString elapsed c i req m =
     (let observe = (\<lambda>result status. ObserveCatalog ''providers_announce'' result status elapsed m)
      in case doJSON net ''POST'' (joinPath urlString c [''/v1/providers'', id_ProviderID i, ''announce'']) (AnnouncePayload req) of
           Inl e \<Rightarrow> (Err e, observe ''error'' 0)
         | Inr resp \<Rightarrow>
             if cs_status resp < 200 \<or> 300 \<le> cs_status resp
             then (Err (statusError (cs_status resp)), observe (catalogResult (cs_status resp)) (cs_status resp))
             else (case cs_json resp of
                DecodeError e \<Rightarrow> (Err (OtherCatalogError (''decode announce response: '' @ e)), observe ''error'' (cs_status resp))
              | DecodeEOF \<Rightarrow> (Ok \<lparr>an_Status = []\<rparr>, observe ''ok'' (cs_status resp))
              | Decoded out \<Rightarrow> (Ok out, observe ''ok'' (cs_status resp))))"

section \<open>Health state\<close>

record HealthState =
  hl_enabled :: bool
  hl_lastErr :: string

definition NewHealthState :: "bool \<Rightarrow> HealthState" where
  "NewHealthState enabled = \<lparr>hl_enabled = enabled, hl_lastErr = []\<rparr>"

definition HealthState_Set :: "catalog_error option \<Rightarrow> HealthState \<Rightarrow> HealthState" where
  "HealthState_Set err s = (case err of None \<Rightarrow> s\<lparr>hl_lastErr := []\<rparr> | Some e \<Rightarrow> s\<lparr>hl_lastErr := error_text e\<rparr>)"

definition HealthState_Snapshot :: "HealthState \<Rightarrow> bool \<times> string" where
  "HealthState_Snapshot s = (hl_enabled s, hl_lastErr s)"

section \<open>Properties\<close>

lemma pipe_free: "CHR ''|'' \<notin> set (FormatInt n)" "CHR ''|'' \<notin> set (hex_EncodeToString bs)"
  using FormatInt_chars [of "CHR ''|''" n] hex_EncodeToString_chars [of "CHR ''|''" bs]
  by (auto simp: is_digit_def less_eq_char_def)

text \<open>C30. What a signature commits to: two announcement messages are equal only if every field is equal, as long as provider id, asset id and
  transport hold no vertical bar; the base URL may hold any. The nonces are hexadecimal.\<close>

theorem signature_message_injective:
  assumes "buildSignatureMessage p a t b e (hex_EncodeToString n) = buildSignatureMessage p' a' t' b' e' (hex_EncodeToString n')"
    and "CHR ''|'' \<notin> set p" "CHR ''|'' \<notin> set p'" "CHR ''|'' \<notin> set a" "CHR ''|'' \<notin> set a'"
    and "CHR ''|'' \<notin> set t" "CHR ''|'' \<notin> set t'"
  shows "p = p' \<and> a = a' \<and> t = t' \<and> b = b' \<and> e = e' \<and> n = n'"
proof -
  note front = append_sep_inject [where c = "CHR ''|''"] and rear = append_sep_inject_last [where c = "CHR ''|''"]
  have 1: "p = p'" "a @ CHR ''|'' # t @ CHR ''|'' # b @ CHR ''|'' # FormatInt e @ CHR ''|'' # hex_EncodeToString n =
      a' @ CHR ''|'' # t' @ CHR ''|'' # b' @ CHR ''|'' # FormatInt e' @ CHR ''|'' # hex_EncodeToString n'"
    using front [OF _ assms(2,3)] assms(1) by (auto simp: buildSignatureMessage_def)
  have 2: "a = a'" "t @ CHR ''|'' # b @ CHR ''|'' # FormatInt e @ CHR ''|'' # hex_EncodeToString n =
      t' @ CHR ''|'' # b' @ CHR ''|'' # FormatInt e' @ CHR ''|'' # hex_EncodeToString n'"
    using front [OF 1(2) assms(4,5)] by auto
  have 3: "t = t'" "(b @ CHR ''|'' # FormatInt e) @ CHR ''|'' # hex_EncodeToString n =
      (b' @ CHR ''|'' # FormatInt e') @ CHR ''|'' # hex_EncodeToString n'"
    using front [OF 2(2) assms(6,7)] by auto
  have 4: "b @ CHR ''|'' # FormatInt e = b' @ CHR ''|'' # FormatInt e'" "hex_EncodeToString n = hex_EncodeToString n'"
    using rear [OF 3(2)] pipe_free by auto
  have "b = b'" "FormatInt e = FormatInt e'" using rear [OF 4(1)] pipe_free by auto
  then show ?thesis using 1 2 3 4 by (simp add: FormatInt_inject hex_EncodeToString_inject)
qed

theorem signature_message_injective_witness:
  "buildSignatureMessage ''p'' ''a'' ''https'' ''u|v'' 7 (hex_EncodeToString ''n'') =
   buildSignatureMessage ''p'' ''a'' ''https'' (''u'' @ ''|v'') 7 (hex_EncodeToString ''n'') \<and> ''u|v'' = ''u'' @ ''|v''"
  using signature_message_injective [of "''p''" "''a''" "''https''" "''u|v''" 7 "''n''" "''p''" "''a''" "''https''" "''u'' @ ''|v''" 7 "''n''"]
  by simp

text \<open>A built announcement verifies from its own fields: its signature is the signature, under the provider's key, of the hash of the message
  made of the provider id and the fields sent; it names the asset's own URL below the public base and expires the configured
  number of seconds after now. It is built exactly when the public URL and the asset id are not blank and nonce and signature
  succeed.\<close>

theorem announcement_self_consistent:
  "BuildAnnouncement lib i cfg assetID now = Ok req \<longleftrightarrow>
     TrimSpace (cf_PublicBaseURL cfg) \<noteq> [] \<and> TrimSpace assetID \<noteq> [] \<and>
     (\<exists>nonce sig. sl_nonce lib 16 = Ok nonce \<and> ar_Nonce req = hex_EncodeToString nonce \<and>
        ar_AssetID req = assetID \<and> ar_Transport req = cf_Transport cfg \<and>
        ar_BaseURL req = TrimRight (cf_PublicBaseURL cfg) ''/'' @ ''/assets/'' @ assetID \<and>
        ar_Priority req = cf_AnnouncePriority cfg \<and> ar_ExpiresInSeconds req = cf_AnnounceExpiresSeconds cfg \<and>
        ar_ExpiresAt req = Unix (now + seconds (cf_AnnounceExpiresSeconds cfg)) \<and>
        sl_schnorr lib (id_PrivateKey i) (sl_sha256 lib (buildSignatureMessage (id_ProviderID i)
          (ar_AssetID req) (ar_Transport req) (ar_BaseURL req) (ar_ExpiresAt req) (ar_Nonce req))) = Ok sig \<and>
        ar_Signature req = hex_EncodeToString sig)" (is "?L \<longleftrightarrow> ?R")
proof
  assume ?L
  then show ?R by (auto simp: BuildAnnouncement_def Let_def split: if_splits sum.splits)
next
  assume ?R
  then show ?L by (auto simp: BuildAnnouncement_def Let_def intro!: AnnounceRequest.equality)
qed

end
