(* ===== verification/Backoff.thy ===== *)
theory Backoff
  imports Catalog "HOL-Library.AList"
begin

text \<open>
  \<open>jobs/backoff.go\<close>: when the next announcement of an asset may be tried. The entries, a Go map, are an association list
  with distinct keys. Durations and the failure counter are 64-bit integers.
\<close>

datatype ErrorClass = ClassOK | ClassRejected | ClassUnauthorized | ClassTransient | ClassPermanent

record BackoffConfig =
  bc_Base :: int
  bc_Max :: int
  bc_RejectedRetry :: int
  bc_UnauthorizedRetry :: int

record BackoffEntry =
  be_FailCount :: int
  be_NextAttemptAt :: instant

record BackoffState =
  bs_entries :: "(string \<times> BackoffEntry) list"
  bs_cfg :: BackoffConfig

definition NewBackoffState :: "BackoffConfig \<Rightarrow> BackoffState" where
  "NewBackoffState cfg =
     \<lparr>bs_entries = [],
      bs_cfg = \<lparr>bc_Base = (if bc_Base cfg \<le> 0 then 2 * nanos else bc_Base cfg),
                bc_Max = (if bc_Max cfg \<le> 0 then 600 * nanos else bc_Max cfg),
                bc_RejectedRetry = (if bc_RejectedRetry cfg \<le> 0 then 86400 * nanos else bc_RejectedRetry cfg),
                bc_UnauthorizedRetry = (if bc_UnauthorizedRetry cfg \<le> 0 then 3600 * nanos else bc_UnauthorizedRetry cfg)\<rparr>\<rparr>"

definition NewBackoffStateFromConfig :: "Config \<Rightarrow> BackoffState" where
  "NewBackoffStateFromConfig cfg =
     NewBackoffState
       \<lparr>bc_Base = milliseconds (cf_BackoffBaseMillis cfg), bc_Max = seconds (cf_BackoffMaxSeconds cfg),
        bc_RejectedRetry = seconds (cf_RejectedRetrySeconds cfg),
        bc_UnauthorizedRetry = seconds (cf_UnauthorizedRetrySeconds cfg)\<rparr>"

section \<open>Jitter\<close>

text \<open>
  \<open>rand.Rand.Int63n\<close> reduces the first raw 63-bit draw it accepts modulo \<open>n\<close>; the model takes that draw.
\<close>

definition defaultJitter_Int63n :: "nat \<Rightarrow> int \<Rightarrow> int" where
  "defaultJitter_Int63n draw n = (if n \<le> 0 then 0 else int draw mod n)"

text \<open>The contract of the interface \<open>Jitter\<close>, and the delay computed from any jitter that keeps it.\<close>

locale jitter =
  fixes int63n :: "int \<Rightarrow> int"
  assumes int63n_range: "0 < n \<Longrightarrow> 0 \<le> int63n n \<and> int63n n < n"

interpretation default_jitter: jitter "defaultJitter_Int63n draw" for draw
  by unfold_locales (simp add: defaultJitter_Int63n_def)

section \<open>The next attempt\<close>

text \<open>The doubling loop; the first argument is the number of rounds left.\<close>

fun double_delay :: "nat \<Rightarrow> int \<Rightarrow> int \<Rightarrow> int" where
  "double_delay 0 mx delay = delay"
| "double_delay (Suc k) mx delay =
     (if mx \<le> delay then mx
      else let delay' = int64 (delay * 2) in if mx < delay' then mx else double_delay k mx delay')"

definition NextAttempt :: "(int \<Rightarrow> int) \<Rightarrow> BackoffState \<Rightarrow> instant \<Rightarrow> int \<Rightarrow> instant" where
  "NextAttempt int63n b now failCount =
     (let f = (if failCount < 1 then 1 else failCount);
          delay = double_delay (nat (f - 1)) (bc_Max (bs_cfg b)) (bc_Base (bs_cfg b));
          jitterWindow = quot delay 4;
          delay1 = (if 0 < jitterWindow then int64 (delay + int63n (int64 (jitterWindow + 1))) else delay);
          delay2 = (if bc_Max (bs_cfg b) < delay1 then bc_Max (bs_cfg b) else delay1)
      in now + delay2)"

definition CanAttempt :: "BackoffState \<Rightarrow> string \<Rightarrow> instant \<Rightarrow> bool" where
  "CanAttempt b assetID now =
     (case map_of (bs_entries b) assetID of None \<Rightarrow> True | Some entry \<Rightarrow> \<not> now < be_NextAttemptAt entry)"

definition CountDeferred :: "BackoffState \<Rightarrow> instant \<Rightarrow> int" where
  "CountDeferred b now = int (length (filter (\<lambda>(_, entry). now < be_NextAttemptAt entry) (bs_entries b)))"

definition entry_of :: "BackoffState \<Rightarrow> string \<Rightarrow> BackoffEntry" where
  "entry_of b assetID =
     (case map_of (bs_entries b) assetID of None \<Rightarrow> \<lparr>be_FailCount = 0, be_NextAttemptAt = zero_time\<rparr> | Some e \<Rightarrow> e)"

definition Record :: "(int \<Rightarrow> int) \<Rightarrow> string \<Rightarrow> ErrorClass \<Rightarrow> instant \<Rightarrow> BackoffState \<Rightarrow> BackoffState" where
  "Record int63n assetID cls now b =
     (let put = (\<lambda>e. b\<lparr>bs_entries := AList.update assetID e (bs_entries b)\<rparr>);
          failed = int64 (be_FailCount (entry_of b assetID) + 1)
      in case cls of
           ClassOK \<Rightarrow> b\<lparr>bs_entries := AList.delete assetID (bs_entries b)\<rparr>
         | ClassRejected \<Rightarrow> put \<lparr>be_FailCount = 0, be_NextAttemptAt = now + bc_RejectedRetry (bs_cfg b)\<rparr>
         | ClassUnauthorized \<Rightarrow> put \<lparr>be_FailCount = 0, be_NextAttemptAt = now + bc_UnauthorizedRetry (bs_cfg b)\<rparr>
         | ClassPermanent \<Rightarrow> put \<lparr>be_FailCount = failed, be_NextAttemptAt = now + bc_Max (bs_cfg b)\<rparr>
         | ClassTransient \<Rightarrow> put \<lparr>be_FailCount = failed, be_NextAttemptAt = NextAttempt int63n b now failed\<rparr>)"

definition ClassifyError :: "catalog_error option \<Rightarrow> ErrorClass" where
  "ClassifyError err =
     (case err of
        None \<Rightarrow> ClassOK
      | Some e \<Rightarrow>
          (case e of
             ErrNotFound \<Rightarrow> ClassRejected
           | ErrUnauthorized \<Rightarrow> ClassUnauthorized
           | ErrBadRequest \<Rightarrow> ClassPermanent
           | ErrConflict \<Rightarrow> ClassPermanent
           | _ \<Rightarrow> ClassTransient))"

section \<open>The delay in closed form\<close>

definition small_delays :: "BackoffConfig \<Rightarrow> bool" where
  "small_delays c \<longleftrightarrow> 0 < bc_Base c \<and> bc_Base c \<le> 2 ^ 62 \<and> 0 < bc_Max c \<and> bc_Max c \<le> 2 ^ 62"

lemma double_delay_closed:
  assumes "0 < d" "0 < mx" "mx \<le> 2 ^ 62"
  shows "double_delay k mx d = (if k = 0 then d else min mx (d * 2 ^ k))"
  using assms(1)
proof (induction k arbitrary: d)
  case (Suc k)
  show ?case
  proof (cases "mx \<le> d")
    case True
    have "d * 1 \<le> d * 2 ^ Suc k" using Suc.prems by (intro mult_left_mono one_le_power) simp_all
    with True show ?thesis by simp
  next
    case False
    then have w: "int64 (d * 2) = d * 2" using Suc.prems assms(3) by (intro int64_id) (simp add: in_int64_def)
    obtain p where p: "p = d * 2 ^ Suc k" "p = d * 2 * 2 ^ k" by simp
    have "d * 2 * 1 \<le> d * 2 * 2 ^ k" using Suc.prems by (intro mult_left_mono one_le_power) simp_all
    then have up: "d * 2 \<le> p" unfolding p(2) by linarith
    have "double_delay (Suc k) mx d = (if mx < d * 2 then mx else double_delay k mx (d * 2))"
      using False by (simp add: w Let_def)
    also have "\<dots> = min mx p"
    proof (cases "mx < d * 2")
      case True
      then show ?thesis using up by simp
    next
      case False
      have "double_delay k mx (d * 2) = (if k = 0 then d * 2 else min mx p)" using Suc.IH [of "d * 2"] Suc.prems p(2) by simp
      moreover have "k = 0 \<Longrightarrow> p = d * 2" using p(2) by simp
      ultimately show ?thesis using False by auto
    qed
    finally show ?thesis unfolding p(1) by simp
  qed
qed simp

lemma add_min_jitter:
  fixes x e mx :: int
  shows "0 \<le> e \<Longrightarrow> e \<le> x div 4 \<Longrightarrow> min mx x \<le> min mx (x + e) \<and> min mx (x + e) \<le> min mx (x + x div 4)"
  by linarith

context jitter
begin

text \<open>Any jitter stays between the exponential delay and a quarter more, capped by the maximum.\<close>

lemma NextAttempt_bounds:
  assumes "small_delays (bs_cfg b)" "1 \<le> f"
  defines "d \<equiv> bc_Base (bs_cfg b) * 2 ^ nat (f - 1)" and "mx \<equiv> bc_Max (bs_cfg b)"
  shows "now + min mx d \<le> NextAttempt int63n b now f \<and> NextAttempt int63n b now f \<le> now + min mx (d + d div 4)"
proof -
  define x where "x = double_delay (nat (f - 1)) mx (bc_Base (bs_cfg b))"
  have c: "0 < bc_Base (bs_cfg b)" "bc_Base (bs_cfg b) \<le> 2 ^ 62" "0 < mx" "mx \<le> 2 ^ 62"
    using assms(1) by (auto simp: small_delays_def mx_def)
  have xd: "double_delay (nat (f - 1)) mx (bc_Base (bs_cfg b)) = x" by (simp add: x_def)
  have f: "(if f < 1 then 1 else f) = f" using assms(2) by simp
  have x: "x = (if nat (f - 1) = 0 then bc_Base (bs_cfg b) else min mx d)"
    unfolding x_def d_def using double_delay_closed [OF c(1,3,4)] by simp
  have d: "nat (f - 1) = 0 \<Longrightarrow> d = bc_Base (bs_cfg b)" "0 < d" using c(1) by (simp_all add: d_def)
  have xr: "0 < x" "x \<le> 2 ^ 62" "min mx x = min mx d" "x \<le> d" using x d c by (auto simp: min_def)
  define e where "e = (if 0 < x div 4 then int63n (int64 (x div 4 + 1)) else 0)"
  have "int64 (x div 4 + 1) = x div 4 + 1" using xr by (intro int64_id) (simp add: in_int64_def)
  then have e: "0 \<le> e" "e \<le> x div 4" using int63n_range [of "x div 4 + 1"] xr(1) by (auto simp: e_def)
  have "int64 (x + e) = x + e" using xr e by (intro int64_id) (simp add: in_int64_def)
  then have na: "NextAttempt int63n b now f = now + min mx (x + e)"
    using xr(1) unfolding NextAttempt_def Let_def mx_def [symmetric] f xd e_def
    by (cases "0 < x div 4") (simp_all add: min_def)
  have "min mx (x + x div 4) \<le> min mx (d + d div 4)" using xr(4) zdiv_mono1 [OF xr(4), of 4] by (auto simp: min_def)
  then show ?thesis using add_min_jitter [OF e, of mx] xr(3) unfolding na by linarith
qed

lemma NextAttempt_later:
  assumes "small_delays (bs_cfg b)"
  shows "now < NextAttempt int63n b now f"
proof -
  define g where "g = (if f < 1 then 1 else f)"
  have g: "1 \<le> g" by (simp add: g_def)
  have same: "NextAttempt int63n b now f = NextAttempt int63n b now g" unfolding NextAttempt_def g_def by simp
  have "0 < bc_Max (bs_cfg b)" "0 < bc_Base (bs_cfg b) * 2 ^ nat (g - 1)" using assms by (simp_all add: small_delays_def)
  then have "0 < min (bc_Max (bs_cfg b)) (bc_Base (bs_cfg b) * 2 ^ nat (g - 1))" by (simp only: min_less_iff_conj)
  then show ?thesis unfolding same using NextAttempt_bounds [OF assms g, of now] by linarith
qed

end

section \<open>Entries\<close>

definition backoff_inv :: "BackoffState \<Rightarrow> bool" where
  "backoff_inv b \<longleftrightarrow> distinct (map fst (bs_entries b))"

lemma Record_inv [inv_intros]: "backoff_inv b \<Longrightarrow> backoff_inv (Record jit a cls now b)"
  by (cases cls) (simp_all add: backoff_inv_def Record_def Let_def distinct_update distinct_delete)

lemma NewBackoffState_inv [inv_intros]: "backoff_inv (NewBackoffState cfg)"
  by (simp add: backoff_inv_def NewBackoffState_def)

lemma Record_cfg [simp, frame]: "bs_cfg (Record jit a cls now b) = bs_cfg b"
  by (cases cls) (simp_all add: Record_def Let_def)

lemma Record_other [frame]: "a' \<noteq> a \<Longrightarrow> CanAttempt (Record jit a cls now b) a' t = CanAttempt b a' t"
  by (cases cls) (simp_all add: CanAttempt_def Record_def Let_def update_conv' delete_conv')

lemma CanAttempt_Record:
  "CanAttempt (Record jit a cls now b) a t \<longleftrightarrow>
     (case cls of
        ClassOK \<Rightarrow> True
      | ClassRejected \<Rightarrow> now + bc_RejectedRetry (bs_cfg b) \<le> t
      | ClassUnauthorized \<Rightarrow> now + bc_UnauthorizedRetry (bs_cfg b) \<le> t
      | ClassPermanent \<Rightarrow> now + bc_Max (bs_cfg b) \<le> t
      | ClassTransient \<Rightarrow> NextAttempt jit b now (int64 (be_FailCount (entry_of b a) + 1)) \<le> t)"
  by (cases cls) (auto simp: CanAttempt_def Record_def Let_def update_conv' delete_conv')

section \<open>Properties\<close>

definition error_of :: "('e, 'a) result \<Rightarrow> 'e option" where
  "error_of r = (case r of Inl e \<Rightarrow> Some e | Inr _ \<Rightarrow> None)"

lemma announce_class:
  assumes "net \<lparr>cq_method = ''POST'', cq_url = joinPath us c [''/v1/providers'', id_ProviderID i, ''announce''],
      cq_contentType = ''application/json'', cq_payload = AnnouncePayload req\<rparr> = Ok resp"
  shows "ClassifyError (error_of (fst (Announce net us el c i req m))) =
     (let s = cs_status resp
      in if 200 \<le> s \<and> s < 300 then (case cs_json resp of DecodeError _ \<Rightarrow> ClassTransient | _ \<Rightarrow> ClassOK)
         else if s = 401 \<or> s = 403 then ClassUnauthorized
         else if s = 404 then ClassRejected
         else if s = 400 \<or> s = 409 then ClassPermanent
         else ClassTransient)"
  using assms
  by (auto simp: Announce_def doJSON_def ClassifyError_def error_of_def statusError_def Let_def split: json_result.split)

text \<open>C33. After a transient failure the asset waits exponentially long: with \<open>f\<close> failures recorded before, no attempt is allowed before
  \<open>min Max (Base * 2^f)\<close> has passed, and one is allowed at the latest a quarter of \<open>Base * 2^f\<close> later, never later than
  \<open>Max\<close>, whatever the random source draws. The counter goes up by one. Base and maximum up to about 146 years do not overflow.\<close>

theorem transient_backoff:
  assumes "small_delays (bs_cfg b)" "be_FailCount (entry_of b a) = int f" "int f < max_int64"
  shows "let b' = Record (defaultJitter_Int63n draw) a ClassTransient now b;
      d = bc_Base (bs_cfg b) * 2 ^ f; mx = bc_Max (bs_cfg b)
    in (t < now + min mx d \<longrightarrow> \<not> CanAttempt b' a t) \<and>
       (now + min mx (d + d div 4) \<le> t \<longrightarrow> CanAttempt b' a t) \<and>
       be_FailCount (entry_of b' a) = int (Suc f)"
proof -
  have f: "int64 (be_FailCount (entry_of b a) + 1) = int f + 1" using assms(2,3) by (simp add: in_int64_def)
  have bounds: "now + min (bc_Max (bs_cfg b)) (bc_Base (bs_cfg b) * 2 ^ f)
        \<le> NextAttempt (defaultJitter_Int63n draw) b now (int f + 1) \<and>
      NextAttempt (defaultJitter_Int63n draw) b now (int f + 1)
        \<le> now + min (bc_Max (bs_cfg b)) (bc_Base (bs_cfg b) * 2 ^ f + bc_Base (bs_cfg b) * 2 ^ f div 4)"
    using default_jitter.NextAttempt_bounds [OF assms(1), of "int f + 1" now draw] by simp
  have "be_FailCount (entry_of (Record (defaultJitter_Int63n draw) a ClassTransient now b) a) = int (Suc f)"
    using f by (simp add: Record_def entry_of_def [of "b\<lparr>bs_entries := x\<rparr>" for x] Let_def update_conv')
  with bounds show ?thesis by (simp add: Let_def CanAttempt_Record f)
qed

text \<open>Which answer of the catalog leads to which wait: a readable success clears the entry, 401 and 403 wait the unauthorized interval, 404
  the rejected interval, 400 and 409 the maximum, and every other status and an unreadable success the exponential delay.
  Other assets are not affected.\<close>

theorem retry_policy:
  fixes a :: string and b :: BackoffState
  assumes "net \<lparr>cq_method = ''POST'', cq_url = joinPath us c [''/v1/providers'', id_ProviderID i, ''announce''],
      cq_contentType = ''application/json'', cq_payload = AnnouncePayload req\<rparr> = Ok resp"
  defines "failed \<equiv> int64 (be_FailCount (entry_of b a) + 1)" and "s \<equiv> cs_status resp"
  shows "map_of (bs_entries (Record jit a (ClassifyError (error_of (fst (Announce net us el c i req m)))) now b)) =
    (map_of (bs_entries b)) (a :=
       if 200 \<le> s \<and> s < 300 \<and> (\<forall>e. cs_json resp \<noteq> DecodeError e) then None
       else Some (if s = 401 \<or> s = 403 then \<lparr>be_FailCount = 0, be_NextAttemptAt = now + bc_UnauthorizedRetry (bs_cfg b)\<rparr>
         else if s = 404 then \<lparr>be_FailCount = 0, be_NextAttemptAt = now + bc_RejectedRetry (bs_cfg b)\<rparr>
         else if s = 400 \<or> s = 409 then \<lparr>be_FailCount = failed, be_NextAttemptAt = now + bc_Max (bs_cfg b)\<rparr>
         else \<lparr>be_FailCount = failed, be_NextAttemptAt = NextAttempt jit b now failed\<rparr>))"
  unfolding announce_class [of net us c i req resp el m, OF assms(1)] assms(2,3)
  by (cases "cs_json resp") (auto simp: Record_def Let_def update_conv' delete_conv')

text \<open>The gate after each class of result, exactly, and what it leaves alone: entries stay unique per asset and other assets keep
  theirs.\<close>

theorem record_gate:
  assumes "backoff_inv b"
  shows "backoff_inv (Record jit a cls now b) \<and>
    (a' \<noteq> a \<longrightarrow> CanAttempt (Record jit a cls now b) a' t = CanAttempt b a' t) \<and>
    CanAttempt (Record jit a ClassOK now b) a t \<and>
    (CanAttempt (Record jit a ClassRejected now b) a t \<longleftrightarrow> now + bc_RejectedRetry (bs_cfg b) \<le> t) \<and>
    (CanAttempt (Record jit a ClassUnauthorized now b) a t \<longleftrightarrow> now + bc_UnauthorizedRetry (bs_cfg b) \<le> t) \<and>
    (CanAttempt (Record jit a ClassPermanent now b) a t \<longleftrightarrow> now + bc_Max (bs_cfg b) \<le> t)"
  using assms by (simp add: Record_inv Record_other CanAttempt_Record)

section \<open>Witnesses\<close>

definition demo_backoff :: BackoffState where
  "demo_backoff = NewBackoffState \<lparr>bc_Base = 0, bc_Max = 0, bc_RejectedRetry = 0, bc_UnauthorizedRetry = 0\<rparr>"

lemma demo_backoff_ok: "small_delays (bs_cfg demo_backoff)" "be_FailCount (entry_of demo_backoff ''a'') = int 0" "backoff_inv demo_backoff"
  by (simp_all add: demo_backoff_def NewBackoffState_def small_delays_def entry_of_def backoff_inv_def)

theorem transient_backoff_witness:
  "\<not> CanAttempt (Record (defaultJitter_Int63n 7) ''a'' ClassTransient 0 demo_backoff) ''a'' (2 * nanos - 1) \<and>
   CanAttempt (Record (defaultJitter_Int63n 7) ''a'' ClassTransient 0 demo_backoff) ''a'' (3 * nanos)"
  using transient_backoff [OF demo_backoff_ok(1,2), of 7 0 "2 * nanos - 1"]
    transient_backoff [OF demo_backoff_ok(1,2), of 7 0 "3 * nanos"]
  by (simp add: Let_def demo_backoff_def NewBackoffState_def)

definition demo_announce :: AnnounceRequest where
  "demo_announce = \<lparr>ar_AssetID = ''a'', ar_Transport = ''https'', ar_BaseURL = ''u'', ar_Priority = 1, ar_ExpiresInSeconds = 1,
     ar_ExpiresAt = 1, ar_Nonce = [], ar_Signature = []\<rparr>"

theorem retry_policy_witness:
  "map_of (bs_entries (Record (\<lambda>_. 0) ''a'' (ClassifyError (error_of (fst (Announce (\<lambda>_. Ok \<lparr>cs_status = 404, cs_json = DecodeEOF\<rparr>) url_path 0
     \<lparr>cl_baseURL = \<lparr>url_scheme = ''https'', url_host = ''c'', url_path = []\<rparr>, cl_timeout = 1\<rparr> demo_identity demo_announce None)))) 0 demo_backoff)) ''a'' =
   Some \<lparr>be_FailCount = 0, be_NextAttemptAt = bc_RejectedRetry (bs_cfg demo_backoff)\<rparr>"
  by (subst retry_policy [where net = "\<lambda>_. Ok \<lparr>cs_status = 404, cs_json = DecodeEOF\<rparr>", OF refl]) simp

theorem record_gate_witness: "CanAttempt (Record (\<lambda>_. 0) ''a'' ClassRejected 0 demo_backoff) ''b'' 0"
  using record_gate [OF demo_backoff_ok(3), of "\<lambda>_. 0" "''a''" ClassRejected 0 "''b''" 0]
  by (simp add: CanAttempt_def demo_backoff_def NewBackoffState_def)

end
