(* ===== verification/Jobs.thy ===== *)
theory Jobs
  imports Scanner Repository Backoff
begin

text \<open>
  Package \<open>jobs\<close>: the rescan, the announcement sweep and the cleanup. What the environment decides (clock, directory
  tree, database errors, the catalog's answers, random draws) is passed in; the database, the backoff state and the metrics
  are threaded through. The runner that repeats the jobs is in theory \<open>Runner\<close>.
\<close>

section \<open>Rescan\<close>

record RescanResult =
  rr_ScannedAssets :: int
  rr_ActiveAssets :: int
  rr_MissingAssets :: int

definition record_of :: "Asset \<Rightarrow> AssetRecord" where
  "record_of a =
     \<lparr>rc_AssetID = as_AssetID a, rc_MasterPlaylistPath = as_MasterPlaylistPath a, rc_ContentHash = as_ContentHash a,
      rc_FileCount = as_FileCount a, rc_TotalSizeBytes = as_TotalSizeBytes a, rc_LastScannedAt = as_LastScannedAt a\<rparr>"

text \<open>Database errors of the three calls; an error value stands for whichever step failed.\<close>

record rescan_faults =
  rf_upsert :: faults
  rf_missing :: faults
  rf_count :: faults

definition RunRescanJob ::
  "scan_env \<Rightarrow> string \<Rightarrow> instant \<Rightarrow> rescan_faults \<Rightarrow> database \<Rightarrow> metrics \<Rightarrow> (string, RescanResult) result \<times> database \<times> metrics" where
  "RunRescanJob env assetsRoot now rf db m =
     (case Scan env assetsRoot m of
        (Inl _, m') \<Rightarrow> (Err ''scan'', db, m')
      | (Inr scanResult, m') \<Rightarrow>
          (let records = map record_of (sr_Assets scanResult); seen = map as_AssetID (sr_Assets scanResult)
           in case UpsertAssets (rf_upsert rf) records now db of
                (Inl e, db1) \<Rightarrow> (Err e, db1, m')
              | (Inr _, db1) \<Rightarrow>
                  (case MarkMissing (rf_missing rf) seen now db1 of
                     (Inl e, db2) \<Rightarrow> (Err e, db2, m')
                   | (Inr missing, db2) \<Rightarrow>
                       (case CountActive (rf_count rf) db2 of
                          Inl e \<Rightarrow> (Err e, db2, m')
                        | Inr active \<Rightarrow>
                            (Ok \<lparr>rr_ScannedAssets = sr_ScannedAssets scanResult, rr_ActiveAssets = active,
                                 rr_MissingAssets = missing\<rparr>, db2, m')))))"

section \<open>Announcement sweep\<close>

definition needsReannounce :: "AnnouncementRow option \<Rightarrow> instant \<Rightarrow> bool" where
  "needsReannounce row threshold =
     (case row of
        None \<Rightarrow> True
      | Some r \<Rightarrow>
          if aw_Status r \<noteq> ''ok'' then True
          else if IsZero (aw_ExpiresAt r) then True
          else aw_ExpiresAt r < threshold)"

record AnnounceSweepResult =
  ws_Attempted :: int
  ws_OK :: int
  ws_Rejected :: int
  ws_Failed :: int
  ws_Deferred :: int

definition zero_sweep :: AnnounceSweepResult where
  "zero_sweep = \<lparr>ws_Attempted = 0, ws_OK = 0, ws_Rejected = 0, ws_Failed = 0, ws_Deferred = 0\<rparr>"

text \<open>
  The environment of a sweep, per asset where the sweep calls out once per asset: database errors, random sources, and the announcer
  with the metrics its client records.
\<close>

record sweep_env =
  sw_get :: "string \<Rightarrow> bool"
  sw_put :: "string \<Rightarrow> bool"
  sw_fk :: bool
  sw_lib :: "string \<Rightarrow> sign_lib"
  sw_jitter :: "string \<Rightarrow> int \<Rightarrow> int"
  sw_announce :: "AnnounceRequest \<Rightarrow> metrics \<Rightarrow> catalog_error option \<times> metrics"

record sweep_state =
  ss_result :: AnnounceSweepResult
  ss_db :: database
  ss_backoff :: BackoffState
  ss_metrics :: metrics

definition store_status :: "sweep_env \<Rightarrow> string \<Rightarrow> instant \<Rightarrow> instant \<Rightarrow> string \<Rightarrow> instant \<Rightarrow> database \<Rightarrow> database" where
  "store_status env a la ex st now db =
     snd (UpsertAnnouncementStatus (sw_fk env) (sw_put env a) a la ex st now db)"

definition class_label :: "ErrorClass \<Rightarrow> string" where
  "class_label c = (case c of ClassOK \<Rightarrow> ''ok'' | ClassRejected \<Rightarrow> ''rejected'' | ClassUnauthorized \<Rightarrow> ''unauthorized'' | _ \<Rightarrow> ''failed'')"

definition class_status :: "ErrorClass \<Rightarrow> string" where
  "class_status c = (case c of ClassOK \<Rightarrow> ''ok'' | ClassRejected \<Rightarrow> ''rejected'' | _ \<Rightarrow> ''failed'')"

definition count_class :: "ErrorClass \<Rightarrow> AnnounceSweepResult \<Rightarrow> AnnounceSweepResult" where
  "count_class c r =
     (case c of ClassOK \<Rightarrow> r\<lparr>ws_OK := ws_OK r + 1\<rparr> | ClassRejected \<Rightarrow> r\<lparr>ws_Rejected := ws_Rejected r + 1\<rparr>
      | _ \<Rightarrow> r\<lparr>ws_Failed := ws_Failed r + 1\<rparr>)"

text \<open>One round of the loop; \<open>announce_one\<close> is what follows a successful attempt check.\<close>

definition announce_one :: "sweep_env \<Rightarrow> Identity \<Rightarrow> Config \<Rightarrow> instant \<Rightarrow> string \<Rightarrow> sweep_state \<Rightarrow> sweep_state" where
  "announce_one env i cfg now a s =
     (case BuildAnnouncement (sw_lib env a) i cfg a now of
        Inl _ \<Rightarrow>
          s\<lparr>ss_result := (ss_result s)\<lparr>ws_Failed := ws_Failed (ss_result s) + 1\<rparr>,
            ss_metrics := ObserveAnnounce ''failed'' (ss_metrics s),
            ss_backoff := Record (sw_jitter env a) a ClassPermanent now (ss_backoff s),
            ss_db := store_status env a zero_time zero_time ''failed'' now (ss_db s)\<rparr>
      | Inr req \<Rightarrow>
          (case sw_announce env req (ss_metrics s) of
             (err, m) \<Rightarrow>
               (let cls = ClassifyError err; expiresAt = from_Unix (ar_ExpiresAt req)
                in s\<lparr>ss_result := count_class cls (ss_result s), ss_metrics := ObserveAnnounce (class_label cls) m,
                     ss_db := store_status env a now expiresAt (class_status cls) now (ss_db s),
                     ss_backoff := Record (sw_jitter env a) a cls now (ss_backoff s)\<rparr>)))"

definition sweep_one :: "sweep_env \<Rightarrow> Identity \<Rightarrow> Config \<Rightarrow> instant \<Rightarrow> string \<Rightarrow> sweep_state \<Rightarrow> sweep_state" where
  "sweep_one env i cfg now a s =
     (let threshold = now + seconds (cf_ReannounceThresholdSeconds cfg); r = ss_result s
      in case GetAnnouncement (sw_get env a) a (ss_db s) of
           Inl _ \<Rightarrow> s\<lparr>ss_result := r\<lparr>ws_Failed := ws_Failed r + 1\<rparr>\<rparr>
         | Inr row \<Rightarrow>
             if \<not> needsReannounce row threshold then s
             else if \<not> CanAttempt (ss_backoff s) a now then s\<lparr>ss_result := r\<lparr>ws_Deferred := ws_Deferred r + 1\<rparr>\<rparr>
             else announce_one env i cfg now a (s\<lparr>ss_result := r\<lparr>ws_Attempted := ws_Attempted r + 1\<rparr>\<rparr>))"

definition RunAnnounceSweep ::
  "sweep_env option \<Rightarrow> faults \<Rightarrow> Identity \<Rightarrow> Config \<Rightarrow> instant \<Rightarrow> database \<Rightarrow> BackoffState \<Rightarrow> metrics \<Rightarrow>
   (string, AnnounceSweepResult) result \<times> database \<times> BackoffState \<times> metrics" where
  "RunAnnounceSweep announcer list_fault i cfg now db b m =
     (case announcer of
        None \<Rightarrow> (Ok zero_sweep, db, b, m)
      | Some env \<Rightarrow>
          (case ListActiveAssetIDs list_fault db of
             Inl e \<Rightarrow> (Err e, db, b, m)
           | Inr activeIDs \<Rightarrow>
               (let s = fold (sweep_one env i cfg now) activeIDs
                      \<lparr>ss_result = zero_sweep, ss_db = db, ss_backoff = b, ss_metrics = m\<rparr>
                in (Ok (ss_result s), ss_db s, ss_backoff s, ss_metrics s))))"

section \<open>Cleanup\<close>

definition RunCleanupJob :: "faults \<Rightarrow> int \<Rightarrow> instant \<Rightarrow> instant \<Rightarrow> database \<Rightarrow> (string, int) result \<times> database" where
  "RunCleanupJob fault graceSeconds clockNow timeNow db =
     MarkExpiredBefore fault (Unix (clockNow + int64 (int64 (- graceSeconds) * nanos))) timeNow db"

section \<open>Rescan lemmas\<close>

lemma RunRescanJob_Ok:
  assumes "RunRescanJob env root now rf db m = (Ok res, db', m')"
  obtains sc db1 missing where "Scan env root m = (Ok sc, m')"
    "UpsertAssets (rf_upsert rf) (map record_of (sr_Assets sc)) now db = (Ok (), db1)"
    "MarkMissing (rf_missing rf) (map as_AssetID (sr_Assets sc)) now db1 = (Ok missing, db')"
    "res = \<lparr>rr_ScannedAssets = sr_ScannedAssets sc, rr_ActiveAssets = count_status ''active'' db', rr_MissingAssets = missing\<rparr>"
  using assms that
  by (auto simp: RunRescanJob_def CountActive_def Let_def split: prod.splits sum.splits if_splits)

lemma MarkMissing_Ok:
  assumes "MarkMissing fault seen now db = (Ok n, db')"
  shows "db' = mark_rows (\<lambda>a r. at_status r \<noteq> ''missing'' \<and> a \<notin> set seen) (Format now) db"
  using assms by (cases "seen = []") (auto simp: MarkMissing_def Let_def split: if_splits)

definition active_ids :: "database \<Rightarrow> string list" where
  "active_ids db = map fst (filter (\<lambda>(a, r). at_status r = ''active'') (tb_assets db))"

lemma active_ids_distinct: "db_inv db \<Longrightarrow> distinct (active_ids db)"
  by (simp add: db_inv_def active_ids_def distinct_map_filter)

lemma active_ids_set: "db_inv db \<Longrightarrow> a \<in> set (active_ids db) \<longleftrightarrow> (\<exists>r. asset db a = Some r \<and> at_status r = ''active'')"
  unfolding db_inv_def active_ids_def by (force simp: map_of_eq_Some_iff)

lemma ListActive_active_ids: "ListActiveAssetIDs (\<lambda>_. False) db = Ok (sort (active_ids db))"
  by (simp add: ListActiveAssetIDs_def active_ids_def)

lemma count_active_length: "count_status ''active'' db = int (length (active_ids db))"
  by (simp add: count_status_def active_ids_def)

lemma asset_status: "db_inv db \<Longrightarrow> asset db a = Some r \<Longrightarrow> at_status r \<in> {''active'', ''missing''}"
  unfolding db_inv_def by (auto dest: map_of_SomeD)

text \<open>The database after a rescan that found the assets \<open>as\<close>.\<close>

lemma rescan_rows:
  assumes inv: "db_inv db" and d: "distinct (map as_AssetID as)"
    and up: "UpsertAssets fu (map record_of as) now db = (Ok (), db1)"
    and mm: "MarkMissing fm (map as_AssetID as) now db1 = (Ok n, db')"
  shows "db_inv db'"
    and "a \<in> set as \<Longrightarrow> asset db' (as_AssetID a) = Some (row_for (Format now) (record_of a) (asset db (as_AssetID a)))"
    and "k \<notin> as_AssetID ` set as \<Longrightarrow> asset db k = Some r \<Longrightarrow>
      \<exists>r'. asset db' k = Some r' \<and> at_status r' = ''missing'' \<and> at_created_at r' = at_created_at r"
    and "k \<notin> as_AssetID ` set as \<Longrightarrow> asset db k = None \<Longrightarrow> asset db' k = None"
proof -
  have ids: "map rc_AssetID (map record_of as) = map as_AssetID as" by (simp add: record_of_def)
  have ids': "rc_AssetID ` set (map record_of as) = as_AssetID ` set as" by (simp add: record_of_def image_image)
  have db1: "db1 = fold (upsert_asset (Format now)) (map record_of as) db"
    using up by (auto simp: UpsertAssets_def split: if_splits sum.splits dest: upsert_loop_Ok)
  have inv1: "db_inv db1" unfolding db1 using inv by (rule fold_upsert_inv)
  note db' = MarkMissing_Ok [OF mm]
  show "db_inv db'" unfolding db' using inv1 by (rule mark_rows_inv)
  have other: "asset db1 k = asset db k" if "k \<notin> as_AssetID ` set as" for k
    unfolding db1 using that ids' by (intro fold_upsert_other) simp
  show "asset db' (as_AssetID a) = Some (row_for (Format now) (record_of a) (asset db (as_AssetID a)))" if "a \<in> set as"
  proof -
    have "asset db1 (rc_AssetID (record_of a)) = Some (row_for (Format now) (record_of a) (asset db (rc_AssetID (record_of a))))"
      unfolding db1 using that d ids by (intro fold_upsert_lookup) (simp_all del: map_map)
    then show ?thesis using that by (simp add: db' mark_rows_asset record_of_def)
  qed
  show "\<exists>r'. asset db' k = Some r' \<and> at_status r' = ''missing'' \<and> at_created_at r' = at_created_at r"
    if "k \<notin> as_AssetID ` set as" "asset db k = Some r"
    using that other by (auto simp: db' mark_rows_asset)
  show "asset db' k = None" if "k \<notin> as_AssetID ` set as" "asset db k = None"
    using that other by (simp add: db' mark_rows_asset)
qed

text \<open>What the two tables promise about an asset: unknown, active or missing; and what a rescan should do to it.\<close>

datatype lifecycle = Active | Missing

definition lifecycle_of :: "database \<Rightarrow> string \<Rightarrow> lifecycle option" where
  "lifecycle_of db a = map_option (\<lambda>r. if at_status r = ''active'' then Active else Missing) (asset db a)"

definition reconcile :: "string set \<Rightarrow> (string \<Rightarrow> lifecycle option) \<Rightarrow> string \<Rightarrow> lifecycle option" where
  "reconcile found L a = (if a \<in> found then Some Active else map_option (\<lambda>_. Missing) (L a))"

lemma active_ids_lifecycle: "db_inv db \<Longrightarrow> a \<in> set (active_ids db) \<longleftrightarrow> lifecycle_of db a = Some Active"
  by (auto simp: active_ids_set lifecycle_of_def)

text \<open>The number of rows a successful marking reports: the active assets that were not seen.\<close>

lemma MarkMissing_count:
  assumes "MarkMissing fault seen now db = (Ok n, db')" "db_inv db"
  shows "n = int (card {a. lifecycle_of db a = Some Active \<and> a \<notin> set seen})"
proof -
  let ?marked = "filter (\<lambda>(a, r). at_status r \<noteq> ''missing'' \<and> a \<notin> set seen) (tb_assets db)"
  have n: "n = int (length (map fst ?marked))"
    using assms(1) by (cases "seen = []") (auto simp: MarkMissing_def Let_def split: if_splits)
  have keys: "distinct (map fst (tb_assets db))" using assms(2) by (simp add: db_inv_def)
  then have "distinct (map fst ?marked)" by (rule distinct_map_filter)
  then have "length (map fst ?marked) = card (set (map fst ?marked))" by (rule distinct_card [symmetric])
  moreover have "set (map fst ?marked) = {a. lifecycle_of db a = Some Active \<and> a \<notin> set seen}"
  proof (rule set_eqI)
    fix a
    have mem: "a \<in> set (map fst ?marked) \<longleftrightarrow> (\<exists>r. asset db a = Some r \<and> at_status r \<noteq> ''missing'') \<and> a \<notin> set seen"
      using keys by (force simp: map_of_eq_Some_iff)
    show "a \<in> set (map fst ?marked) \<longleftrightarrow> a \<in> {a. lifecycle_of db a = Some Active \<and> a \<notin> set seen}"
    proof (cases "asset db a")
      case None
      then show ?thesis unfolding mem by (simp add: lifecycle_of_def)
    next
      case (Some r)
      then show ?thesis unfolding mem using asset_status [OF assms(2) Some] by (auto simp: lifecycle_of_def)
    qed
  qed
  ultimately show ?thesis using n by simp
qed

lemma rescan_missing:
  assumes "db_inv db" "UpsertAssets fu (map record_of as) now db = (Ok (), db1)"
    and "MarkMissing fm (map as_AssetID as) now db1 = (Ok n, db')"
  shows "n = int (card {a. lifecycle_of db a = Some Active \<and> a \<notin> as_AssetID ` set as})"
proof -
  have ids: "rc_AssetID ` set (map record_of as) = as_AssetID ` set as" by (simp add: record_of_def image_image)
  have db1: "db1 = fold (upsert_asset (Format now)) (map record_of as) db"
    using assms(2) by (auto simp: UpsertAssets_def split: if_splits sum.splits dest: upsert_loop_Ok)
  have "db_inv db1" unfolding db1 using assms(1) by (rule fold_upsert_inv)
  from MarkMissing_count [OF assms(3) this]
  have "n = int (card {a. lifecycle_of db1 a = Some Active \<and> a \<notin> as_AssetID ` set as})" by simp
  moreover have "lifecycle_of db1 a = lifecycle_of db a" if "a \<notin> as_AssetID ` set as" for a
    unfolding db1 lifecycle_of_def using that ids by (subst fold_upsert_other) simp_all
  ultimately show ?thesis by (simp cong: conj_cong rev_conj_cong)
qed

lemma rescan_lifecycle:
  assumes "db_inv db" "distinct (map as_AssetID as)"
    and "UpsertAssets fu (map record_of as) now db = (Ok (), db1)" "MarkMissing fm (map as_AssetID as) now db1 = (Ok n, db')"
  shows "lifecycle_of db' = reconcile (as_AssetID ` set as) (lifecycle_of db)"
proof
  fix k
  note rows = rescan_rows [OF assms]
  show "lifecycle_of db' k = reconcile (as_AssetID ` set as) (lifecycle_of db) k"
  proof (cases "k \<in> as_AssetID ` set as")
    case True
    then show ?thesis using rows(2) by (auto simp: lifecycle_of_def reconcile_def row_for_def)
  next
    case False
    show ?thesis
    proof (cases "asset db k")
      case None
      then show ?thesis using False rows(4) by (simp add: lifecycle_of_def reconcile_def)
    next
      case (Some r)
      then obtain r' where "asset db' k = Some r'" "at_status r' = ''missing''" using rows(3) [OF False] by blast
      then show ?thesis using False Some by (simp add: lifecycle_of_def reconcile_def)
    qed
  qed
qed

section \<open>Sweep lemmas\<close>

text \<open>What the sweep does with an asset, read off the state before.\<close>

definition unreadable_row :: "sweep_env \<Rightarrow> database \<Rightarrow> string \<Rightarrow> bool" where
  "unreadable_row env db a \<longleftrightarrow> \<not> is_ok (GetAnnouncement (sw_get env a) a db)"

definition due :: "sweep_env \<Rightarrow> Config \<Rightarrow> instant \<Rightarrow> database \<Rightarrow> string \<Rightarrow> bool" where
  "due env cfg now db a =
     (case GetAnnouncement (sw_get env a) a db of
        Inl _ \<Rightarrow> False | Inr row \<Rightarrow> needsReannounce row (now + seconds (cf_ReannounceThresholdSeconds cfg)))"

definition tally :: "AnnounceSweepResult \<Rightarrow> int" where
  "tally r = ws_OK r + ws_Rejected r + ws_Failed r"

lemma count_class_simps [simp]:
  "ws_Attempted (count_class c r) = ws_Attempted r" "ws_Deferred (count_class c r) = ws_Deferred r"
  "tally (count_class c r) = tally r + 1"
  by (cases c; simp add: count_class_def tally_def)+

lemma announce_one_result:
  "ws_Attempted (ss_result (announce_one env i cfg now a s)) = ws_Attempted (ss_result s)"
  "ws_Deferred (ss_result (announce_one env i cfg now a s)) = ws_Deferred (ss_result s)"
  "tally (ss_result (announce_one env i cfg now a s)) = tally (ss_result s) + 1"
  by (auto simp: announce_one_def Let_def tally_def [of "_\<lparr>ws_Failed := _\<rparr>"] split: sum.split prod.split) (simp add: tally_def)

lemma sweep_one_result:
  "ws_Attempted (ss_result (sweep_one env i cfg now a s)) =
     ws_Attempted (ss_result s) + (if due env cfg now (ss_db s) a \<and> CanAttempt (ss_backoff s) a now then 1 else 0)"
  "ws_Deferred (ss_result (sweep_one env i cfg now a s)) =
     ws_Deferred (ss_result s) + (if due env cfg now (ss_db s) a \<and> \<not> CanAttempt (ss_backoff s) a now then 1 else 0)"
  "tally (ss_result (sweep_one env i cfg now a s)) =
     tally (ss_result s) + (if due env cfg now (ss_db s) a \<and> CanAttempt (ss_backoff s) a now then 1 else 0) +
     (if unreadable_row env (ss_db s) a then 1 else 0)"
  by (auto simp: sweep_one_def due_def unreadable_row_def Let_def announce_one_result split: sum.split) (auto simp: tally_def)

lemma announce_one_other:
  assumes "a' \<noteq> a"
  shows "announcement (ss_db (announce_one env i cfg now a s)) a' = announcement (ss_db s) a'"
    and "CanAttempt (ss_backoff (announce_one env i cfg now a s)) a' t = CanAttempt (ss_backoff s) a' t"
  using assms
  by (auto simp: announce_one_def store_status_def Let_def upsert_announcement_other Record_other split: sum.split prod.split)

lemma sweep_one_other:
  assumes "a' \<noteq> a"
  shows "announcement (ss_db (sweep_one env i cfg now a s)) a' = announcement (ss_db s) a'"
    and "CanAttempt (ss_backoff (sweep_one env i cfg now a s)) a' t = CanAttempt (ss_backoff s) a' t"
  using assms announce_one_other by (auto simp: sweep_one_def Let_def split: sum.split)

lemma GetAnnouncement_cong: "announcement db a = announcement db' a \<Longrightarrow> GetAnnouncement f a db = GetAnnouncement f a db'"
  by (simp add: GetAnnouncement_def)

lemma sweep_one_preds:
  assumes "a' \<noteq> a"
  shows "due env2 cfg2 now2 (ss_db (sweep_one env i cfg now a s)) a' = due env2 cfg2 now2 (ss_db s) a'"
    and "unreadable_row env2 (ss_db (sweep_one env i cfg now a s)) a' = unreadable_row env2 (ss_db s) a'"
  using GetAnnouncement_cong [OF sweep_one_other(1) [OF assms]] by (simp_all add: due_def unreadable_row_def)

lemma sweep_fold_result:
  assumes "distinct ids"
  shows "ws_Attempted (ss_result (fold (sweep_one env i cfg now) ids s)) = ws_Attempted (ss_result s) +
      int (length (filter (\<lambda>a. due env cfg now (ss_db s) a \<and> CanAttempt (ss_backoff s) a now) ids)) \<and>
    ws_Deferred (ss_result (fold (sweep_one env i cfg now) ids s)) = ws_Deferred (ss_result s) +
      int (length (filter (\<lambda>a. due env cfg now (ss_db s) a \<and> \<not> CanAttempt (ss_backoff s) a now) ids)) \<and>
    tally (ss_result (fold (sweep_one env i cfg now) ids s)) = tally (ss_result s) +
      int (length (filter (\<lambda>a. due env cfg now (ss_db s) a \<and> CanAttempt (ss_backoff s) a now) ids)) +
      int (length (filter (unreadable_row env (ss_db s)) ids))"
  using assms
proof (induction ids arbitrary: s)
  case (Cons a ids)
  let ?s = "sweep_one env i cfg now a s"
  have ne: "b \<in> set ids \<Longrightarrow> b \<noteq> a" for b using Cons.prems by auto
  have f: "filter (\<lambda>b. due env cfg now (ss_db ?s) b \<and> CanAttempt (ss_backoff ?s) b now) ids =
      filter (\<lambda>b. due env cfg now (ss_db s) b \<and> CanAttempt (ss_backoff s) b now) ids"
    "filter (\<lambda>b. due env cfg now (ss_db ?s) b \<and> \<not> CanAttempt (ss_backoff ?s) b now) ids =
      filter (\<lambda>b. due env cfg now (ss_db s) b \<and> \<not> CanAttempt (ss_backoff s) b now) ids"
    "filter (unreadable_row env (ss_db ?s)) ids = filter (unreadable_row env (ss_db s)) ids"
    using ne by (auto intro!: filter_cong simp: sweep_one_preds sweep_one_other)
  show ?case using Cons.IH [of ?s] Cons.prems by (simp add: f sweep_one_result)
qed simp

lemma sweep_one_assets [simp, frame]: "tb_assets (ss_db (sweep_one env i cfg now a s)) = tb_assets (ss_db s)"
  by (auto simp: sweep_one_def announce_one_def store_status_def Let_def split: sum.split prod.split)

lemma sweep_one_cfg [simp, frame]: "bs_cfg (ss_backoff (sweep_one env i cfg now a s)) = bs_cfg (ss_backoff s)"
  by (auto simp: sweep_one_def announce_one_def Let_def split: sum.split prod.split)

lemma fold_sweep_assets [simp]: "tb_assets (ss_db (fold (sweep_one env i cfg now) ids s)) = tb_assets (ss_db s)"
  by (induction ids arbitrary: s) simp_all

text \<open>An asset that a sweep at this time would not announce.\<close>

definition calm :: "sweep_env \<Rightarrow> Config \<Rightarrow> instant \<Rightarrow> string \<Rightarrow> sweep_state \<Rightarrow> bool" where
  "calm env cfg now a s \<longleftrightarrow> \<not> (due env cfg now (ss_db s) a \<and> CanAttempt (ss_backoff s) a now)"

lemma calm_other: "a' \<noteq> a \<Longrightarrow> calm env cfg now a' (sweep_one env i cfg now a s) = calm env cfg now a' s"
  by (simp add: calm_def sweep_one_preds sweep_one_other)

lemma calm_skips:
  assumes "calm env cfg now a s"
  shows "\<exists>r. sweep_one env i cfg now a s = s\<lparr>ss_result := r\<rparr> \<and> ws_Attempted r = ws_Attempted (ss_result s)"
  using assms unfolding calm_def due_def sweep_one_def Let_def
  by (cases "GetAnnouncement (sw_get env a) a (ss_db s)") (auto intro: exI [of _ "ss_result s"])

lemma calm_result [simp]: "calm env cfg now a (s\<lparr>ss_result := r\<rparr>) = calm env cfg now a s"
  by (simp add: calm_def)

lemma calm_fold:
  assumes "\<forall>a \<in> set ids. calm env cfg now a s"
  shows "\<exists>r. fold (sweep_one env i cfg now) ids s = s\<lparr>ss_result := r\<rparr> \<and> ws_Attempted r = ws_Attempted (ss_result s)"
  using assms
proof (induction ids arbitrary: s)
  case Nil
  show ?case by (auto intro: exI [of _ "ss_result s"])
next
  case (Cons a ids)
  obtain r where r: "sweep_one env i cfg now a s = s\<lparr>ss_result := r\<rparr>" "ws_Attempted r = ws_Attempted (ss_result s)"
    using calm_skips [of env cfg now a s] Cons.prems by auto
  show ?case using Cons.IH [of "s\<lparr>ss_result := r\<rparr>"] Cons.prems r by simp
qed

text \<open>What makes one sweep settle everything: no database errors, waits that are positive, and announcements that live longer than the threshold.\<close>

definition settling :: "sweep_env \<Rightarrow> Config \<Rightarrow> BackoffConfig \<Rightarrow> instant \<Rightarrow> bool" where
  "settling env cfg bc now \<longleftrightarrow>
     sw_get env = (\<lambda>_. False) \<and> sw_put env = (\<lambda>_. False) \<and> (\<exists>draw. sw_jitter env = (\<lambda>a. defaultJitter_Int63n (draw a))) \<and>
     small_delays bc \<and> 0 < bc_RejectedRetry bc \<and> 0 < bc_UnauthorizedRetry bc \<and>
     seconds (cf_ReannounceThresholdSeconds cfg) + nanos \<le> seconds (cf_AnnounceExpiresSeconds cfg) \<and>
     0 \<le> now \<and> rfc_range now \<and> 0 \<le> now + seconds (cf_AnnounceExpiresSeconds cfg) \<and> rfc_range (now + seconds (cf_AnnounceExpiresSeconds cfg))"

lemma Record_blocks:
  assumes "settling env cfg (bs_cfg b) now" "cls \<noteq> ClassOK"
  shows "\<not> CanAttempt (Record (sw_jitter env a) a cls now b) a now"
proof -
  obtain draw where j: "sw_jitter env = (\<lambda>a. defaultJitter_Int63n (draw a))" using assms(1) by (auto simp: settling_def)
  show ?thesis
    using assms default_jitter.NextAttempt_later [of b now "draw a"]
    by (cases cls) (auto simp: CanAttempt_Record j settling_def small_delays_def not_le)
qed

lemma fresh_not_due:
  assumes "settling env cfg bc now" "asset db a \<noteq> None"
  shows "\<not> due env cfg now (store_status env a now (from_Unix (Unix (now + seconds (cf_AnnounceExpiresSeconds cfg)))) ''ok'' now db) a"
proof -
  let ?x = "now + seconds (cf_AnnounceExpiresSeconds cfg)"
  have nf: "sw_get env a = False" "sw_put env a = False" and r: "rfc_range now" "rfc_range (from_Unix (Unix ?x))"
    and ux: "from_Unix (Unix (from_Unix (Unix ?x))) = from_Unix (Unix ?x)"
    and lo: "\<not> from_Unix (Unix ?x) < now + seconds (cf_ReannounceThresholdSeconds cfg)" "\<not> IsZero (from_Unix (Unix ?x))"
    using assms(1) by (auto simp: settling_def rfc_range_def from_Unix_def Unix_def IsZero_def zero_time_def)
  obtain row where "GetAnnouncement False a (snd (UpsertAnnouncementStatus (sw_fk env) False a now (from_Unix (Unix ?x)) ''ok'' now db)) = Ok (Some row)"
    "aw_Status row = ''ok''" "aw_ExpiresAt row = from_Unix (Unix ?x)"
    using sqlite.get_put [OF assms(2) r] ux by metis
  with lo show ?thesis by (simp add: due_def store_status_def nf needsReannounce_def)
qed

lemma announce_one_calm:
  assumes "settling env cfg (bs_cfg (ss_backoff s)) now" "asset (ss_db s) a \<noteq> None"
  shows "calm env cfg now a (announce_one env i cfg now a s)"
proof (cases "BuildAnnouncement (sw_lib env a) i cfg a now")
  case (Inl e)
  then show ?thesis using Record_blocks [OF assms(1), of ClassPermanent] by (simp add: announce_one_def calm_def)
next
  case (Inr req)
  obtain err m where ann: "sw_announce env req (ss_metrics s) = (err, m)" by fastforce
  have ex: "ar_ExpiresAt req = Unix (now + seconds (cf_AnnounceExpiresSeconds cfg))"
    using Inr by (auto simp: BuildAnnouncement_def Let_def split: if_splits sum.splits)
  show ?thesis
  proof (cases "ClassifyError err = ClassOK")
    case True
    then show ?thesis
      using fresh_not_due [OF assms] by (simp add: announce_one_def calm_def Inr ann Let_def ex class_status_def)
  next
    case False
    then show ?thesis using Record_blocks [OF assms(1) False] by (simp add: announce_one_def calm_def Inr ann Let_def)
  qed
qed

lemma sweep_one_calm:
  assumes "settling env cfg (bs_cfg (ss_backoff s)) now" "asset (ss_db s) a \<noteq> None"
  shows "calm env cfg now a (sweep_one env i cfg now a s)"
proof (cases "calm env cfg now a s")
  case True
  then show ?thesis using calm_skips [of env cfg now a s i] by auto
next
  case False
  then obtain r where "sweep_one env i cfg now a s = announce_one env i cfg now a (s\<lparr>ss_result := r\<rparr>)"
    unfolding calm_def due_def sweep_one_def Let_def by (cases "GetAnnouncement (sw_get env a) a (ss_db s)") auto
  then show ?thesis using announce_one_calm [of env cfg "s\<lparr>ss_result := r\<rparr>"] assms by simp
qed

lemma fold_sweep_calm_other:
  "a \<notin> set ids \<Longrightarrow> calm env cfg now a (fold (sweep_one env i cfg now) ids s) = calm env cfg now a s"
  by (induction ids arbitrary: s) (auto simp: calm_other)

lemma fold_sweep_calm:
  assumes "settling env cfg (bs_cfg (ss_backoff s)) now" "\<forall>a \<in> set ids. asset (ss_db s) a \<noteq> None" "distinct ids"
  shows "\<forall>a \<in> set ids. calm env cfg now a (fold (sweep_one env i cfg now) ids s)"
  using assms
proof (induction ids arbitrary: s)
  case (Cons b ids)
  show ?case
    using Cons.IH [of "sweep_one env i cfg now b s"] Cons.prems sweep_one_calm [of env cfg s now b i]
      fold_sweep_calm_other [of b ids] by simp
qed simp

lemma RunAnnounceSweep_Ok:
  assumes "RunAnnounceSweep (Some env) lf i cfg now db b m = (Ok r, db', b', m')"
  defines "s \<equiv> fold (sweep_one env i cfg now) (sort (active_ids db)) \<lparr>ss_result = zero_sweep, ss_db = db, ss_backoff = b, ss_metrics = m\<rparr>"
  shows "r = ss_result s" "db' = ss_db s" "b' = ss_backoff s" "m' = ss_metrics s"
  using assms by (auto simp: RunAnnounceSweep_def ListActiveAssetIDs_def active_ids_def Let_def split: if_splits)

section \<open>Properties\<close>

text \<open>C5. A successful rescan implements the reconciliation of the database with the disk: every publishable directory is an active
  asset, every other asset ever recorded is missing, nothing is forgotten and nothing else appears; creation times are
  kept; the active assets are listed in order; and the three numbers reported are right: the number scanned and the number active are
  the number of publishable directories, the number missing is that of the assets that were active and are not found any more.\<close>

theorem rescan_reconciles:
  assumes "RunRescanJob env root now rf db m = (Ok res, db', m')" "db_inv db"
    and "se_root env = Ok entries" "distinct (map de_name entries)"
  defines "found \<equiv> {de_name e | e. e \<in> set entries \<and> de_type e = Directory \<and> assetIDRegex (de_name e) \<and> publishable env root (de_name e)}"
  shows "lifecycle_of db' = reconcile found (lifecycle_of db) \<and> db_inv db' \<and>
    (\<forall>k r. asset db k = Some r \<longrightarrow> (\<exists>r'. asset db' k = Some r' \<and> at_created_at r' = at_created_at r)) \<and>
    (\<exists>ids. ListActiveAssetIDs (\<lambda>_. False) db' = Ok ids \<and> set ids = found \<and>
       rr_ActiveAssets res = int (length ids) \<and> rr_ScannedAssets res = int (length ids)) \<and>
    rr_MissingAssets res = int (card {a. lifecycle_of db a = Some Active \<and> a \<notin> found})"
proof -
  obtain sc db1 missing where sc: "Scan env root m = (Ok sc, m')"
    and up: "UpsertAssets (rf_upsert rf) (map record_of (sr_Assets sc)) now db = (Ok (), db1)"
    and mm: "MarkMissing (rf_missing rf) (map as_AssetID (sr_Assets sc)) now db1 = (Ok missing, db')"
    and res: "res = \<lparr>rr_ScannedAssets = sr_ScannedAssets sc, rr_ActiveAssets = count_status ''active'' db', rr_MissingAssets = missing\<rparr>"
    using assms(1) by (rule RunRescanJob_Ok)
  define as where "as = sr_Assets sc"
  note scan = scan_result [OF sc assms(3,4), folded as_def, folded found_def]
  note ordered = scan [THEN conjunct1] and ids = scan [THEN conjunct2, THEN conjunct1] and count = scan [THEN conjunct2, THEN conjunct2]
  have d: "distinct (map as_AssetID as)" using ordered by (simp only: strict_sorted_iff)
  have found: "as_AssetID ` set as = found" by (rule trans [OF list.set_map [symmetric] ids])
  note lc = rescan_lifecycle [OF assms(2) d up [folded as_def] mm [folded as_def], unfolded found]
  note rows = rescan_rows [OF assms(2) d up [folded as_def] mm [folded as_def]]
  have "a \<in> set (active_ids db') \<longleftrightarrow> a \<in> found" for a
    unfolding active_ids_lifecycle [OF rows(1)] lc reconcile_def by simp
  then have "set (sort (active_ids db')) = set (map as_AssetID as)" unfolding ids by auto
  then have sorted: "sort (active_ids db') = map as_AssetID as"
    using active_ids_distinct [OF rows(1)] ordered d by (intro sorted_distinct_set_unique) (simp_all only: strict_sorted_iff sorted_sort distinct_sort)
  then have len: "length (active_ids db') = length as" by (metis length_sort length_map)
  have "\<exists>r'. asset db' k = Some r' \<and> at_created_at r' = at_created_at r" if "asset db k = Some r" for k r
  proof (cases "k \<in> as_AssetID ` set as")
    case True
    then obtain x where "x \<in> set as" "k = as_AssetID x" by blast
    then show ?thesis using that rows(2) [of x] by (simp add: row_for_def)
  next
    case False
    then show ?thesis using that rows(3) by blast
  qed
  moreover have "ListActiveAssetIDs (\<lambda>_. False) db' = Ok (map as_AssetID as)" by (simp add: ListActive_active_ids sorted)
  moreover have "rr_ActiveAssets res = int (length as)" "rr_ScannedAssets res = int (length as)"
    using count len by (simp_all add: res count_active_length)
  moreover have "rr_MissingAssets res = int (card {a. lifecycle_of db a = Some Active \<and> a \<notin> found})"
    using rescan_missing [OF assms(2) up [folded as_def] mm [folded as_def]] unfolding found by (simp add: res)
  ultimately show ?thesis using lc rows(1) ids by (intro conjI exI [of _ "map as_AssetID as"] allI impI) (simp_all only: length_map)
qed

text \<open>The sweep accounts for every active asset: the attempts are the assets that are due and not held back, the deferred ones those
  due and held back, and successes, rejections and failures together are the attempts plus the assets whose record could not be
  read. What is due and held back is decided on the state before the sweep, since assets do not influence each other.\<close>

theorem sweep_accounting:
  assumes "RunAnnounceSweep (Some env) lf i cfg now db b m = (Ok r, db', b', m')" "db_inv db"
  shows "ws_Attempted r = int (length (filter (\<lambda>a. due env cfg now db a \<and> CanAttempt b a now) (active_ids db))) \<and>
    ws_Deferred r = int (length (filter (\<lambda>a. due env cfg now db a \<and> \<not> CanAttempt b a now) (active_ids db))) \<and>
    ws_OK r + ws_Rejected r + ws_Failed r = ws_Attempted r + int (length (filter (unreadable_row env db) (active_ids db)))"
proof -
  let ?s = "\<lparr>ss_result = zero_sweep, ss_db = db, ss_backoff = b, ss_metrics = m\<rparr>"
  note r = RunAnnounceSweep_Ok(1) [OF assms(1)]
  have d: "distinct (sort (active_ids db))" using active_ids_distinct [OF assms(2)] by simp
  have len: "length (filter P (sort (active_ids db))) = length (filter P (active_ids db))" for P
    by (metis filter_sort length_sort)
  show ?thesis
    using sweep_fold_result [OF d, of env i cfg now ?s] unfolding r [symmetric] len tally_def by (simp add: zero_sweep_def)
qed

text \<open>C17. One sweep settles everything: a second sweep at the same time attempts nothing and changes neither database nor backoff state
  nor metrics, however the catalog answered the first time and whatever had failed. This holds when the database reports no
  errors, the waits are positive and announcements live at least a second longer than the re-announcement threshold.\<close>

theorem sweep_settles:
  assumes "RunAnnounceSweep (Some env) lf i cfg now db b m = (Ok r, db', b', m')" "db_inv db" "settling env cfg (bs_cfg b) now"
  shows "\<exists>r2. RunAnnounceSweep (Some env) (\<lambda>_. False) i cfg now db' b' m' = (Ok r2, db', b', m') \<and> ws_Attempted r2 = 0"
proof -
  let ?s0 = "\<lparr>ss_result = zero_sweep, ss_db = db, ss_backoff = b, ss_metrics = m\<rparr>"
  define ids where "ids = sort (active_ids db)"
  define s where "s = fold (sweep_one env i cfg now) ids ?s0"
  note s = RunAnnounceSweep_Ok [OF assms(1), folded ids_def, folded s_def]
  have "\<forall>a \<in> set ids. calm env cfg now a s"
    unfolding s_def using assms(3) active_ids_distinct [OF assms(2)]
    by (intro fold_sweep_calm) (auto simp: ids_def active_ids_set [OF assms(2)])
  then have calm: "\<forall>a \<in> set ids. calm env cfg now a (s\<lparr>ss_result := zero_sweep\<rparr>)" by simp
  have same: "s\<lparr>ss_result := zero_sweep\<rparr> = \<lparr>ss_result = zero_sweep, ss_db = db', ss_backoff = b', ss_metrics = m'\<rparr>"
    using s(2-4) by (cases s) simp
  have "tb_assets db' = tb_assets db" unfolding s(2) s_def by simp
  then have ids: "sort (active_ids db') = ids" by (simp add: ids_def active_ids_def)
  show ?thesis
    using calm_fold [OF calm, of i] unfolding RunAnnounceSweep_def option.case ListActive_active_ids sum.case ids same
    by (auto simp: Let_def zero_sweep_def)
qed

section \<open>Witnesses\<close>

definition no_rescan_faults :: rescan_faults where
  "no_rescan_faults = \<lparr>rf_upsert = (\<lambda>_. False), rf_missing = (\<lambda>_. False), rf_count = (\<lambda>_. False)\<rparr>"

lemma upsert_loop_no_fault: "upsert_loop (\<lambda>_. False) k n as db = Ok (fold (upsert_asset n) as db)"
  by (induction as arbitrary: k db) simp_all

lemma demo_rescan: "\<exists>res db'. RunRescanJob demo_scan ''/d'' 0 no_rescan_faults db None = (Ok res, db', None)"
proof -
  obtain sc where "Scan demo_scan ''/d'' None = (Ok sc, None)" using demo_scan_result by blast
  then show ?thesis
    by (simp add: RunRescanJob_def no_rescan_faults_def UpsertAssets_def upsert_loop_no_fault MarkMissing_def CountActive_def Let_def)
qed

text \<open>A database in which an asset is active whose directory is gone.\<close>

definition demo_stale_db :: database where
  "demo_stale_db = upsert_asset (Format 0) (demo_record\<lparr>rc_AssetID := ''z9''\<rparr>) empty_db"

lemma demo_stale_db_facts: "db_inv demo_stale_db" "lifecycle_of demo_stale_db a = (if a = ''z9'' then Some Active else None)"
  by (simp_all add: demo_stale_db_def empty_db_def upsert_asset_def demo_record_def db_inv_def lifecycle_of_def Let_def)

theorem rescan_reconciles_witness:
  "\<exists>res db'. RunRescanJob demo_scan ''/d'' 0 no_rescan_faults demo_stale_db None = (Ok res, db', None) \<and>
     rr_ActiveAssets res = rr_ScannedAssets res \<and> rr_MissingAssets res = 1 \<and> lifecycle_of db' ''z9'' = Some Missing \<and> db_inv db'"
proof -
  obtain res db' where run: "RunRescanJob demo_scan ''/d'' 0 no_rescan_faults demo_stale_db None = (Ok res, db', None)"
    using demo_rescan [of demo_stale_db] by (elim exE)
  let ?listing = "[\<lparr>de_name = ''a1'', de_type = Directory, de_info = Err NotExist\<rparr>,
        \<lparr>de_name = ''b2'', de_type = Directory, de_info = Err NotExist\<rparr>,
        \<lparr>de_name = ''c'', de_type = Symlink, de_info = Err NotExist\<rparr>]"
  define found where "found = {de_name e | e. e \<in> set ?listing \<and> de_type e = Directory \<and> assetIDRegex (de_name e) \<and> publishable demo_scan ''/d'' (de_name e)}"
  have gone: "''z9'' \<notin> found" by (auto simp: found_def)
  have root: "se_root demo_scan = Ok ?listing" by (simp add: demo_scan_def)
  have d: "distinct (map de_name ?listing)" by simp
  note r = rescan_reconciles [OF run demo_stale_db_facts(1) root d, folded found_def]
  have "{a. lifecycle_of demo_stale_db a = Some Active \<and> a \<notin> found} = {''z9''}" using gone by (auto simp: demo_stale_db_facts(2))
  then have "rr_MissingAssets res = 1" using r by simp
  moreover have "lifecycle_of db' ''z9'' = Some Missing" using r gone by (simp add: reconcile_def demo_stale_db_facts(2))
  moreover have "rr_ActiveAssets res = rr_ScannedAssets res" "db_inv db'" using r by (elim exE conjE; simp)+
  ultimately show ?thesis using run by blast
qed

definition demo_sweep :: sweep_env where
  "demo_sweep = \<lparr>sw_get = (\<lambda>_. False), sw_put = (\<lambda>_. False), sw_fk = True,
     sw_lib = (\<lambda>_. \<lparr>sl_nonce = (\<lambda>_. Ok ''n''), sl_sha256 = id, sl_schnorr = (\<lambda>_ _. Ok ''s'')\<rparr>),
     sw_jitter = (\<lambda>_. defaultJitter_Int63n 0), sw_announce = (\<lambda>_ m. (Some ErrServer, m))\<rparr>"

definition demo_sweep_run where
  "demo_sweep_run = RunAnnounceSweep (Some demo_sweep) (\<lambda>_. False) demo_identity (Load demo_os) 0 demo_db demo_backoff None"

lemma demo_db_facts: "db_inv demo_db" "active_ids demo_db = [''a1'']" "announcement demo_db ''a1'' = None"
  by (simp_all add: demo_db_def empty_db_def upsert_asset_def demo_record_def db_inv_def active_ids_def Let_def)

lemma demo_sweep_Ok: "\<exists>r db' b' m'. demo_sweep_run = (Ok r, db', b', m')"
  by (simp add: demo_sweep_run_def RunAnnounceSweep_def ListActiveAssetIDs_def Let_def)

theorem sweep_accounting_witness: "\<exists>r rest. demo_sweep_run = (Ok r, rest) \<and> ws_Attempted r = 1 \<and> ws_Deferred r = 0"
proof -
  obtain r db' b' m' where run: "demo_sweep_run = (Ok r, db', b', m')" using demo_sweep_Ok by blast
  have "due demo_sweep (Load demo_os) 0 demo_db ''a1''" "CanAttempt demo_backoff ''a1'' 0"
    by (simp_all add: due_def demo_sweep_def GetAnnouncement_def demo_db_facts needsReannounce_def CanAttempt_def demo_backoff_def
        NewBackoffState_def)
  then show ?thesis
    using sweep_accounting [OF run [unfolded demo_sweep_run_def] demo_db_facts(1)] run by (auto simp: demo_db_facts)
qed

lemma demo_periods:
  "seconds (cf_ReannounceThresholdSeconds (Load demo_os)) = 86400 * nanos"
  "seconds (cf_AnnounceExpiresSeconds (Load demo_os)) = 604800 * nanos"
  "cf_AnnouncementExpiryGraceSeconds (Load demo_os) = 86400"
  by (simp_all add: Load_def Let_def case_prod_beta seconds_def in_int64_def)
    (simp_all add: demo_os_def getenvInt_def Getenv_def demo_trim Let_def in_int64_def)

lemma demo_settling: "settling demo_sweep (Load demo_os) (bs_cfg demo_backoff) 0"
  using demo_periods
  by (auto simp: settling_def demo_sweep_def demo_backoff_ok demo_backoff_def NewBackoffState_def rfc_range_def Unix_def small_delays_def)

theorem sweep_settles_witness:
  "\<exists>r db' b' m' r2. demo_sweep_run = (Ok r, db', b', m') \<and>
     RunAnnounceSweep (Some demo_sweep) (\<lambda>_. False) demo_identity (Load demo_os) 0 db' b' m' = (Ok r2, db', b', m') \<and> ws_Attempted r2 = 0"
proof -
  obtain r db' b' m' where run: "demo_sweep_run = (Ok r, db', b', m')" using demo_sweep_Ok by blast
  show ?thesis using sweep_settles [OF run [unfolded demo_sweep_run_def] demo_db_facts(1) demo_settling] run by blast
qed

end
