(* ===== verification/Runner.thy ===== *)
theory Runner
  imports Jobs "HOL-Library.Transitive_Closure_Table"
begin

text \<open>
  Package \<open>jobs\<close>, file \<open>runner.go\<close>: the status, the runner, the bodies of its three periodic loops, and the adapter between
  sweep and catalog client; theory \<open>Freshness\<close> has the loops themselves. The loops run concurrently and share the database with each other and with the internal
  API; \<open>db_step\<close> is one statement (or transaction) of any of them, so a chain of steps is any interleaving.
\<close>

section \<open>Status\<close>

record Status =
  st_jobsEnabled :: bool
  st_lastRescanAt :: instant
  st_lastAnnounceSweepAt :: instant
  st_deferredAnnouncesCount :: int

definition NewStatus :: "bool \<Rightarrow> Status" where
  "NewStatus enabled = \<lparr>st_jobsEnabled = enabled, st_lastRescanAt = zero_time, st_lastAnnounceSweepAt = zero_time,
     st_deferredAnnouncesCount = 0\<rparr>"

record StatusSnapshot =
  sn_JobsEnabled :: bool
  sn_LastRescanAt :: instant
  sn_LastAnnounceSweepAt :: instant
  sn_DeferredAnnouncesCount :: int

definition Status_Snapshot :: "Status \<Rightarrow> StatusSnapshot" where
  "Status_Snapshot s = \<lparr>sn_JobsEnabled = st_jobsEnabled s, sn_LastRescanAt = st_lastRescanAt s,
     sn_LastAnnounceSweepAt = st_lastAnnounceSweepAt s, sn_DeferredAnnouncesCount = st_deferredAnnouncesCount s\<rparr>"

definition setLastRescanAt :: "instant \<Rightarrow> Status \<Rightarrow> Status" where
  "setLastRescanAt t s = s\<lparr>st_lastRescanAt := t\<rparr>"

definition setLastAnnounceSweep :: "instant \<Rightarrow> int \<Rightarrow> Status \<Rightarrow> Status" where
  "setLastAnnounceSweep t deferred s = s\<lparr>st_lastAnnounceSweepAt := t, st_deferredAnnouncesCount := deferred\<rparr>"

section \<open>The runner\<close>

text \<open>
  A clock gives the time of each of its numbered readings. The announcer is the catalog client behind its adapter; without a
  client there is none.
\<close>

type_synonym clock = "nat \<Rightarrow> instant"

type_synonym announcer = "Identity \<Rightarrow> AnnounceRequest \<Rightarrow> metrics \<Rightarrow> catalog_error option \<times> metrics"

definition catalogAnnouncerAdapter_Announce ::
  "catalog_net \<Rightarrow> (url_parts \<Rightarrow> string) \<Rightarrow> int \<Rightarrow> Client \<Rightarrow> announcer" where
  "catalogAnnouncerAdapter_Announce net us el c i req m =
     (case Announce net us el c i req m of (r, m') \<Rightarrow> (error_of r, m'))"

definition NewCatalogAnnouncer ::
  "catalog_net \<Rightarrow> (url_parts \<Rightarrow> string) \<Rightarrow> int \<Rightarrow> Client option \<Rightarrow> announcer option" where
  "NewCatalogAnnouncer net us el client =
     (case client of None \<Rightarrow> None | Some c \<Rightarrow> Some (catalogAnnouncerAdapter_Announce net us el c))"

record Runner =
  rn_cfg :: Config
  rn_db :: database
  rn_announcer :: "announcer option"
  rn_identity :: Identity
  rn_clock :: clock
  rn_backoff :: BackoffState
  rn_status :: Status
  rn_metrics :: metrics

definition NewRunner ::
  "clock \<Rightarrow> Config \<Rightarrow> database \<Rightarrow> announcer option \<Rightarrow> Identity \<Rightarrow> Status option \<Rightarrow> metrics \<Rightarrow> Runner" where
  "NewRunner realClock cfg db announcer i status m =
     \<lparr>rn_cfg = cfg, rn_db = db, rn_announcer = announcer, rn_identity = i, rn_clock = realClock,
      rn_backoff = NewBackoffStateFromConfig cfg,
      rn_status = (case status of None \<Rightarrow> NewStatus (cf_EnableJobs cfg) | Some s \<Rightarrow> s), rn_metrics = m\<rparr>"

definition SetClock :: "clock option \<Rightarrow> Runner \<Rightarrow> Runner" where
  "SetClock c r = (case c of None \<Rightarrow> r | Some clk \<Rightarrow> r\<lparr>rn_clock := clk\<rparr>)"

definition SetBackoffState :: "BackoffState option \<Rightarrow> Runner \<Rightarrow> Runner" where
  "SetBackoffState b r = (case b of None \<Rightarrow> r | Some st \<Rightarrow> r\<lparr>rn_backoff := st\<rparr>)"

section \<open>The bodies of the loops\<close>

text \<open>The bodies of the three loops; \<open>k\<close> is the number of the first clock reading of the run.\<close>

definition rescan_tick :: "scan_env \<Rightarrow> string \<Rightarrow> rescan_faults \<Rightarrow> faults \<Rightarrow> nat \<Rightarrow> Runner \<Rightarrow> Runner" where
  "rescan_tick env assetsRoot rf countFault k s =
     (case RunRescanJob env assetsRoot (rn_clock s k) rf (rn_db s) (rn_metrics s) of
        (Inl _, db, m) \<Rightarrow> s\<lparr>rn_db := db, rn_metrics := m\<rparr>
      | (Inr result, db, m) \<Rightarrow>
          (let m1 = SetActiveAssets (rr_ActiveAssets result) m;
               m2 = (case CountMissing countFault db of Inl _ \<Rightarrow> m1 | Inr missing \<Rightarrow> SetMissingAssets missing m1)
           in s\<lparr>rn_db := db, rn_metrics := (if m = None then None else m2),
                rn_status := setLastRescanAt (rn_clock s (k + 1)) (rn_status s)\<rparr>))"

definition announce_tick :: "sweep_env \<Rightarrow> faults \<Rightarrow> nat \<Rightarrow> Runner \<Rightarrow> Runner" where
  "announce_tick env listFault k s =
     (let announcer = map_option (\<lambda>a. env\<lparr>sw_announce := a (rn_identity s)\<rparr>) (rn_announcer s)
      in case RunAnnounceSweep announcer listFault (rn_identity s) (rn_cfg s) (rn_clock s k) (rn_db s) (rn_backoff s) (rn_metrics s) of
           (Inl _, db, b, m) \<Rightarrow> s\<lparr>rn_db := db, rn_backoff := b, rn_metrics := ObserveAnnounceSweep ''error'' m\<rparr>
         | (Inr _, db, b, m) \<Rightarrow>
             (let deferred = CountDeferred b (rn_clock s (k + 1))
              in s\<lparr>rn_db := db, rn_backoff := b,
                   rn_status := setLastAnnounceSweep (rn_clock s (k + 2)) deferred (rn_status s),
                   rn_metrics := ObserveAnnounceSweep ''ok'' (SetDeferredAnnounces deferred m)\<rparr>))"

definition cleanup_tick :: "faults \<Rightarrow> instant \<Rightarrow> nat \<Rightarrow> Runner \<Rightarrow> Runner" where
  "cleanup_tick fault timeNow k s =
     (case RunCleanupJob fault (cf_AnnouncementExpiryGraceSeconds (rn_cfg s)) (rn_clock s k) timeNow (rn_db s) of
        (_, db) \<Rightarrow> s\<lparr>rn_db := db\<rparr>)"

definition periodic_interval :: "int \<Rightarrow> int" where
  "periodic_interval interval = (if interval \<le> 0 then 5 * (60 * nanos) else interval)"

text \<open>The interval of each loop, as passed to \<open>runPeriodic\<close> and used by its ticker.\<close>

datatype job = RescanJob | SweepJob | CleanupJob

definition loop_interval :: "Config \<Rightarrow> job \<Rightarrow> int" where
  "loop_interval cfg j =
     periodic_interval (seconds (case j of RescanJob \<Rightarrow> cf_RescanIntervalSeconds cfg | _ \<Rightarrow> cf_AnnounceSweepIntervalSeconds cfg))"

section \<open>Database steps\<close>

inductive db_step :: "bool \<Rightarrow> database \<Rightarrow> database \<Rightarrow> bool" for fk where
  upserted: "db_step fk db (snd (UpsertAssets fault as now db))"
| missed: "db_step fk db (snd (MarkMissing fault seen now db))"
| announced: "db_step fk db (snd (UpsertAnnouncementStatus fk failed a la ex st now db))"
| expired: "db_step fk db (snd (MarkExpiredBefore fault limit now db))"

inductive_cases db_step_cases: "db_step fk db db'"

text \<open>Tables that are well-formed, and with foreign keys on, announcements only for assets that are there.\<close>

definition db_good :: "bool \<Rightarrow> database \<Rightarrow> bool" where
  "db_good fk db \<longleftrightarrow> db_inv db \<and> (fk \<longrightarrow> dom (announcement db) \<subseteq> dom (asset db))"

definition keeps_assets :: "database \<Rightarrow> database \<Rightarrow> bool" where
  "keeps_assets db db' \<longleftrightarrow>
     (\<forall>a r. asset db a = Some r \<longrightarrow> (\<exists>r'. asset db' a = Some r' \<and> at_created_at r' = at_created_at r))"

lemma keeps_assets_refl [simp, intro]: "keeps_assets db db"
  by (simp add: keeps_assets_def)

lemma keeps_assets_trans: "keeps_assets db db1 \<Longrightarrow> keeps_assets db1 db2 \<Longrightarrow> keeps_assets db db2"
  unfolding keeps_assets_def by metis

lemma keeps_assets_dom: "keeps_assets db db' \<Longrightarrow> dom (asset db) \<subseteq> dom (asset db')"
  by (auto simp: keeps_assets_def)

lemma upsert_asset_keeps: "keeps_assets db (upsert_asset n a db)"
  by (auto simp: keeps_assets_def upsert_asset_lookup row_for_def)

lemma fold_upsert_keeps: "keeps_assets db (fold (upsert_asset n) as db)"
proof (induction as arbitrary: db)
  case (Cons a as)
  show ?case using keeps_assets_trans [OF upsert_asset_keeps Cons.IH] by simp
qed simp

lemma mark_rows_keeps: "keeps_assets db (mark_rows P n db)"
  by (auto simp: keeps_assets_def mark_rows_asset)

lemma UpsertAssets_result:
  "snd (UpsertAssets fault as now db) \<in> {db, fold (upsert_asset (Format now)) as db}"
  by (auto simp: UpsertAssets_def split: sum.split dest: upsert_loop_Ok)

lemma MarkMissing_result: "\<exists>P. snd (MarkMissing fault seen now db) \<in> {db, mark_rows P (Format now) db}"
  by (auto simp: MarkMissing_def Let_def)

lemma MarkExpired_frame:
  "tb_assets (snd (MarkExpiredBefore fault limit now db)) = tb_assets db"
  "map fst (tb_announcements (snd (MarkExpiredBefore fault limit now db))) = map fst (tb_announcements db)"
  by (simp_all add: MarkExpiredBefore_def Let_def fst_map_rows del: map_map)

lemma upsert_announcement_dom:
  "fk \<Longrightarrow> dom (announcement (snd (UpsertAnnouncementStatus fk failed a la ex st now db))) \<subseteq> dom (announcement db) \<union> dom (asset db)"
  by (auto simp: UpsertAnnouncementStatus_def Let_def update_conv' split: if_splits)

lemma upsert_announcement_inv [inv_intros]:
  "db_inv db \<Longrightarrow> db_inv (snd (UpsertAnnouncementStatus fk failed a la ex st now db))"
  by (simp add: db_inv_def UpsertAnnouncementStatus_def Let_def distinct_update)

lemma db_good_keeps:
  "db_good fk db \<Longrightarrow> keeps_assets db db' \<Longrightarrow> db_inv db' \<Longrightarrow> dom (announcement db') \<subseteq> dom (announcement db) \<Longrightarrow> db_good fk db'"
  unfolding db_good_def using keeps_assets_dom by blast

lemma db_step_inv:
  assumes "db_step fk db db'" "db_inv db"
  shows "db_inv db'"
  using assms
proof (cases rule: db_step.cases)
  case (upserted fault as now)
  then show ?thesis using assms(2) UpsertAssets_result [of fault as now db] fold_upsert_inv by auto
next
  case (missed fault seen now)
  then show ?thesis using assms(2) MarkMissing_result [of fault seen now db] mark_rows_inv by auto
next
  case (expired fault limit now)
  then show ?thesis using assms(2) MarkExpired_frame [of fault limit now db] by (simp add: db_inv_def)
qed (simp add: upsert_announcement_inv)

lemma db_steps_inv: "(db_step fk)\<^sup>*\<^sup>* db db' \<Longrightarrow> db_inv db \<Longrightarrow> db_inv db'"
  by (induction rule: rtranclp_induct) (auto dest: db_step_inv)

lemma db_step_good:
  assumes "db_step fk db db'" "db_good fk db"
  shows "db_good fk db' \<and> keeps_assets db db'"
  using assms
proof (cases rule: db_step.cases)
  case (upserted fault as now)
  then consider "db' = db" | "db' = fold (upsert_asset (Format now)) as db" using UpsertAssets_result by blast
  then show ?thesis
  proof cases
    case 2
    moreover have "db_inv db'" unfolding 2 using assms(2) by (simp add: db_good_def fold_upsert_inv)
    ultimately show ?thesis using db_good_keeps [OF assms(2)] fold_upsert_keeps by simp
  qed (use assms(2) in simp)
next
  case (missed fault seen now)
  then obtain P where "db' = db \<or> db' = mark_rows P (Format now) db" using MarkMissing_result by blast
  then show ?thesis
  proof
    assume d: "db' = mark_rows P (Format now) db"
    then have "db_inv db'" using assms(2) by (simp add: db_good_def mark_rows_inv)
    then show ?thesis using db_good_keeps [OF assms(2)] mark_rows_keeps d by simp
  qed (use assms(2) in simp)
next
  case (announced failed a la ex st now)
  then have same: "tb_assets db' = tb_assets db" by simp
  have "db_inv db'" using assms(2) announced upsert_announcement_inv by (simp add: db_good_def)
  moreover have "fk \<longrightarrow> dom (announcement db') \<subseteq> dom (asset db')"
    unfolding same using assms(2) upsert_announcement_dom [of fk failed a la ex st now db]
    unfolding db_good_def announced(1) [symmetric] by blast
  ultimately show ?thesis by (simp add: db_good_def keeps_assets_def same)
next
  case (expired fault limit now)
  note frame = MarkExpired_frame [of fault limit now db]
  have "dom (announcement db') = dom (announcement db)"
    unfolding dom_map_of_conv_image_fst list.set_map [symmetric] expired(1) frame(2) ..
  moreover have "db_inv db'" using assms(2) by (simp add: expired db_inv_def db_good_def frame)
  ultimately show ?thesis using assms(2) by (simp add: db_good_def keeps_assets_def expired frame)
qed

lemma db_steps_good:
  assumes "(db_step fk)\<^sup>*\<^sup>* db db'" "db_good fk db"
  shows "db_good fk db' \<and> keeps_assets db db'"
  using assms
proof (induction rule: rtranclp_induct)
  case (step db1 db2)
  then show ?case using db_step_good [OF step.hyps(2)] keeps_assets_trans by blast
qed simp

section \<open>The jobs are chains of steps\<close>

lemma step_chain: "db_step fk db db' \<Longrightarrow> (db_step fk)\<^sup>*\<^sup>* db db'"
  by (rule r_into_rtranclp)

lemma rescan_steps: "(db_step fk)\<^sup>*\<^sup>* db (fst (snd (RunRescanJob env root now rf db m)))"
proof -
  have up: "UpsertAssets f as t db = (r, db1) \<Longrightarrow> (db_step fk)\<^sup>*\<^sup>* db db1" for f as t r db1
    using upserted [of fk db f as t] by auto
  have miss: "MarkMissing f seen t d = (r, db2) \<Longrightarrow> db_step fk d db2" for f seen t d r db2
    using missed [of fk d f seen t] by auto
  show ?thesis
    by (auto simp: RunRescanJob_def Let_def split: prod.split sum.split intro: up rtranclp.rtrancl_into_rtrancl [OF up miss])
qed

lemma sweep_one_step: "(db_step (sw_fk env))\<^sup>*\<^sup>* (ss_db s) (ss_db (sweep_one env i cfg now a s))"
  by (auto simp: sweep_one_def announce_one_def store_status_def Let_def split: sum.split prod.split
      intro!: step_chain announced)

lemma sweep_fold_steps: "(db_step (sw_fk env))\<^sup>*\<^sup>* (ss_db s) (ss_db (fold (sweep_one env i cfg now) ids s))"
proof (induction ids arbitrary: s)
  case (Cons a ids)
  show ?case using rtranclp_trans [OF sweep_one_step Cons.IH] by simp
qed simp

lemma announce_tick_steps: "(db_step (sw_fk env))\<^sup>*\<^sup>* (rn_db r) (rn_db (announce_tick env lf k r))"
proof (cases "rn_announcer r")
  case (Some a)
  then show ?thesis
    using sweep_fold_steps [of "env\<lparr>sw_announce := a (rn_identity r)\<rparr>"
        "\<lparr>ss_result = zero_sweep, ss_db = rn_db r, ss_backoff = rn_backoff r, ss_metrics = rn_metrics r\<rparr>"]
    by (auto simp: announce_tick_def RunAnnounceSweep_def Let_def split: sum.split)
qed (simp add: announce_tick_def RunAnnounceSweep_def Let_def)

lemma rescan_tick_steps: "(db_step fk)\<^sup>*\<^sup>* (rn_db r) (rn_db (rescan_tick env root rf cf k r))"
  using rescan_steps [of fk "rn_db r" env root "rn_clock r k" rf "rn_metrics r"]
  by (auto simp: rescan_tick_def Let_def split: prod.split sum.split)

lemma cleanup_tick_steps: "(db_step fk)\<^sup>*\<^sup>* (rn_db r) (rn_db (cleanup_tick f t k r))"
  by (auto simp: cleanup_tick_def RunCleanupJob_def split: prod.split intro!: step_chain)
    (metis expired snd_conv)

section \<open>Properties\<close>

text \<open>C18. In every interleaving of the statements that rescans, sweeps, cleanups and the internal API issue, with any of them failing, the
  tables stay well-formed: one row per asset, a status that is active or missing, and with foreign keys enforced
  announcements only for recorded assets. No asset row is ever lost and its creation time never changes.\<close>

theorem interleaving_invariant:
  assumes "(db_step fk)\<^sup>*\<^sup>* db db'" "db_good fk db"
  shows "db_good fk db' \<and> keeps_assets db db'"
  using assms by (rule db_steps_good)

section \<open>Witnesses\<close>

lemma empty_db_good: "db_good True empty_db"
  by (simp add: db_good_def db_inv_def empty_db_def)

theorem interleaving_invariant_witness:
  "db_good True (snd (MarkMissing (\<lambda>_. False) [] 0 (snd (UpsertAssets (\<lambda>_. False) [demo_record] 0 empty_db))))"
  using interleaving_invariant [OF rtranclp.rtrancl_into_rtrancl [OF step_chain [OF upserted] missed] empty_db_good]
  by (rule conjunct1)

end
