(* ===== verification/Health.thy ===== *)
theory Health
  imports Runner Go_Http
begin

text \<open>
  Package \<open>health\<close>: the liveness and the readiness endpoint. JSON encoding is a parameter; a nil function pointer is \<open>None\<close>.
\<close>

section \<open>Liveness\<close>

record Response =
  he_Status :: string
  he_Service :: string
  he_Version :: string
  he_Time :: instant
  he_Region :: string
  he_PublicBaseURL :: string
  he_ProviderID :: string
  he_PublicKey :: string
  he_ActiveAssetsCount :: "int option"
  he_Warning :: string
  he_CatalogEnabled :: bool
  he_CatalogLastError :: string
  he_MetricsEnabled :: bool
  he_JobsEnabled :: bool
  he_LastRescanAt :: "int option"
  he_LastAnnounceSweepAt :: "int option"
  he_DeferredAnnouncesCount :: int

record health_deps =
  hp_service :: string
  hp_version :: string
  hp_region :: string
  hp_publicBaseURL :: string
  hp_providerID :: string
  hp_publicKey :: string

definition unix_opt :: "instant \<Rightarrow> int option" where
  "unix_opt t = (if IsZero t then None else Some (Unix t))"

text \<open>The response: \<open>counter\<close>, \<open>catalogStatus\<close> and \<open>jobsStatus\<close> are what the three functions return.\<close>

definition health_response ::
  "health_deps \<Rightarrow> instant \<Rightarrow> (string, int) result option \<Rightarrow> (bool \<times> string) option \<Rightarrow> StatusSnapshot option \<Rightarrow> Response" where
  "health_response d now counter catalogStatus jobsStatus =
     (let resp = \<lparr>he_Status = ''ok'', he_Service = hp_service d, he_Version = hp_version d, he_Time = now, he_Region = hp_region d,
            he_PublicBaseURL = hp_publicBaseURL d, he_ProviderID = hp_providerID d, he_PublicKey = hp_publicKey d,
            he_ActiveAssetsCount = None, he_Warning = [], he_CatalogEnabled = False, he_CatalogLastError = [],
            he_MetricsEnabled = True, he_JobsEnabled = False, he_LastRescanAt = None, he_LastAnnounceSweepAt = None,
            he_DeferredAnnouncesCount = 0\<rparr>;
          resp1 = (case counter of
              None \<Rightarrow> resp
            | Some (Inl _) \<Rightarrow> resp\<lparr>he_Warning := ''active_assets_count_unavailable''\<rparr>
            | Some (Inr active) \<Rightarrow> resp\<lparr>he_ActiveAssetsCount := Some active\<rparr>);
          resp2 = (case catalogStatus of
              None \<Rightarrow> resp1
            | Some (enabled, lastError) \<Rightarrow> resp1\<lparr>he_CatalogEnabled := enabled, he_CatalogLastError := lastError\<rparr>)
      in case jobsStatus of
           None \<Rightarrow> resp2
         | Some snapshot \<Rightarrow>
             resp2\<lparr>he_JobsEnabled := sn_JobsEnabled snapshot, he_DeferredAnnouncesCount := sn_DeferredAnnouncesCount snapshot,
               he_LastRescanAt := unix_opt (sn_LastRescanAt snapshot),
               he_LastAnnounceSweepAt := unix_opt (sn_LastAnnounceSweepAt snapshot)\<rparr>)"

definition Health_Handler :: "(Response \<Rightarrow> string) \<Rightarrow> Response \<Rightarrow> 's http_handler" where
  "Health_Handler encode resp r w s =
     Returned (Write (WriteHeader (set_header w ''Content-Type'' ''application/json'') 200) (encode resp), s)"

section \<open>Readiness\<close>

record ReadinessResponse =
  re_Status :: string
  re_Reason :: string

text \<open>\<open>checker\<close> is the result of the check, an error text or nothing; \<open>None\<close> without a checker.\<close>

definition ReadyHandler :: "(ReadinessResponse \<Rightarrow> string) \<Rightarrow> (string, unit) result option \<Rightarrow> 's http_handler" where
  "ReadyHandler encode checker r w s =
     (let (resp, statusCode) =
        (case checker of
           Some (Inl reason) \<Rightarrow> (\<lparr>re_Status = ''not_ready'', re_Reason = reason\<rparr>, 503)
         | _ \<Rightarrow> (\<lparr>re_Status = ''ready'', re_Reason = []\<rparr>, 200))
      in Returned (Write (WriteHeader (set_header w ''Content-Type'' ''application/json'') statusCode) (encode resp), s))"

end
