(* ===== verification/Ip_Allowlist.thy ===== *)
theory Ip_Allowlist
  imports Config Assets_Request
begin

text \<open>
  Package \<open>internalapi\<close>, file \<open>ip_allowlist.go\<close>: the middleware in front of the internal endpoints. It reads the peer's
  address, or behind a trusted proxy the first address of \<open>X-Forwarded-For\<close>, and compares it with the configured blocks.
\<close>

record ipAllowlist =
  al_allowedCIDRs :: "IPNet list"
  al_trustProxyHeaders :: bool
  al_trustedProxyCIDRs :: "IPNet list"

text \<open>The parts of the list: blank ones are skipped, the first that does not parse fails the whole list.\<close>

fun cidr_parts :: "string list \<Rightarrow> (string, IPNet list) result" where
  "cidr_parts [] = Ok []"
| "cidr_parts (part # parts) =
     (let cidr = TrimSpace part
      in if cidr = [] then cidr_parts parts
         else case ParseCIDR cidr of
           None \<Rightarrow> Err (''invalid CIDR address: '' @ cidr)
         | Some ipnet \<Rightarrow> (case cidr_parts parts of Inl e \<Rightarrow> Err e | Inr out \<Rightarrow> Ok (ipnet # out)))"

definition parseCIDRList :: "string \<Rightarrow> (string, IPNet list) result" where
  "parseCIDRList value = (let trimmed = TrimSpace value in if trimmed = [] then Ok [] else cidr_parts (Split trimmed CHR '',''))"

definition parseRemoteIP :: "string \<Rightarrow> ip option" where
  "parseRemoteIP remoteAddr =
     (case SplitHostPort remoteAddr of None \<Rightarrow> ParseIP (TrimSpace remoteAddr) | Some (host, _) \<Rightarrow> ParseIP (TrimSpace host))"

definition ipInCIDRs :: "ip \<Rightarrow> IPNet list \<Rightarrow> bool" where
  "ipInCIDRs ip cidrs = list_ex (\<lambda>cidr. IPNet_Contains cidr ip) cidrs"

definition allowlist_clientIP :: "ipAllowlist \<Rightarrow> request \<Rightarrow> ip option" where
  "allowlist_clientIP a r =
     (case parseRemoteIP (req_remote r) of
        None \<Rightarrow> None
      | Some remote \<Rightarrow>
          if \<not> al_trustProxyHeaders a \<or> \<not> ipInCIDRs remote (al_trustedProxyCIDRs a) then Some remote
          else
            (let xff = Header_Get (req_header r) ''X-Forwarded-For''
             in if xff = [] then Some remote
                else
                  (let first = TrimSpace (hd (SplitN2 xff CHR '',''))
                   in if first = [] then Some remote
                      else case ParseIP first of None \<Rightarrow> Some remote | Some forwarded \<Rightarrow> Some forwarded)))"

definition newAllowlist :: "Config \<Rightarrow> ipAllowlist" where
  "newAllowlist cfg =
     (let nets = (\<lambda>v. case parseCIDRList v of Inl _ \<Rightarrow> [] | Inr ns \<Rightarrow> ns)
      in \<lparr>al_allowedCIDRs = nets (cf_InternalAllowedCIDRs cfg), al_trustProxyHeaders = cf_TrustProxyHeaders cfg,
          al_trustedProxyCIDRs = nets (cf_TrustedProxyCIDRs cfg)\<rparr>)"

definition api_writeJSONError :: "writer \<Rightarrow> int \<Rightarrow> string \<Rightarrow> writer" where
  "api_writeJSONError w status code =
     Write (WriteHeader (set_header w ''Content-Type'' ''application/json'') status) (json_error_body code)"

definition ipAllowlistMiddleware :: "Config \<Rightarrow> 's http_handler \<Rightarrow> 's http_handler" where
  "ipAllowlistMiddleware cfg next r w s =
     (let allowlist = newAllowlist cfg
      in case allowlist_clientIP allowlist r of
           None \<Rightarrow> Returned (api_writeJSONError w 403 ''forbidden'', s)
         | Some ip \<Rightarrow>
             if \<not> ipInCIDRs ip (al_allowedCIDRs allowlist) then Returned (api_writeJSONError w 403 ''forbidden'', s)
             else next r w s)"

section \<open>The configured blocks\<close>

definition entries :: "string \<Rightarrow> string list" where
  "entries v = splitCSV (TrimSpace v)"

text \<open>The block a list entry stands for: address and prefix length.\<close>

definition block :: "string \<Rightarrow> (addr \<times> nat) option" where
  "block e =
     (let a = takeWhile (\<lambda>c. c \<noteq> CHR ''/'') e; m = drop (Suc (length a)) e
      in case ParseAddr a of
           None \<Rightarrow> None
         | Some x \<Rightarrow>
             if CHR ''/'' \<in> set e \<and> m \<noteq> [] \<and> list_all is_digit m \<and> dec_val 0 m \<le> BitLen x then Some (x, dec_val 0 m) else None)"

lemma ParseCIDR_block: "ParseCIDR e = map_option (\<lambda>(a, n). cidr_net a n) (block e)"
  by (auto simp: ParseCIDR_def block_def Let_def split: option.split)

lemma block_valid: "block e = Some (a, n) \<Longrightarrow> valid_addr a \<and> n \<le> BitLen a"
  by (auto simp: block_def Let_def ParseAddr_valid split: option.splits if_splits)

lemma cidr_parts_those:
  "case those (map ParseCIDR (filter (\<lambda>p. p \<noteq> []) (map TrimSpace ps))) of
     Some ns \<Rightarrow> cidr_parts ps = Ok ns | None \<Rightarrow> \<exists>e. cidr_parts ps = Err e"
proof (induction ps)
  case (Cons p ps)
  then show ?case
    by (cases "TrimSpace p = []"; cases "ParseCIDR (TrimSpace p)";
        cases "those (map ParseCIDR (filter (\<lambda>p. p \<noteq> []) (map TrimSpace ps)))") (auto simp: Let_def)
qed simp

lemma those_Some_iff: "those (map f xs) = Some ys \<longleftrightarrow> list_all2 (\<lambda>x y. f x = Some y) xs ys"
  by (induction xs arbitrary: ys) (auto simp: list_all2_Cons1 split: option.splits)

lemma those_None_iff: "those (map f xs) = None \<longleftrightarrow> (\<exists>x \<in> set xs. f x = None)"
  by (induction xs) (auto split: option.splits)

lemma parseCIDRList_entries:
  "(case parseCIDRList v of Inl _ \<Rightarrow> [] | Inr ns \<Rightarrow> ns) =
     (case those (map ParseCIDR (entries v)) of None \<Rightarrow> [] | Some ns \<Rightarrow> ns)"
proof (cases "TrimSpace v = []")
  case True
  then show ?thesis by (simp add: parseCIDRList_def entries_def splitCSV_def)
next
  case False
  let ?ps = "Split (TrimSpace v) CHR '',''"
  have "parseCIDRList v = cidr_parts ?ps" using False by (simp add: parseCIDRList_def Let_def)
  then show ?thesis
    using cidr_parts_those [of ?ps]
    by (cases "those (map ParseCIDR (entries v))") (auto simp: entries_def splitCSV_def)
qed

text \<open>The reference: all entries are blocks, and the address lies in one of them.\<close>

definition within_blocks :: "string list \<Rightarrow> ip \<Rightarrow> bool" where
  "within_blocks es ip \<longleftrightarrow> list_all (\<lambda>e. block e \<noteq> None) es \<and>
     list_ex (\<lambda>e. case block e of None \<Rightarrow> False | Some (a, n) \<Rightarrow> in_block a n ip) es"

lemma in_configured:
  assumes "length ip = 16"
  shows "ipInCIDRs ip (case parseCIDRList v of Inl _ \<Rightarrow> [] | Inr ns \<Rightarrow> ns) \<longleftrightarrow> within_blocks (entries v) ip"
proof (cases "those (map ParseCIDR (entries v))")
  case None
  then obtain e where "e \<in> set (entries v)" "block e = None" by (auto simp: those_None_iff ParseCIDR_block)
  then have "\<not> within_blocks (entries v) ip" unfolding within_blocks_def list_all_iff by blast
  then show ?thesis by (simp add: parseCIDRList_entries None ipInCIDRs_def)
next
  case (Some ns)
  have all: "list_all (\<lambda>e. block e \<noteq> None) (entries v)"
    using Some those_None_iff [of ParseCIDR "entries v"] by (auto simp: ParseCIDR_block list_all_iff)
  have one: "ParseCIDR e = Some net \<Longrightarrow> IPNet_Contains net ip \<longleftrightarrow> (case block e of None \<Rightarrow> False | Some (a, n) \<Rightarrow> in_block a n ip)"
    for e net using block_valid [of e] IPNet_Contains_in_block [OF _ _ assms] by (auto simp: ParseCIDR_block)
  from Some have "list_ex (\<lambda>net. IPNet_Contains net ip) ns \<longleftrightarrow>
      list_ex (\<lambda>e. case block e of None \<Rightarrow> False | Some (a, n) \<Rightarrow> in_block a n ip) (entries v)"
    unfolding those_Some_iff by (induction rule: list_all2_induct) (simp_all add: one)
  then show ?thesis using all by (simp add: parseCIDRList_entries Some ipInCIDRs_def within_blocks_def)
qed

lemma parseRemoteIP_length: "parseRemoteIP s = Some ip \<Longrightarrow> length ip = 16"
  by (auto simp: parseRemoteIP_def split: option.splits dest: ParseIP_length)

section \<open>Properties\<close>

text \<open>C10. For a peer that is not a trusted proxy, the internal endpoint is reached exactly when every configured entry is a valid block and
  the peer's own address agrees with one of them on all bits of its prefix; request headers have no influence. In
  every other case the answer is 403 and nothing else happens; an unparsable list lets nobody in.\<close>

theorem allowlist_exact:
  assumes "parseRemoteIP (req_remote r) = Some ip"
    and "\<not> cf_TrustProxyHeaders cfg \<or> \<not> ipInCIDRs ip (al_trustedProxyCIDRs (newAllowlist cfg))"
  shows "ipAllowlistMiddleware cfg next r w s =
    (if within_blocks (entries (cf_InternalAllowedCIDRs cfg)) ip then next r w s else Returned (api_writeJSONError w 403 ''forbidden'', s))"
proof -
  have "allowlist_clientIP (newAllowlist cfg) r = Some ip"
    using assms by (auto simp: allowlist_clientIP_def newAllowlist_def)
  moreover have "al_allowedCIDRs (newAllowlist cfg) =
      (case parseCIDRList (cf_InternalAllowedCIDRs cfg) of Inl _ \<Rightarrow> [] | Inr ns \<Rightarrow> ns)" by (simp add: newAllowlist_def)
  ultimately show ?thesis
    using in_configured [OF parseRemoteIP_length [OF assms(1)], of "cf_InternalAllowedCIDRs cfg"]
    by (simp add: ipAllowlistMiddleware_def)
qed

text \<open>Behind a trusted proxy the first element of \<open>X-Forwarded-For\<close> decides alone: a client that puts an allowed address in front
  is admitted, whatever addresses the proxies append behind it.\<close>

theorem forwarded_first_wins:
  assumes "parseRemoteIP (req_remote r) = Some proxy" "cf_TrustProxyHeaders cfg"
    and "ipInCIDRs proxy (al_trustedProxyCIDRs (newAllowlist cfg))"
    and "Header_Get (req_header r) ''X-Forwarded-For'' = claimed @ CHR '','' # appended"
    and "CHR '','' \<notin> set claimed" "ParseIP (TrimSpace claimed) = Some ip" "ipInCIDRs ip (al_allowedCIDRs (newAllowlist cfg))"
  shows "ipAllowlistMiddleware cfg next r w s = next r w s"
proof -
  have ne: "TrimSpace claimed \<noteq> []" using assms(6) by (auto simp: ParseIP_def ParseAddr_def)
  have "hd (SplitN2 (claimed @ CHR '','' # appended) CHR '','') = claimed" using assms(5) by (simp add: SplitN2_cut)
  then have "allowlist_clientIP (newAllowlist cfg) r = Some ip"
    using assms(1-4,6) ne by (simp add: allowlist_clientIP_def Let_def newAllowlist_def)
  then show ?thesis using assms(7) by (simp add: ipAllowlistMiddleware_def)
qed

section \<open>Witnesses\<close>

definition demo_internal_cfg :: "bool \<Rightarrow> Config" where
  "demo_internal_cfg trust = (Load Map.empty)\<lparr>cf_InternalAllowedCIDRs := ''10.0.0.0/8'', cf_TrustProxyHeaders := trust,
     cf_TrustedProxyCIDRs := ''127.0.0.1/32''\<rparr>"

definition demo_post :: "string \<Rightarrow> header \<Rightarrow> request" where
  "demo_post remote h = \<lparr>req_method = ''POST'', req_path = ''/internal/rescan'', req_rawquery = [], req_header = h,
     req_remote = remote, req_tls = False, req_ctx_done = False\<rparr>"

definition spoofed :: header where
  "spoofed = [''X-Forwarded-For'' \<mapsto> [''10.1.1.1, 203.0.113.9'']]"

lemma demo_ips:
  "ParseIP ''203.0.113.9'' = Some [0, 0, 0, 0, 0, 0, 0, 0, 0, 0, 0xff, 0xff, 203, 0, 113, 9]"
  "ParseIP ''127.0.0.1'' = Some [0, 0, 0, 0, 0, 0, 0, 0, 0, 0, 0xff, 0xff, 127, 0, 0, 1]"
  "ParseIP ''10.1.1.1'' = Some [0, 0, 0, 0, 0, 0, 0, 0, 0, 0, 0xff, 0xff, 10, 1, 1, 1]"
  by code_simp+

lemma demo_hosts: "SplitHostPort ''203.0.113.9:1'' = Some (''203.0.113.9'', ''1'')" "SplitHostPort ''127.0.0.1:9'' = Some (''127.0.0.1'', ''9'')"
  by code_simp+

lemma demo_peers:
  "parseRemoteIP ''203.0.113.9:1'' = Some [0, 0, 0, 0, 0, 0, 0, 0, 0, 0, 0xff, 0xff, 203, 0, 113, 9]"
  "parseRemoteIP ''127.0.0.1:9'' = Some [0, 0, 0, 0, 0, 0, 0, 0, 0, 0, 0xff, 0xff, 127, 0, 0, 1]"
  by (simp_all add: parseRemoteIP_def demo_hosts TrimSpace_all_graphic graphic_def demo_ips)

lemma demo_remote: "req_remote (demo_post remote h) = remote" "req_header (demo_post remote h) = h"
  by (simp_all add: demo_post_def)

lemma demo_cfg:
  "cf_TrustProxyHeaders (demo_internal_cfg t) = t" "cf_InternalAllowedCIDRs (demo_internal_cfg t) = ''10.0.0.0/8''"
  "cf_TrustedProxyCIDRs (demo_internal_cfg t) = ''127.0.0.1/32''"
  by (simp_all add: demo_internal_cfg_def)

lemma demo_entries: "entries ''10.0.0.0/8'' = [''10.0.0.0/8'']" "entries ''127.0.0.1/32'' = [''127.0.0.1/32'']"
  by (simp_all add: entries_def splitCSV_def TrimSpace_all_graphic graphic_def)

lemma demo_block: "block ''10.0.0.0/8'' = Some (Addr4 [10, 0, 0, 0], 8)" "block ''127.0.0.1/32'' = Some (Addr4 [127, 0, 0, 1], 32)"
  by code_simp+

lemma demo_blocks:
  "\<not> within_blocks (entries ''10.0.0.0/8'') [0, 0, 0, 0, 0, 0, 0, 0, 0, 0, 0xff, 0xff, 203, 0, 113, 9]"
  "within_blocks (entries ''10.0.0.0/8'') [0, 0, 0, 0, 0, 0, 0, 0, 0, 0, 0xff, 0xff, 10, 1, 1, 1]"
  "within_blocks (entries ''127.0.0.1/32'') [0, 0, 0, 0, 0, 0, 0, 0, 0, 0, 0xff, 0xff, 127, 0, 0, 1]"
  unfolding demo_entries
  by (simp_all add: within_blocks_def demo_block in_block_def As16_def v4InV6Prefix_def byte_bits_def numeral_eq_Suc)

theorem allowlist_exact_witness:
  "ipAllowlistMiddleware (demo_internal_cfg False) (\<lambda>r w s. Returned (w, True)) (demo_post ''203.0.113.9:1'' spoofed) fresh_writer False =
   Returned (api_writeJSONError fresh_writer 403 ''forbidden'', False)"
proof -
  have p: "parseRemoteIP (req_remote (demo_post ''203.0.113.9:1'' spoofed)) = Some [0, 0, 0, 0, 0, 0, 0, 0, 0, 0, 0xff, 0xff, 203, 0, 113, 9]"
    unfolding demo_remote by (rule demo_peers(1))
  show ?thesis by (rule trans [OF allowlist_exact [OF p]]) (simp_all add: demo_cfg demo_blocks(1))
qed

lemma demo_forwarded:
  "ParseIP (TrimSpace ''10.1.1.1'') = Some [0, 0, 0, 0, 0, 0, 0, 0, 0, 0, 0xff, 0xff, 10, 1, 1, 1]"
  "CanonicalHeaderKey ''X-Forwarded-For'' = ''X-Forwarded-For''"
  by (simp add: TrimSpace_all_graphic graphic_def demo_ips) code_simp

theorem forwarded_first_wins_witness:
  "ipAllowlistMiddleware (demo_internal_cfg True) (\<lambda>r w s. Returned (w, True)) (demo_post ''127.0.0.1:9'' spoofed) fresh_writer False =
   Returned (fresh_writer, True)"
proof -
  have p: "parseRemoteIP (req_remote (demo_post ''127.0.0.1:9'' spoofed)) = Some [0, 0, 0, 0, 0, 0, 0, 0, 0, 0, 0xff, 0xff, 127, 0, 0, 1]"
    unfolding demo_remote by (rule demo_peers(2))
  have trusted: "ipInCIDRs [0, 0, 0, 0, 0, 0, 0, 0, 0, 0, 0xff, 0xff, 127, 0, 0, 1] (al_trustedProxyCIDRs (newAllowlist (demo_internal_cfg True)))"
    using in_configured [of "[0, 0, 0, 0, 0, 0, 0, 0, 0, 0, 0xff, 0xff, 127, 0, 0, 1]" "''127.0.0.1/32''"] demo_blocks(3)
    by (simp add: newAllowlist_def Let_def demo_cfg)
  have allowed: "ipInCIDRs [0, 0, 0, 0, 0, 0, 0, 0, 0, 0, 0xff, 0xff, 10, 1, 1, 1] (al_allowedCIDRs (newAllowlist (demo_internal_cfg True)))"
    using in_configured [of "[0, 0, 0, 0, 0, 0, 0, 0, 0, 0, 0xff, 0xff, 10, 1, 1, 1]" "''10.0.0.0/8''"] demo_blocks(2)
    by (simp add: newAllowlist_def Let_def demo_cfg)
  have x: "Header_Get (req_header (demo_post ''127.0.0.1:9'' spoofed)) ''X-Forwarded-For'' = ''10.1.1.1'' @ CHR '','' # '' 203.0.113.9''"
    by (simp add: demo_remote Header_Get_def spoofed_def demo_forwarded(2))
  show ?thesis
    by (rule forwarded_first_wins [OF p _ trusted x _ demo_forwarded(1) allowed]) (simp_all add: demo_cfg)
qed

end
