(* ===== verification/Internal_Api.thy ===== *)
theory Internal_Api
  imports Runner Ip_Allowlist
begin

text \<open>
  Package \<open>internalapi\<close>, files \<open>rescan_handler.go\<close> and \<open>announce_handler.go\<close>. The handlers share database, metrics and the
  catalog health state with the rest of the program. What JSON decoding makes of the request body is an argument.
\<close>

record api_state =
  ap_db :: database
  ap_metrics :: metrics
  ap_health :: "HealthState option"

section \<open>Rescan\<close>

record RescanResponse =
  rp_ScannedAssets :: int
  rp_ActiveAssets :: int
  rp_MissingAssets :: int
  rp_DurationMS :: int

definition RunRescan ::
  "scan_env \<Rightarrow> string \<Rightarrow> instant \<Rightarrow> rescan_faults \<Rightarrow> database \<Rightarrow> metrics \<Rightarrow> (string, RescanResponse) result \<times> database \<times> metrics" where
  "RunRescan env assetsRoot now rf db m =
     (case Scan env assetsRoot m of
        (Inl _, m') \<Rightarrow> (Err ''scan'', db, m')
      | (Inr result, m') \<Rightarrow>
          (let records = map (\<lambda>a.
                 \<lparr>rc_AssetID = as_AssetID a, rc_MasterPlaylistPath = as_MasterPlaylistPath a, rc_ContentHash = as_ContentHash a,
                  rc_FileCount = as_FileCount a, rc_TotalSizeBytes = as_TotalSizeBytes a, rc_LastScannedAt = as_LastScannedAt a\<rparr>)
                 (sr_Assets result);
               seenIDs = map as_AssetID (sr_Assets result)
           in case UpsertAssets (rf_upsert rf) records now db of
                (Inl e, db1) \<Rightarrow> (Err e, db1, m')
              | (Inr _, db1) \<Rightarrow>
                  (case MarkMissing (rf_missing rf) seenIDs now db1 of
                     (Inl e, db2) \<Rightarrow> (Err e, db2, m')
                   | (Inr missing, db2) \<Rightarrow>
                       (case CountActive (rf_count rf) db2 of
                          Inl e \<Rightarrow> (Err e, db2, m')
                        | Inr active \<Rightarrow>
                            (Ok \<lparr>rp_ScannedAssets = sr_ScannedAssets result, rp_ActiveAssets = active,
                                 rp_MissingAssets = missing, rp_DurationMS = quot (sr_Duration result) 1000000\<rparr>, db2, m')))))"

text \<open>\<open>json.NewEncoder(w).Encode\<close> on a struct of numbers: the fields in order, then a newline.\<close>

definition json_ints :: "(string \<times> int) list \<Rightarrow> string" where
  "json_ints fs = ''{'' @ join_with '','' (map (\<lambda>(k, v). ''\"'' @ k @ ''\":'' @ FormatInt v) fs) @ ''}'' @ [CHR 0x0A]"

definition write_json :: "writer \<Rightarrow> string \<Rightarrow> writer" where
  "write_json w body = Write (WriteHeader (set_header w ''Content-Type'' ''application/json'') 200) body"

definition rescanHandler :: "scan_env \<Rightarrow> string \<Rightarrow> instant \<Rightarrow> rescan_faults \<Rightarrow> api_state http_handler" where
  "rescanHandler env assetsRoot now rf r w s =
     (if req_method r \<noteq> ''POST'' then Returned (api_writeJSONError w 405 ''method_not_allowed'', s)
      else case RunRescan env assetsRoot now rf (ap_db s) (ap_metrics s) of
        (Inl _, db, m) \<Rightarrow> Returned (api_writeJSONError w 500 ''rescan_failed'', s\<lparr>ap_db := db, ap_metrics := m\<rparr>)
      | (Inr resp, db, m) \<Rightarrow>
          Returned (write_json w (json_ints
            [(''scanned_assets'', rp_ScannedAssets resp), (''active_assets'', rp_ActiveAssets resp),
             (''missing_assets'', rp_MissingAssets resp), (''duration_ms'', rp_DurationMS resp)]),
            s\<lparr>ap_db := db, ap_metrics := m\<rparr>))"

section \<open>Announce\<close>

datatype announce_body = NoBody | BodyEOF | BodyInvalid | BodyDecoded string

record announceSummary =
  su_Attempted :: int
  su_OK :: int
  su_Rejected :: int
  su_Failed :: int

record announce_env =
  ae_list :: faults
  ae_put :: "string \<Rightarrow> bool"
  ae_fk :: bool
  ae_lib :: "string \<Rightarrow> sign_lib"
  ae_client :: "(Identity \<Rightarrow> AnnounceRequest \<Rightarrow> metrics \<Rightarrow> (catalog_error, AnnounceResponse) result \<times> metrics) option"

definition sink :: "catalog_error option \<Rightarrow> api_state \<Rightarrow> api_state" where
  "sink err s = s\<lparr>ap_health := map_option (HealthState_Set err) (ap_health s)\<rparr>"

definition put_status :: "announce_env \<Rightarrow> string \<Rightarrow> instant \<Rightarrow> instant \<Rightarrow> string \<Rightarrow> instant \<Rightarrow> api_state \<Rightarrow> api_state" where
  "put_status env a la ex st now s =
     s\<lparr>ap_db := snd (UpsertAnnouncementStatus (ae_fk env) (ae_put env a) a la ex st now (ap_db s))\<rparr>"

text \<open>One round of the loop over the asset ids.\<close>

definition announce_asset ::
  "announce_env \<Rightarrow> (Identity \<Rightarrow> AnnounceRequest \<Rightarrow> metrics \<Rightarrow> (catalog_error, AnnounceResponse) result \<times> metrics) \<Rightarrow>
   Identity \<Rightarrow> Config \<Rightarrow> instant \<Rightarrow> string \<Rightarrow> announceSummary \<times> api_state \<Rightarrow> announceSummary \<times> api_state" where
  "announce_asset env client i cfg now a p =
     (case p of (summary, s) \<Rightarrow>
        (case BuildAnnouncement (ae_lib env a) i cfg a now of
           Inl err \<Rightarrow>
             (summary\<lparr>su_Failed := su_Failed summary + 1\<rparr>, sink (Some err) (put_status env a zero_time zero_time ''failed'' now s))
         | Inr req \<Rightarrow>
             (case client i req (ap_metrics s) of
                (res, m) \<Rightarrow>
                  (let s1 = s\<lparr>ap_metrics := m\<rparr>; expiresAt = from_Unix (ar_ExpiresAt req)
                   in case res of
                        Inr _ \<Rightarrow> (summary\<lparr>su_OK := su_OK summary + 1\<rparr>, sink None (put_status env a now expiresAt ''ok'' now s1))
                      | Inl err \<Rightarrow>
                          if err = ErrNotFound
                          then (summary\<lparr>su_Rejected := su_Rejected summary + 1\<rparr>,
                                sink (Some err) (put_status env a now expiresAt ''rejected'' now s1))
                          else (summary\<lparr>su_Failed := su_Failed summary + 1\<rparr>,
                                sink (Some err) (put_status env a now expiresAt ''failed'' now s1))))))"

definition announce_ids :: "announce_env \<Rightarrow> announce_body \<Rightarrow> database \<Rightarrow> (int \<times> string, string list) result" where
  "announce_ids env body db =
     (let assetID = (case body of BodyDecoded a \<Rightarrow> a | _ \<Rightarrow> [])
      in if body = BodyInvalid then Err (400, ''invalid_json'')
         else if TrimSpace assetID \<noteq> [] then Ok [TrimSpace assetID]
         else case ListActiveAssetIDs (ae_list env) db of
           Inl _ \<Rightarrow> Err (500, ''db_active_assets_failed'')
         | Inr ids \<Rightarrow> Ok ids)"

definition announceHandler ::
  "announce_env \<Rightarrow> announce_body \<Rightarrow> instant \<Rightarrow> Identity \<Rightarrow> Config \<Rightarrow> api_state http_handler" where
  "announceHandler env body now i cfg r w s =
     (if req_method r \<noteq> ''POST'' then Returned (api_writeJSONError w 405 ''method_not_allowed'', s)
      else if TrimSpace (cf_PublicBaseURL cfg) = [] then Returned (api_writeJSONError w 400 ''public_base_url_required'', s)
      else case ae_client env of
        None \<Rightarrow> Returned (api_writeJSONError w 503 ''catalog_not_configured'', s)
      | Some client \<Rightarrow>
          (case announce_ids env body (ap_db s) of
             Inl (status, code) \<Rightarrow> Returned (api_writeJSONError w status code, s)
           | Inr assetIDs \<Rightarrow>
               (case fold (announce_asset env client i cfg now) assetIDs
                       (\<lparr>su_Attempted = int (length assetIDs), su_OK = 0, su_Rejected = 0, su_Failed = 0\<rparr>, s) of
                  (summary, s') \<Rightarrow>
                    Returned (write_json w (json_ints
                      [(''attempted'', su_Attempted summary), (''ok'', su_OK summary), (''rejected'', su_Rejected summary),
                       (''failed'', su_Failed summary)]), s'))))"

section \<open>Lemmas\<close>

lemma RunRescan_job:
  "RunRescan env root now rf db m =
     (case RunRescanJob env root now rf db m of
        (Inl e, rest) \<Rightarrow> (Err e, rest)
      | (Inr j, rest) \<Rightarrow>
          (Ok \<lparr>rp_ScannedAssets = rr_ScannedAssets j, rp_ActiveAssets = rr_ActiveAssets j, rp_MissingAssets = rr_MissingAssets j,
               rp_DurationMS = quot (case fst (Scan env root m) of Inl _ \<Rightarrow> 0 | Inr sc \<Rightarrow> sr_Duration sc) 1000000\<rparr>, rest))"
  by (auto simp: RunRescan_def RunRescanJob_def record_of_def [abs_def] Let_def split: prod.split sum.split)

definition summary_inv :: "int \<Rightarrow> announceSummary \<Rightarrow> bool" where
  "summary_inv n s \<longleftrightarrow> su_OK s + su_Rejected s + su_Failed s = n \<and> 0 \<le> su_OK s \<and> 0 \<le> su_Rejected s \<and> 0 \<le> su_Failed s"

lemma announce_asset_inv: "summary_inv n (fst p) \<Longrightarrow> summary_inv (n + 1) (fst (announce_asset env client i cfg now a p))"
  by (auto simp: announce_asset_def summary_inv_def Let_def split: prod.split sum.split)

lemma announce_asset_attempted [simp]: "su_Attempted (fst (announce_asset env client i cfg now a p)) = su_Attempted (fst p)"
  by (auto simp: announce_asset_def Let_def split: prod.split sum.split)

lemma announce_fold_inv:
  "summary_inv n (fst p) \<Longrightarrow> summary_inv (n + int (length ids)) (fst (fold (announce_asset env client i cfg now) ids p)) \<and>
   su_Attempted (fst (fold (announce_asset env client i cfg now) ids p)) = su_Attempted (fst p)"
proof (induction ids arbitrary: n p)
  case (Cons a ids)
  show ?case using Cons.IH [OF announce_asset_inv [OF Cons.prems]] by (simp add: add.assoc)
qed simp

lemma announce_asset_steps:
  "(db_step (ae_fk env))\<^sup>*\<^sup>* (ap_db (snd p)) (ap_db (snd (announce_asset env client i cfg now a p)))"
  by (auto simp: announce_asset_def put_status_def sink_def Let_def split: prod.split sum.split intro!: step_chain announced)

lemma announce_fold_steps:
  "(db_step (ae_fk env))\<^sup>*\<^sup>* (ap_db (snd p)) (ap_db (snd (fold (announce_asset env client i cfg now) ids p)))"
proof (induction ids arbitrary: p)
  case (Cons a ids)
  show ?case using rtranclp_trans [OF announce_asset_steps Cons.IH] by simp
qed simp

lemma announceHandler_steps:
  "(db_step (ae_fk env))\<^sup>*\<^sup>* (ap_db s) (ap_db (snd (state_of (announceHandler env body now i cfg r w s))))"
  using announce_fold_steps [of env "(\<lparr>su_Attempted = n, su_OK = 0, su_Rejected = 0, su_Failed = 0\<rparr>, s)" for n]
  by (auto simp: announceHandler_def split: option.split sum.split prod.split) (metis snd_conv)

lemma rescanHandler_steps:
  "(db_step fk)\<^sup>*\<^sup>* (ap_db s) (ap_db (snd (state_of (rescanHandler env root now rf r w s))))"
  using rescan_steps [of fk "ap_db s" env root now rf "ap_metrics s"]
  by (auto simp: rescanHandler_def RunRescan_job split: prod.split sum.split)

section \<open>Properties\<close>

text \<open>The rescan of the internal API and the periodic one, which are written twice, do the same: with the same clock they fail on the same
  inputs with the same error, leave the same database and metrics, and report the same numbers.\<close>

theorem rescan_twins:
  "case (RunRescan env root now rf db m, RunRescanJob env root now rf db m) of
     ((Inl e, rest), (Inl e', rest')) \<Rightarrow> e = e' \<and> rest = rest'
   | ((Inr p, rest), (Inr j, rest')) \<Rightarrow>
       rp_ScannedAssets p = rr_ScannedAssets j \<and> rp_ActiveAssets p = rr_ActiveAssets j \<and>
       rp_MissingAssets p = rr_MissingAssets j \<and> rest = rest'
   | _ \<Rightarrow> False"
  unfolding RunRescan_job by (auto split: prod.split sum.split)

text \<open>The announce endpoint accounts for every asset it was asked to announce: the number attempted is the number of assets, and each
  one is counted once as accepted, rejected or failed. It changes the database only through status updates and never
  deletes or adds an asset.\<close>

theorem announce_accounts:
  assumes "req_method r = ''POST''" "TrimSpace (cf_PublicBaseURL cfg) \<noteq> []" "ae_client env = Some client"
    and "announce_ids env body (ap_db s) = Ok ids" "db_good (ae_fk env) (ap_db s)"
  shows "\<exists>okn rejected failed s'. okn + rejected + failed = int (length ids) \<and> 0 \<le> okn \<and> 0 \<le> rejected \<and> 0 \<le> failed \<and>
    announceHandler env body now i cfg r w s =
      Returned (write_json w (json_ints [(''attempted'', int (length ids)), (''ok'', okn), (''rejected'', rejected), (''failed'', failed)]), s') \<and>
    db_good (ae_fk env) (ap_db s') \<and> tb_assets (ap_db s') = tb_assets (ap_db s)"
proof -
  let ?p = "(\<lparr>su_Attempted = int (length ids), su_OK = 0, su_Rejected = 0, su_Failed = 0\<rparr>, s)"
  obtain sm s' where run: "fold (announce_asset env client i cfg now) ids ?p = (sm, s')" by fastforce
  have inv: "summary_inv (int (length ids)) sm" "su_Attempted sm = int (length ids)"
    using announce_fold_inv [of 0 ?p ids env client i cfg now] run by (simp_all add: summary_inv_def)
  have good: "db_good (ae_fk env) (ap_db s')"
    using db_steps_good [OF announce_fold_steps [of env ?p client i cfg now ids]] run assms(5) by simp
  have assets: "tb_assets (ap_db (snd (fold (announce_asset env client i cfg now) ids p))) = tb_assets (ap_db (snd p))" for p
    by (induction ids arbitrary: p)
      (auto simp: announce_asset_def put_status_def sink_def Let_def split: prod.split sum.split)
  show ?thesis
    using assms(1-4) run inv good assets [of ?p]
    by (intro exI [of _ "su_OK sm"] exI [of _ "su_Rejected sm"] exI [of _ "su_Failed sm"] exI [of _ s'])
      (simp add: announceHandler_def summary_inv_def)
qed

section \<open>Witnesses\<close>

definition demo_announce_env :: announce_env where
  "demo_announce_env = \<lparr>ae_list = (\<lambda>_. False), ae_put = (\<lambda>_. False), ae_fk = True,
     ae_lib = (\<lambda>_. \<lparr>sl_nonce = (\<lambda>_. Ok ''n''), sl_sha256 = id, sl_schnorr = (\<lambda>_ _. Ok ''s'')\<rparr>),
     ae_client = Some (\<lambda>i req m. (Err ErrNotFound, m))\<rparr>"

definition demo_api :: api_state where
  "demo_api = \<lparr>ap_db = demo_db, ap_metrics = None, ap_health = None\<rparr>"

theorem announce_accounts_witness:
  "\<exists>okn rejected failed s'. okn + rejected + failed = 1 \<and> 0 \<le> okn \<and> 0 \<le> rejected \<and> 0 \<le> failed \<and>
    announceHandler demo_announce_env NoBody 0 demo_identity ((Load demo_os)\<lparr>cf_PublicBaseURL := ''u''\<rparr>)
      (demo_post ''127.0.0.1:9'' Map.empty) fresh_writer demo_api =
      Returned (write_json fresh_writer (json_ints [(''attempted'', 1), (''ok'', okn), (''rejected'', rejected), (''failed'', failed)]), s') \<and>
    db_good True (ap_db s') \<and> tb_assets (ap_db s') = tb_assets demo_db"
proof -
  have ids: "announce_ids demo_announce_env NoBody (ap_db demo_api) = Ok [''a1'']"
    using demo_db_facts(2)
    by (simp add: announce_ids_def demo_announce_env_def ListActiveAssetIDs_def demo_api_def active_ids_def)
  have good: "db_good (ae_fk demo_announce_env) (ap_db demo_api)"
    using demo_db_facts(1) by (simp add: db_good_def demo_api_def demo_db_def empty_db_def)
  have u: "TrimSpace (cf_PublicBaseURL ((Load demo_os)\<lparr>cf_PublicBaseURL := ''u''\<rparr>)) \<noteq> []"
    by (simp add: TrimSpace_all_graphic graphic_def)
  have p: "req_method (demo_post ''127.0.0.1:9'' Map.empty) = ''POST''" by (simp add: demo_post_def)
  have c: "ae_client demo_announce_env = Some (\<lambda>i req m. (Err ErrNotFound, m))" by (simp add: demo_announce_env_def)
  show ?thesis
    using announce_accounts [OF p u c ids good, of 0 demo_identity fresh_writer] by (simp add: demo_announce_env_def demo_api_def)
qed

end
