(* ===== verification/Origin_Auth.thy ===== *)
theory Origin_Auth
  imports Go_Net Go_Time
begin

text \<open>
  Package \<open>originauth\<close>: the HMAC signature on requests to the origin. The keyed hash (\<open>crypto/hmac\<close>
  over SHA-256) and the random source are parameters: the hash is a function of the secret and the
  message, a nonce request answers with bytes or an error. An error text stands for the Go error without its
  formatted arguments.
\<close>

type_synonym nonce_source = "int \<Rightarrow> (string, string) result"
type_synonym keyed_hash = "string \<Rightarrow> string \<Rightarrow> string"

text \<open>\<open>cryptoNonceSource.Bytes\<close> over what \<open>io.ReadFull(rand.Reader, buf)\<close> delivers.\<close>

definition cryptoNonceSource_Bytes :: "(nat \<Rightarrow> (string, string) result) \<Rightarrow> nonce_source" where
  "cryptoNonceSource_Bytes readFull n =
     (if n \<le> 0 then Err ''invalid nonce size'' else readFull (nat n))"

record HMACSigner =
  hs_keyID :: string
  hs_secret :: string
  hs_providerID :: string
  hs_includeQuery :: bool
  hs_nonceSource :: nonce_source

definition NewHMACSignerWithNonceSource ::
  "string \<Rightarrow> string \<Rightarrow> string \<Rightarrow> bool \<Rightarrow> nonce_source option \<Rightarrow> nonce_source \<Rightarrow> HMACSigner" where
  "NewHMACSignerWithNonceSource keyID secret providerID includeQuery nonceSource cryptoSource =
     \<lparr>hs_keyID = (if TrimSpace keyID = [] then ''v1'' else keyID),
      hs_secret = secret, hs_providerID = providerID, hs_includeQuery = includeQuery,
      hs_nonceSource = (case nonceSource of None \<Rightarrow> cryptoSource | Some ns \<Rightarrow> ns)\<rparr>"

definition NewHMACSigner :: "string \<Rightarrow> string \<Rightarrow> string \<Rightarrow> bool \<Rightarrow> nonce_source \<Rightarrow> HMACSigner" where
  "NewHMACSigner keyID secret providerID includeQuery cryptoSource =
     NewHMACSignerWithNonceSource keyID secret providerID includeQuery (Some cryptoSource) cryptoSource"

definition pathWithQuery :: "HMACSigner \<Rightarrow> outreq \<Rightarrow> string" where
  "pathWithQuery s req =
     (let esc = EscapedPath (out_path req) (out_rawpath req);
          base = (if esc = [] then ''/'' else esc)
      in if hs_includeQuery s \<and> out_rawquery req \<noteq> [] then base @ ''?'' @ out_rawquery req else base)"

definition canonical :: "HMACSigner \<Rightarrow> outreq \<Rightarrow> int \<Rightarrow> string \<Rightarrow> string" where
  "canonical s req now nonceBytes =
     out_method req @ CHR 0x0A # pathWithQuery s req @ CHR 0x0A # FormatInt (Unix now) @
     CHR 0x0A # hex_EncodeToString nonceBytes @ CHR 0x0A # hs_providerID s"

definition signWithNonce :: "keyed_hash \<Rightarrow> HMACSigner \<Rightarrow> outreq \<Rightarrow> int \<Rightarrow> string \<Rightarrow> (string, outreq) result" where
  "signWithNonce hmac s req now nonceBytes =
     (if out_method req \<noteq> ''GET'' \<and> out_method req \<noteq> ''HEAD'' then Err ''unsupported method''
      else if length nonceBytes \<noteq> 16 then Err ''nonce must be 16 bytes''
      else let ts = FormatInt (Unix now);
               nonce = hex_EncodeToString nonceBytes;
               signature = hex_EncodeToString (hmac (hs_secret s) (canonical s req now nonceBytes));
               h0 = out_header req;
               h1 = Header_Set h0 ''X-AudistroProvider-KeyId'' (hs_keyID s);
               h2 = Header_Set h1 ''X-AudistroProvider-Timestamp'' ts;
               h3 = Header_Set h2 ''X-AudistroProvider-Nonce'' nonce;
               h4 = Header_Set h3 ''X-AudistroProvider-Signature'' signature;
               h5 = Header_Set h4 ''X-AudistroProvider-ProviderId'' (hs_providerID s)
           in Ok (req\<lparr>out_header := h5\<rparr>))"

definition Sign :: "keyed_hash \<Rightarrow> HMACSigner \<Rightarrow> outreq option \<Rightarrow> int \<Rightarrow> (string, outreq) result" where
  "Sign hmac s req now =
     (case req of
        None \<Rightarrow> Err ''request is nil''
      | Some r \<Rightarrow>
          (case hs_nonceSource s 16 of
             Inl e \<Rightarrow> Err (''generate nonce: '' @ e)
           | Inr nonceBytes \<Rightarrow> signWithNonce hmac s r now nonceBytes))"

section \<open>The contract of an origin signer\<close>

text \<open>
  What the transport relies on (interface \<open>assets.OriginSigner\<close>): signing touches nothing of the
  request but the provider's own headers.
\<close>

locale origin_signer =
  fixes sign :: "outreq \<Rightarrow> int \<Rightarrow> (string, outreq) result"
  assumes sign_only_headers: "sign r now = Ok r' \<Longrightarrow> \<exists>h. r' = r\<lparr>out_header := h\<rparr>"
    and sign_keeps_headers: "sign r now = Ok r' \<Longrightarrow> \<not> HasPrefix k ''X-Audistroprovider-'' \<Longrightarrow>
          out_header r' k = out_header r k"
begin

lemma signed_url: "sign r now = Ok r' \<Longrightarrow>
    out_method r' = out_method r \<and> out_scheme r' = out_scheme r \<and> out_host r' = out_host r \<and>
    out_path r' = out_path r \<and> out_rawpath r' = out_rawpath r \<and> out_rawquery r' = out_rawquery r \<and>
    out_hosthdr r' = out_hosthdr r"
  using sign_only_headers by fastforce

end

lemmas header_ops = Header_Get_def Header_Set_def Header_Del_def Header_Add_def

lemma signer_header_keys:
  "CanonicalHeaderKey ''X-AudistroProvider-KeyId'' = ''X-Audistroprovider-Keyid''"
  "CanonicalHeaderKey ''X-AudistroProvider-Timestamp'' = ''X-Audistroprovider-Timestamp''"
  "CanonicalHeaderKey ''X-AudistroProvider-Nonce'' = ''X-Audistroprovider-Nonce''"
  "CanonicalHeaderKey ''X-AudistroProvider-Signature'' = ''X-Audistroprovider-Signature''"
  "CanonicalHeaderKey ''X-AudistroProvider-ProviderId'' = ''X-Audistroprovider-Providerid''"
  by code_simp+

lemma Sign_Ok:
  assumes "Sign hmac s (Some r) now = Ok r'"
  obtains nb where "hs_nonceSource s 16 = Ok nb" "length nb = 16" "out_method r \<in> {''GET'', ''HEAD''}"
    "signWithNonce hmac s r now nb = Ok r'"
  using assms by (auto simp: Sign_def signWithNonce_def split: sum.splits if_splits)

interpretation hmac: origin_signer "\<lambda>r now. Sign h s (Some r) now" for h s
proof unfold_locales
  fix r r' now
  assume "Sign h s (Some r) now = Ok r'"
  then obtain nb where nb: "signWithNonce h s r now nb = Ok r'" by (rule Sign_Ok)
  then show "\<exists>hd. r' = r\<lparr>out_header := hd\<rparr>"
    by (auto simp: signWithNonce_def Let_def split: if_splits)
  fix k
  assume "\<not> HasPrefix k ''X-Audistroprovider-''"
  then have "k \<noteq> ''X-Audistroprovider-'' @ t" for t using HasPrefix_append by metis
  from this [of "''Keyid''"] this [of "''Timestamp''"] this [of "''Nonce''"] this [of "''Signature''"]
    this [of "''Providerid''"]
  show "out_header r' k = out_header r k"
    using nb by (auto simp: signWithNonce_def Let_def Header_Set_def signer_header_keys split: if_splits)
qed

section \<open>Properties\<close>

lemma newline_free_FormatInt: "CHR 0x0A \<notin> set (FormatInt n)"
  using FormatInt_chars [of "CHR 0x0A" n] by (auto simp: is_digit_def less_eq_char_def)

lemma newline_free_hex: "CHR 0x0A \<notin> set (hex_EncodeToString bs)"
  using hex_EncodeToString_chars [of "CHR 0x0A" bs] by (auto simp: is_digit_def less_eq_char_def)

lemma pathWithQuery_newline_free:
  "CHR 0x0A \<notin> set (out_rawquery r) \<Longrightarrow> CHR 0x0A \<notin> set (pathWithQuery s r)"
  using EscapedPath_clean by (auto simp: pathWithQuery_def Let_def)

text \<open>C29. A signature covers exactly what it should: two signed requests with the same canonical
  message agree in method, path with query, time in seconds, nonce and provider, as long as their
  methods and queries hold no line feed. Nothing can be shifted from one field into the next.\<close>

theorem canonical_injective:
  assumes "canonical s r now nb = canonical s' r' now' nb'"
    and "CHR 0x0A \<notin> set (out_method r)" "CHR 0x0A \<notin> set (out_method r')"
    and "CHR 0x0A \<notin> set (out_rawquery r)" "CHR 0x0A \<notin> set (out_rawquery r')"
  shows "out_method r = out_method r' \<and> pathWithQuery s r = pathWithQuery s' r' \<and>
         Unix now = Unix now' \<and> nb = nb' \<and> hs_providerID s = hs_providerID s'"
proof -
  note split = append_sep_inject [where c = "CHR 0x0A"]
  have m: "out_method r = out_method r'"
    and rest1: "pathWithQuery s r @ CHR 0x0A # FormatInt (Unix now) @ CHR 0x0A #
        hex_EncodeToString nb @ CHR 0x0A # hs_providerID s =
      pathWithQuery s' r' @ CHR 0x0A # FormatInt (Unix now') @ CHR 0x0A #
        hex_EncodeToString nb' @ CHR 0x0A # hs_providerID s'"
    using split [OF assms(1) [unfolded canonical_def] assms(2,3)] by auto
  have p: "pathWithQuery s r = pathWithQuery s' r'"
    and rest2: "FormatInt (Unix now) @ CHR 0x0A # hex_EncodeToString nb @ CHR 0x0A # hs_providerID s =
      FormatInt (Unix now') @ CHR 0x0A # hex_EncodeToString nb' @ CHR 0x0A # hs_providerID s'"
    using split [OF rest1 pathWithQuery_newline_free pathWithQuery_newline_free] assms(4,5) by auto
  have t: "FormatInt (Unix now) = FormatInt (Unix now')"
    and rest3: "hex_EncodeToString nb @ CHR 0x0A # hs_providerID s =
      hex_EncodeToString nb' @ CHR 0x0A # hs_providerID s'"
    using split [OF rest2 newline_free_FormatInt newline_free_FormatInt] by auto
  have n: "hex_EncodeToString nb = hex_EncodeToString nb'" "hs_providerID s = hs_providerID s'"
    using split [OF rest3 newline_free_hex newline_free_hex] by auto
  show ?thesis using m p t n by (simp add: FormatInt_inject hex_EncodeToString_inject)
qed

definition demo_signer :: HMACSigner where
  "demo_signer = NewHMACSigner ''v1'' ''secret'' ''p1'' True (\<lambda>n. Ok (replicate (nat n) (CHR ''n'')))"

definition demo_outreq :: outreq where
  "demo_outreq = \<lparr>out_method = ''GET'', out_scheme = ''http'', out_host = ''o'', out_path = ''/a b'',
     out_rawpath = [], out_rawquery = ''x=1'', out_hosthdr = [], out_header = Map.empty\<rparr>"

text \<open>The time is signed in whole seconds, and the scheme is not signed.\<close>

theorem canonical_injective_witness:
  "canonical demo_signer demo_outreq 1000000000 ''n'' =
   canonical demo_signer (demo_outreq\<lparr>out_scheme := ''https''\<rparr>) 1500000000 ''n'' \<and>
   Unix 1000000000 = Unix 1500000000 \<and>
   pathWithQuery demo_signer demo_outreq = pathWithQuery demo_signer (demo_outreq\<lparr>out_scheme := ''https''\<rparr>)"
proof -
  have "canonical demo_signer demo_outreq 1000000000 ''n'' =
    canonical demo_signer (demo_outreq\<lparr>out_scheme := ''https''\<rparr>) 1500000000 ''n''"
    by (simp add: canonical_def pathWithQuery_def Unix_def demo_outreq_def Let_def)
  with canonical_injective [OF this] show ?thesis by (simp add: demo_outreq_def)
qed

text \<open>Signing succeeds exactly for GET and HEAD with a 16-byte nonce, and then sets the five
  headers: the key id, the Unix time in decimal, the nonce as 32 hexadecimal digits, the hash of the canonical
  message in hexadecimal and the provider id, and changes nothing else of the request.\<close>

theorem sign_sets_headers:
  "Sign hmac s (Some r) now = Ok r' \<longleftrightarrow>
     out_method r \<in> {''GET'', ''HEAD''} \<and>
     (\<exists>nb. hs_nonceSource s 16 = Ok nb \<and> length nb = 16 \<and>
        r' = r\<lparr>out_header := (out_header r)
          (''X-Audistroprovider-Keyid'' \<mapsto> [hs_keyID s],
           ''X-Audistroprovider-Timestamp'' \<mapsto> [FormatInt (Unix now)],
           ''X-Audistroprovider-Nonce'' \<mapsto> [hex_EncodeToString nb],
           ''X-Audistroprovider-Signature'' \<mapsto>
              [hex_EncodeToString (hmac (hs_secret s) (canonical s r now nb))],
           ''X-Audistroprovider-Providerid'' \<mapsto> [hs_providerID s])\<rparr>)"
proof -
  have form: "signWithNonce hmac s r now nb = Ok r' \<longleftrightarrow>
     out_method r \<in> {''GET'', ''HEAD''} \<and> length nb = 16 \<and>
     r' = r\<lparr>out_header := (out_header r)
          (''X-Audistroprovider-Keyid'' \<mapsto> [hs_keyID s],
           ''X-Audistroprovider-Timestamp'' \<mapsto> [FormatInt (Unix now)],
           ''X-Audistroprovider-Nonce'' \<mapsto> [hex_EncodeToString nb],
           ''X-Audistroprovider-Signature'' \<mapsto>
              [hex_EncodeToString (hmac (hs_secret s) (canonical s r now nb))],
           ''X-Audistroprovider-Providerid'' \<mapsto> [hs_providerID s])\<rparr>" for nb
    unfolding signWithNonce_def Let_def Header_Set_def signer_header_keys by auto
  show ?thesis by (auto simp: Sign_def form split: sum.splits)
qed

end
