(* ===== verification/Proxy_Body.thy ===== *)
theory Proxy_Body
  imports Prelude
begin

text \<open>
  The body of an upstream response and the limit on it: \<open>maxBytesReadCloser\<close> of \<open>handler.go\<close> over an
  \<open>io.LimitReader\<close>, and the copy loop of \<open>httputil.ReverseProxy\<close> that drains it. A body is the list of
  chunks that reads on the connection deliver and the error that ends them; with \<open>bd_eager\<close> the last chunk
  comes together with that error, which \<open>io.Reader\<close> allows. Empty chunks are reads of zero bytes without error.
\<close>

section \<open>Readers\<close>

datatype read_err = EOF | BodyTooLarge | ReadFault string

record body =
  bd_chunks :: "string list"
  bd_end :: read_err
  bd_eager :: bool

definition body_Read :: "body \<Rightarrow> nat \<Rightarrow> string \<times> read_err option \<times> body" where
  "body_Read b n =
     (case bd_chunks b of
        [] \<Rightarrow> ([], Some (bd_end b), b)
      | c # cs \<Rightarrow>
          if length c \<le> n
          then (c, if cs = [] \<and> bd_eager b then Some (bd_end b) else None, b\<lparr>bd_chunks := cs\<rparr>)
          else (take n c, None, b\<lparr>bd_chunks := drop n c # cs\<rparr>))"

record LimitedReader =
  lr_body :: body
  lr_n :: int

definition LimitedReader_Read :: "LimitedReader \<Rightarrow> nat \<Rightarrow> string \<times> read_err option \<times> LimitedReader" where
  "LimitedReader_Read l n =
     (if lr_n l \<le> 0 then ([], Some EOF, l)
      else let m = (if int n > lr_n l then nat (lr_n l) else n)
           in case body_Read (lr_body l) m of
                (d, err, b) \<Rightarrow> (d, err, l\<lparr>lr_body := b, lr_n := lr_n l - int (length d)\<rparr>))"

record maxBytesReadCloser =
  mb_reader :: LimitedReader
  mb_max :: int
  mb_read :: int
  mb_overflow :: bool

definition maxBytesReadCloser_Read ::
  "maxBytesReadCloser \<Rightarrow> nat \<Rightarrow> string \<times> read_err option \<times> maxBytesReadCloser" where
  "maxBytesReadCloser_Read r n =
     (if mb_overflow r then ([], Some BodyTooLarge, r)
      else case LimitedReader_Read (mb_reader r) n of
        (d, err, l) \<Rightarrow>
          (let r1 = r\<lparr>mb_reader := l\<rparr>
           in if d \<noteq> [] then
                (let next = int64 (mb_read r1 + int (length d))
                 in if next > mb_max r1 then
                      (let diff = int64 (mb_max r1 - mb_read r1);
                           allowed = (if diff < 0 then 0 else diff);
                           r2 = r1\<lparr>mb_read := mb_max r1, mb_overflow := True\<rparr>
                       in if allowed > 0 then (take (nat allowed) d, None, r2)
                          else ([], Some BodyTooLarge, r2))
                    else (d, err, r1\<lparr>mb_read := next\<rparr>))
              else (d, err, r1)))"

text \<open>The reader that \<open>ModifyResponse\<close> installs for a limit.\<close>

definition limit_body :: "int \<Rightarrow> body \<Rightarrow> maxBytesReadCloser" where
  "limit_body m b =
     \<lparr>mb_reader = \<lparr>lr_body = b, lr_n = int64 (m + 1)\<rparr>, mb_max = m, mb_read = 0, mb_overflow = False\<rparr>"

datatype resp_body = Plain body | Capped maxBytesReadCloser

definition resp_Read :: "resp_body \<Rightarrow> nat \<Rightarrow> string \<times> read_err option \<times> resp_body" where
  "resp_Read rb n =
     (case rb of
        Plain b \<Rightarrow> (case body_Read b n of (d, e, b') \<Rightarrow> (d, e, Plain b'))
      | Capped m \<Rightarrow> (case maxBytesReadCloser_Read m n of (d, e, m') \<Rightarrow> (d, e, Capped m')))"

section \<open>The copy loop\<close>

definition body_size :: "body \<Rightarrow> nat" where
  "body_size b = length (bd_chunks b) + length (concat (bd_chunks b))"

definition resp_size :: "resp_body \<Rightarrow> nat" where
  "resp_size rb =
     (case rb of
        Plain b \<Rightarrow> body_size b
      | Capped m \<Rightarrow> body_size (lr_body (mb_reader m)) + (if mb_overflow m then 0 else 1))"

lemma body_Read_size:
  "body_Read b n = (d, None, b') \<Longrightarrow> 0 < n \<Longrightarrow> body_size b' < body_size b"
  by (auto simp: body_Read_def body_size_def split: list.splits if_splits)

lemma body_Read_le: "body_Read b n = (d, e, b') \<Longrightarrow> body_size b' \<le> body_size b"
  by (auto simp: body_Read_def body_size_def split: list.splits if_splits)

lemma LimitedReader_Read_size:
  assumes "LimitedReader_Read l n = (d, e, l')"
  shows "body_size (lr_body l') \<le> body_size (lr_body l)"
    and "e = None \<Longrightarrow> 0 < n \<Longrightarrow> body_size (lr_body l') < body_size (lr_body l)"
  using assms body_Read_size [of "lr_body l"] body_Read_le [of "lr_body l"]
  by (auto simp: LimitedReader_Read_def Let_def split: if_splits prod.splits)

lemma maxBytesReadCloser_Read_size:
  assumes "maxBytesReadCloser_Read m n = (d, None, m')" "0 < n"
  shows "resp_size (Capped m') < resp_size (Capped m)"
proof -
  obtain d1 e1 l1 where l: "LimitedReader_Read (mb_reader m) n = (d1, e1, l1)" by (cases "LimitedReader_Read (mb_reader m) n")
  show ?thesis
    using assms LimitedReader_Read_size [OF l]
    by (auto simp: maxBytesReadCloser_Read_def l resp_size_def Let_def split: if_splits)
qed

lemma resp_Read_size:
  "resp_Read rb n = (d, None, rb') \<Longrightarrow> 0 < n \<Longrightarrow> resp_size rb' < resp_size rb"
  using body_Read_size maxBytesReadCloser_Read_size
  by (auto simp: resp_Read_def split: resp_body.splits prod.splits) (fastforce simp: resp_size_def)

text \<open>
  \<open>ReverseProxy.copyBuffer\<close> with a buffer of \<open>n\<close> bytes: the bytes written and the error, where the end of the
  body is no error. It ends on every body, since a read without error consumes a chunk or part of one.
\<close>

function copyBuffer :: "nat \<Rightarrow> resp_body \<Rightarrow> string \<times> read_err option" where
  "copyBuffer n rb =
     (case resp_Read rb n of
        (d, Some e, _) \<Rightarrow> (d, if e = EOF then None else Some e)
      | (d, None, rb') \<Rightarrow>
          if n = 0 then (d, None)
          else (case copyBuffer n rb' of (ds, r) \<Rightarrow> (d @ ds, r)))"
  by pat_completeness auto
termination
  by (relation "measure (\<lambda>(n, rb). resp_size rb)") (auto dest: resp_Read_size [OF sym])

declare copyBuffer.simps [simp del]

lemma copyBuffer_end: "resp_Read rb n = (d, Some e, rb') \<Longrightarrow>
    copyBuffer n rb = (d, if e = EOF then None else Some e)"
  by (subst copyBuffer.simps) simp

lemma copyBuffer_step: "resp_Read rb n = (d, None, rb') \<Longrightarrow> 0 < n \<Longrightarrow>
    copyBuffer n rb = (d @ fst (copyBuffer n rb'), snd (copyBuffer n rb'))"
  by (subst copyBuffer.simps) (simp split: prod.splits)

section \<open>What reaches the client\<close>

definition body_bytes :: "body \<Rightarrow> string" where
  "body_bytes b = concat (bd_chunks b)"

definition body_error :: "body \<Rightarrow> read_err option" where
  "body_error b = (if bd_end b = EOF then None else Some (bd_end b))"

lemma body_Read_spec:
  assumes "body_Read b n = (d, e, b')"
  shows "body_bytes b = d @ body_bytes b'" "bd_end b' = bd_end b" "length d \<le> n"
    "e = Some x \<Longrightarrow> x = bd_end b \<and> body_bytes b' = []"
  using assms by (auto simp: body_Read_def body_bytes_def split: list.splits if_splits)

lemma copy_Plain: "0 < n \<Longrightarrow> copyBuffer n (Plain b) = (body_bytes b, body_error b)"
proof (induction "body_size b" arbitrary: b rule: less_induct)
  case less
  obtain d e b' where rd: "body_Read b n = (d, e, b')" by (cases "body_Read b n")
  then have rr: "resp_Read (Plain b) n = (d, e, Plain b')" by (simp add: resp_Read_def)
  note spec = body_Read_spec [OF rd]
  show ?case
  proof (cases e)
    case (Some x)
    with rr spec show ?thesis by (simp add: copyBuffer_end body_error_def)
  next
    case None
    have "copyBuffer n (Plain b') = (body_bytes b', body_error b')"
      using less None rd body_Read_size by blast
    with rr spec None less.prems show ?thesis by (simp add: copyBuffer_step body_error_def)
  qed
qed

text \<open>
  The state of a limited reader that has passed on \<open>mb_read\<close> bytes: the inner reader may deliver one byte
  more than the rest of the limit, which is how an overflow is noticed.
\<close>

definition capped_inv :: "maxBytesReadCloser \<Rightarrow> bool" where
  "capped_inv m \<longleftrightarrow> \<not> mb_overflow m \<and> 0 \<le> mb_read m \<and> mb_read m \<le> mb_max m \<and> mb_max m < max_int64 \<and>
     lr_n (mb_reader m) = mb_max m + 1 - mb_read m"

lemma limit_body_inv: "0 \<le> m \<Longrightarrow> m < max_int64 \<Longrightarrow> capped_inv (limit_body m b)"
  by (simp add: capped_inv_def limit_body_def in_int64_def)

lemma limited_spec:
  assumes "LimitedReader_Read l n = (d, e, l')" "0 < lr_n l"
  shows "body_bytes (lr_body l) = d @ body_bytes (lr_body l')" "bd_end (lr_body l') = bd_end (lr_body l)"
    "int (length d) \<le> lr_n l" "lr_n l' = lr_n l - int (length d)"
    "e = Some x \<Longrightarrow> x = bd_end (lr_body l) \<and> body_bytes (lr_body l') = []"
  using assms body_Read_spec [of "lr_body l"]
  by (fastforce simp: LimitedReader_Read_def Let_def split: if_splits prod.splits)+

lemma copy_overflowed: "mb_overflow m \<Longrightarrow> copyBuffer n (Capped m) = ([], Some BodyTooLarge)"
  by (rule trans [OF copyBuffer_end]) (auto simp: resp_Read_def maxBytesReadCloser_Read_def)

definition capped_result :: "maxBytesReadCloser \<Rightarrow> string \<times> read_err option" where
  "capped_result m =
     (let bs = body_bytes (lr_body (mb_reader m)); left = nat (mb_max m - mb_read m)
      in (take left bs, if left < length bs then Some BodyTooLarge else body_error (lr_body (mb_reader m))))"

lemma capped_Read_within:
  assumes "capped_inv m" "LimitedReader_Read (mb_reader m) n = (d, e, l)"
    and "mb_read m + int (length d) \<le> mb_max m"
  shows "maxBytesReadCloser_Read m n = (d, e, m\<lparr>mb_reader := l, mb_read := mb_read m + int (length d)\<rparr>)"
proof -
  have "in_int64 (mb_read m + int (length d))" using assms(1,3) by (auto simp: capped_inv_def in_int64_def)
  then show ?thesis
    using assms by (auto simp: maxBytesReadCloser_Read_def capped_inv_def Let_def)
qed

lemma capped_Read_beyond:
  assumes "capped_inv m" "LimitedReader_Read (mb_reader m) n = (d, e, l)"
    and "mb_max m < mb_read m + int (length d)"
  shows "\<exists>m'. mb_overflow m' \<and> maxBytesReadCloser_Read m n =
      (take (nat (mb_max m - mb_read m)) d, if mb_read m = mb_max m then Some BodyTooLarge else None, m')"
proof -
  have n: "int (length d) \<le> lr_n (mb_reader m)"
    using limited_spec(3) [OF assms(2)] assms(1) by (simp add: capped_inv_def)
  have "in_int64 (mb_read m + int (length d))" "in_int64 (mb_max m - mb_read m)"
    using assms(1) n by (auto simp: capped_inv_def in_int64_def)
  then show ?thesis
    using assms by (auto simp: maxBytesReadCloser_Read_def capped_inv_def Let_def)
qed

lemma copy_Capped: "capped_inv m \<Longrightarrow> 0 < n \<Longrightarrow> copyBuffer n (Capped m) = capped_result m"
proof (induction "resp_size (Capped m)" arbitrary: m rule: less_induct)
  case less
  obtain d e l where lr: "LimitedReader_Read (mb_reader m) n = (d, e, l)"
    by (cases "LimitedReader_Read (mb_reader m) n")
  have pos: "0 < lr_n (mb_reader m)" using less.prems(1) by (simp add: capped_inv_def)
  note spec = limited_spec [OF lr pos]
  show ?case
  proof (cases "mb_read m + int (length d) \<le> mb_max m")
    case True
    define m' where "m' = m\<lparr>mb_reader := l, mb_read := mb_read m + int (length d)\<rparr>"
    have mr: "maxBytesReadCloser_Read m n = (d, e, m')"
      unfolding m'_def by (rule capped_Read_within [OF less.prems(1) lr True])
    then have rr: "resp_Read (Capped m) n = (d, e, Capped m')" by (simp add: resp_Read_def)
    have inv: "capped_inv m'" using less.prems(1) True spec(4) by (simp add: capped_inv_def m'_def)
    have left: "nat (mb_max m - mb_read m) = length d + nat (mb_max m' - mb_read m')"
      using True by (simp add: m'_def)
    have res: "capped_result m = (d @ fst (capped_result m'), snd (capped_result m'))"
      unfolding capped_result_def left using spec(1,2) by (simp add: Let_def body_error_def m'_def)
    show ?thesis
    proof (cases e)
      case None
      then have "copyBuffer n (Capped m') = capped_result m'"
        using less inv mr maxBytesReadCloser_Read_size by blast
      then show ?thesis using rr None res less.prems(2) by (simp add: copyBuffer_step)
    next
      case (Some x)
      then show ?thesis
        using rr res spec(2,5) by (auto simp: copyBuffer_end capped_result_def Let_def body_error_def m'_def)
    qed
  next
    case False
    then obtain m' where ov: "mb_overflow m'" and mr: "maxBytesReadCloser_Read m n =
        (take (nat (mb_max m - mb_read m)) d, if mb_read m = mb_max m then Some BodyTooLarge else None, m')"
      using capped_Read_beyond [OF less.prems(1) lr] by auto
    have big: "nat (mb_max m - mb_read m) < length d" using False less.prems(1) by (auto simp: capped_inv_def)
    have "copyBuffer n (Capped m) = (take (nat (mb_max m - mb_read m)) d, Some BodyTooLarge)"
    proof (cases "mb_read m = mb_max m")
      case True
      then show ?thesis using mr by (simp add: copyBuffer_end resp_Read_def)
    next
      case False
      then show ?thesis using mr ov less.prems(2) by (simp add: copyBuffer_step resp_Read_def copy_overflowed)
    qed
    then show ?thesis using big spec(1) by (simp add: capped_result_def Let_def)
  qed
qed

section \<open>Properties\<close>

text \<open>C9. The streaming limit is exact: whatever the chunks of the upstream body and the size of the copy
  buffer, the client gets the first \<open>m\<close> bytes and the copy ends with \<open>errProxyBodyTooLarge\<close> exactly when
  there are more; a body within the limit arrives unchanged with the upstream's own end, and the copy always ends.\<close>

theorem stream_limit_exact:
  assumes "0 \<le> m" "m < max_int64" "0 < n"
  shows "copyBuffer n (Capped (limit_body m b)) =
     (take (nat m) (body_bytes b),
      if int (length (body_bytes b)) > m then Some BodyTooLarge else body_error b)"
  using copy_Capped [OF limit_body_inv [OF assms(1,2)] assms(3), of b] assms(1)
  by (auto simp: capped_result_def limit_body_def Let_def)

theorem stream_limit_exact_witness:
  "copyBuffer 2 (Capped (limit_body 4 \<lparr>bd_chunks = [''abc'', [], ''de''], bd_end = EOF, bd_eager = False\<rparr>)) =
     (''abcd'', Some BodyTooLarge)"
  using stream_limit_exact [of 4 2 "\<lparr>bd_chunks = [''abc'', [], ''de''], bd_end = EOF, bd_eager = False\<rparr>"]
  by (simp add: body_bytes_def)

text \<open>At the largest configurable limit the increment wraps around: the inner reader starts with a
  negative budget and every streamed body is delivered empty, without an error.\<close>

theorem stream_limit_wraps: "copyBuffer n (Capped (limit_body max_int64 b)) = ([], None)"
  by (rule trans [OF copyBuffer_end])
     (auto simp: resp_Read_def maxBytesReadCloser_Read_def LimitedReader_Read_def limit_body_def int64_def)

end
