(* ===== verification/Assets_Proxy.thy ===== *)
theory Assets_Proxy
  imports Assets_Request Origin_Auth Proxy_Body
begin

text \<open>
  The proxy half of \<open>handler.go\<close>: header rules, the signing transport, the three functions that \<open>initProxy\<close>
  installs in \<open>httputil.ReverseProxy\<close>, and the run of that proxy for one request. What the network answers
  to an outgoing request is a parameter. Logging is left out: it has no effect on a response. The upstream is
  taken to send no informational (1xx) responses other than 101.
\<close>

section \<open>Header rules\<close>

definition hopByHopHeaders :: "string list" where
  "hopByHopHeaders = [''Connection'', ''Keep-Alive'', ''Proxy-Authenticate'', ''Proxy-Authorization'', ''TE'',
     ''Trailer'', ''Transfer-Encoding'', ''Upgrade'']"

definition removeHopByHopHeaders :: "header \<Rightarrow> header" where
  "removeHopByHopHeaders h =
     (let connection = Header_Get h ''Connection'';
          h1 = fold (\<lambda>key m. Header_Del m key) hopByHopHeaders h
      in if connection = [] then h1
         else fold (\<lambda>field m. let trimmed = TrimSpace field in if trimmed \<noteq> [] then Header_Del m trimmed else m)
                (Split connection CHR '','') h1)"

definition applyContentHeaders :: "header \<Rightarrow> string \<Rightarrow> bool \<Rightarrow> header" where
  "applyContentHeaders h ext setContentType =
     (let typ = (\<lambda>v. if setContentType then Header_Set h ''Content-Type'' v else h);
          immutable = ''public, max-age=31536000, immutable''
      in if ext = ''.m3u8'' then Header_Set (typ ''application/vnd.apple.mpegurl'') ''Cache-Control'' ''public, max-age=5''
         else if ext = ''.ts'' then Header_Set (typ ''video/mp2t'') ''Cache-Control'' immutable
         else if ext = ''.m4s'' then Header_Set (typ ''video/iso.segment'') ''Cache-Control'' immutable
         else if ext = ''.mp4'' then Header_Set (typ ''video/mp4'') ''Cache-Control'' immutable
         else h)"

definition setContentHeaders :: "writer \<Rightarrow> string \<Rightarrow> writer" where
  "setContentHeaders w ext = w\<lparr>wr_header := applyContentHeaders (wr_header w) ext True\<rparr>"

definition isSegmentLike :: "string \<Rightarrow> bool" where
  "isSegmentLike ext \<longleftrightarrow> ext = ''.ts'' \<or> ext = ''.m4s'' \<or> ext = ''.mp4''"

definition singleJoiningSlash :: "string \<Rightarrow> string \<Rightarrow> string" where
  "singleJoiningSlash a b =
     (let aslash = HasSuffix a ''/''; bslash = HasPrefix b ''/''
      in if aslash \<and> bslash then a @ drop 1 b
         else if \<not> aslash \<and> \<not> bslash then a @ ''/'' @ b
         else a @ b)"

definition remoteHost :: "string \<Rightarrow> string" where
  "remoteHost remoteAddr = (case SplitHostPort remoteAddr of None \<Rightarrow> remoteAddr | Some (host, _) \<Rightarrow> host)"

definition proxyResult :: "int \<Rightarrow> string" where
  "proxyResult status =
     (if 200 \<le> status \<and> status < 400 then ''ok''
      else if 400 \<le> status \<and> status < 500 then ''client_error''
      else if 500 \<le> status then ''upstream_error''
      else ''error'')"

section \<open>The writer that remembers the status\<close>

record statusCaptureWriter =
  cap_writer :: writer
  cap_status :: int

definition capture_WriteHeader :: "statusCaptureWriter \<Rightarrow> int \<Rightarrow> statusCaptureWriter" where
  "capture_WriteHeader c code = c\<lparr>cap_status := code, cap_writer := WriteHeader (cap_writer c) code\<rparr>"

definition capture_Status :: "statusCaptureWriter \<Rightarrow> int" where
  "capture_Status c = (if cap_status c = 0 then 200 else cap_status c)"

text \<open>\<open>writeJSONError\<close> on a capturing writer: the status goes through its \<open>WriteHeader\<close>.\<close>

definition capture_writeJSONError :: "statusCaptureWriter \<Rightarrow> int \<Rightarrow> string \<Rightarrow> statusCaptureWriter" where
  "capture_writeJSONError c status code =
     (let c1 = c\<lparr>cap_writer := set_header (cap_writer c) ''Content-Type'' ''application/json''\<rparr>;
          c2 = capture_WriteHeader c1 status
      in c2\<lparr>cap_writer := Write (cap_writer c2) (json_error_body code)\<rparr>)"

lemma capture_writeJSONError_writer [simp]:
  "cap_writer (capture_writeJSONError c status code) = writeJSONError (cap_writer c) status code"
  by (simp add: capture_writeJSONError_def capture_WriteHeader_def writeJSONError_def Let_def)

lemma capture_writeJSONError_Status [simp]:
  "0 < status \<Longrightarrow> capture_Status (capture_writeJSONError c status code) = status"
  by (simp add: capture_writeJSONError_def capture_WriteHeader_def capture_Status_def Let_def)

section \<open>Signing transport\<close>

datatype proxy_error = ErrProxySegmentTooLarge | ErrProxyBodyTooLarge | ErrOriginAuthUnavailable | OtherError string

record response =
  rs_status :: int
  rs_header :: header
  rs_contentLength :: int
  rs_body :: resp_body
  rs_trailer :: header

type_synonym transport = "outreq \<Rightarrow> (string, response) result"

text \<open>
  An interface value of type \<open>OriginSigner\<close>: nil, a signer, or a non-nil interface holding a nil
  \<open>*HMACSigner\<close>, on which the method call itself succeeds and then dereferences nil.
\<close>

datatype OriginSigner = NilSigner | NilPointer | SomeSigner HMACSigner

text \<open>The outcome of a call that may panic: \<open>None\<close> is the panic.\<close>

definition signingRoundTrip ::
  "keyed_hash \<Rightarrow> int \<Rightarrow> OriginSigner \<Rightarrow> transport \<Rightarrow> outreq \<Rightarrow> (proxy_error, response) result option" where
  "signingRoundTrip hmac now signer base req =
     (case signer of
        NilSigner \<Rightarrow> Some (Err ErrOriginAuthUnavailable)
      | NilPointer \<Rightarrow> None
      | SomeSigner s \<Rightarrow>
          (case Sign hmac s (Some req) now of
             Inl e \<Rightarrow> Some (Err (OtherError e))
           | Inr req' \<Rightarrow> Some (case base req' of Inl e \<Rightarrow> Err (OtherError e) | Inr resp \<Rightarrow> Ok resp)))"

definition plainRoundTrip :: "transport \<Rightarrow> outreq \<Rightarrow> (proxy_error, response) result option" where
  "plainRoundTrip base req = Some (case base req of Inl e \<Rightarrow> Err (OtherError e) | Inr resp \<Rightarrow> Ok resp)"

section \<open>The functions installed in the proxy\<close>

record proxyRequestMeta =
  pm_ext :: string
  pm_maxSegmentBytes :: int
  pm_requestPath :: string

definition Rewrite :: "url_parts \<Rightarrow> request \<Rightarrow> outreq \<Rightarrow> outreq" where
  "Rewrite origin inr out =
     (let path = singleJoiningSlash (url_path origin) (req_path inr);
          h1 = removeHopByHopHeaders (out_header out);
          h2 = Header_Set h1 ''X-Forwarded-For'' (remoteHost (req_remote inr));
          h3 = Header_Set h2 ''X-Forwarded-Proto'' (if req_tls inr then ''https'' else ''http'')
      in out\<lparr>out_scheme := url_scheme origin, out_host := url_host origin, out_path := path,
             out_rawpath := path, out_rawquery := req_rawquery inr, out_hosthdr := url_host origin,
             out_header := h3\<rparr>)"

text \<open>
  \<open>resp.Body\<close> as the transport delivers it is the plain reader; wrapping it in the limiting reader keeps it as
  the source.
\<close>

definition plain_of :: "resp_body \<Rightarrow> body" where
  "plain_of rb = (case rb of Plain b \<Rightarrow> b | Capped m \<Rightarrow> lr_body (mb_reader m))"

definition ModifyResponse :: "proxyRequestMeta option \<Rightarrow> response \<Rightarrow> (proxy_error, response) result" where
  "ModifyResponse meta resp =
     (let resp1 = resp\<lparr>rs_header := removeHopByHopHeaders (rs_header resp), rs_trailer := Map.empty\<rparr>
      in case meta of
           None \<Rightarrow> Ok resp1
         | Some m \<Rightarrow>
             (let resp2 = resp1\<lparr>rs_header := applyContentHeaders (rs_header resp1) (pm_ext m) False\<rparr>
              in if isSegmentLike (pm_ext m) \<and> 0 < pm_maxSegmentBytes m then
                   (if pm_maxSegmentBytes m < rs_contentLength resp2 then Err ErrProxySegmentTooLarge
                    else if rs_contentLength resp2 < 0 then
                      Ok (resp2\<lparr>rs_body := Capped (limit_body (pm_maxSegmentBytes m) (plain_of (rs_body resp2))),
                            rs_contentLength := - 1,
                            rs_header := Header_Del (rs_header resp2) ''Content-Length''\<rparr>)
                    else Ok resp2)
                 else Ok resp2))"

definition ErrorHandler :: "statusCaptureWriter \<Rightarrow> proxy_error \<Rightarrow> statusCaptureWriter" where
  "ErrorHandler c err =
     (if err = ErrOriginAuthUnavailable then capture_writeJSONError c 503 ''upstream_auth_unavailable''
      else if err = ErrProxySegmentTooLarge \<or> err = ErrProxyBodyTooLarge
      then capture_writeJSONError c 413 ''segment_too_large''
      else capture_writeJSONError c 502 ''upstream_error'')"

section \<open>The run of httputil.ReverseProxy\<close>

text \<open>
  What the library does around the three functions. It removes hop-by-hop headers of its own list before
  \<open>Rewrite\<close>, then puts back \<open>TE: trailers\<close> and the upgrade headers if the client sent them, and drops the
  forwarding headers of the client.
\<close>

definition header_values :: "header \<Rightarrow> string \<Rightarrow> string list" where
  "header_values h k = (case h k of None \<Rightarrow> [] | Some vs \<Rightarrow> vs)"

definition trim_chars :: "string \<Rightarrow> string \<Rightarrow> string" where
  "trim_chars cs s = rev (dropWhile (\<lambda>c. c \<in> set cs) (rev (dropWhile (\<lambda>c. c \<in> set cs) s)))"

definition HeaderValuesContainsToken :: "string list \<Rightarrow> string \<Rightarrow> bool" where
  "HeaderValuesContainsToken values token =
     list_ex (\<lambda>v. list_ex (\<lambda>p. map ascii_lower (trim_chars [CHR '' '', CHR 0x09] p) = map ascii_lower token)
       (Split v CHR '','')) values"

definition upgradeType :: "header \<Rightarrow> string" where
  "upgradeType h =
     (if HeaderValuesContainsToken (header_values h ''Connection'') ''Upgrade'' then Header_Get h ''Upgrade'' else [])"

definition hopHeaders :: "string list" where
  "hopHeaders = [''Connection'', ''Proxy-Connection'', ''Keep-Alive'', ''Proxy-Authenticate'', ''Proxy-Authorization'',
     ''Te'', ''Trailer'', ''Transfer-Encoding'', ''Upgrade'']"

definition httputil_removeHopByHopHeaders :: "header \<Rightarrow> header" where
  "httputil_removeHopByHopHeaders h =
     (let named = concat (map (\<lambda>f. Split f CHR '','') (header_values h ''Connection''));
          h1 = fold (\<lambda>f m. let sf = trim_chars [CHR '' '', CHR 0x09, CHR 0x0A, CHR 0x0D] f
                           in if sf \<noteq> [] then Header_Del m sf else m) named h
      in fold (\<lambda>k m. Header_Del m k) hopHeaders h1)"

definition copyHeader :: "header \<Rightarrow> header \<Rightarrow> header" where
  "copyHeader dst src =
     (\<lambda>k. case src k of None \<Rightarrow> dst k
          | Some vs \<Rightarrow> (if vs = [] then dst k else Some (header_values dst k @ vs)))"

definition client_headers :: "header \<Rightarrow> header" where
  "client_headers h =
     (let up = upgradeType h;
          h0 = httputil_removeHopByHopHeaders h;
          h1 = (if HeaderValuesContainsToken (header_values h ''Te'') ''trailers''
                then Header_Set h0 ''Te'' ''trailers'' else h0);
          h2 = (if up \<noteq> [] then Header_Set (Header_Set h1 ''Connection'' ''Upgrade'') ''Upgrade'' up else h1)
      in fold (\<lambda>k m. Header_Del m k)
           [''Forwarded'', ''X-Forwarded-For'', ''X-Forwarded-Host'', ''X-Forwarded-Proto''] h2)"

definition default_user_agent :: "header \<Rightarrow> header" where
  "default_user_agent h = (if h ''User-Agent'' = None then Header_Set h ''User-Agent'' [] else h)"

definition proxy_outreq :: "url_parts \<Rightarrow> request \<Rightarrow> outreq" where
  "proxy_outreq origin r =
     (let out = Rewrite origin r \<lparr>out_method = req_method r, out_scheme = [], out_host = [], out_path = req_path r,
            out_rawpath = [], out_rawquery = req_rawquery r, out_hosthdr = [], out_header = client_headers (req_header r)\<rparr>
      in out\<lparr>out_header := default_user_agent (out_header out)\<rparr>)"

text \<open>
  A response with status 101 always ends in the error handler: the capturing writer cannot be hijacked. A
  failed copy panics with \<open>http.ErrAbortHandler\<close> when the request came through an \<open>http.Server\<close> (\<open>served\<close>).
  The copy buffer has 32 KiB.
\<close>

definition deliver :: "bool \<Rightarrow> statusCaptureWriter \<Rightarrow> response \<Rightarrow> statusCaptureWriter ended" where
  "deliver served c resp =
     (let w1 = (cap_writer c)\<lparr>wr_header := copyHeader (wr_header (cap_writer c)) (rs_header resp)\<rparr>;
          c1 = capture_WriteHeader (c\<lparr>cap_writer := w1\<rparr>) (rs_status resp);
          (written, err) = copyBuffer 32768 (rs_body resp);
          c2 = (if written = [] then c1 else c1\<lparr>cap_writer := Write (cap_writer c1) written\<rparr>)
      in if err = None \<or> \<not> served then Returned c2 else Panicked c2)"

definition printable :: "string \<Rightarrow> bool" where
  "printable s \<longleftrightarrow> list_all (\<lambda>c. CHR '' '' \<le> c \<and> c \<le> CHR ''~'') s"

definition ReverseProxy_ServeHTTP ::
  "(outreq \<Rightarrow> (proxy_error, response) result option) \<Rightarrow> url_parts \<Rightarrow> proxyRequestMeta option \<Rightarrow> bool \<Rightarrow>
   request \<Rightarrow> statusCaptureWriter \<Rightarrow> statusCaptureWriter ended" where
  "ReverseProxy_ServeHTTP roundTrip origin meta served r c =
     (if \<not> printable (upgradeType (req_header r))
      then Returned (ErrorHandler c (OtherError ''client tried to switch to invalid protocol''))
      else case roundTrip (proxy_outreq origin r) of
        None \<Rightarrow> Panicked c
      | Some (Inl e) \<Rightarrow> Returned (ErrorHandler c e)
      | Some (Inr resp) \<Rightarrow>
          (let switching = rs_status resp = 101;
               resp1 = (if switching then resp
                        else resp\<lparr>rs_header := httputil_removeHopByHopHeaders (rs_header resp)\<rparr>)
           in case ModifyResponse meta resp1 of
                Inl e \<Rightarrow> Returned (ErrorHandler c e)
              | Inr resp2 \<Rightarrow>
                  if switching then Returned (ErrorHandler c (OtherError ''cannot switch protocols''))
                  else deliver served c resp2))"

section \<open>Header lemmas\<close>

lemma fold_Header_Del:
  "fold (\<lambda>k m. Header_Del m k) ks h x = (if x \<in> CanonicalHeaderKey ` set ks then None else h x)"
  by (induction ks arbitrary: h) (auto simp: Header_Del_def)

definition hop_fields :: "string \<Rightarrow> string set" where
  "hop_fields connection =
     {CanonicalHeaderKey (TrimSpace f) | f. f \<in> set (Split connection CHR '','') \<and> TrimSpace f \<noteq> []}"

lemma fold_named:
  "fold (\<lambda>field m. let trimmed = TrimSpace field in if trimmed \<noteq> [] then Header_Del m trimmed else m) fs h x =
     (if x \<in> {CanonicalHeaderKey (TrimSpace f) | f. f \<in> set fs \<and> TrimSpace f \<noteq> []} then None else h x)"
  by (induction fs arbitrary: h) (auto simp: Header_Del_def Let_def)

lemma hop_keys: "CanonicalHeaderKey ` set hopByHopHeaders =
    {''Connection'', ''Keep-Alive'', ''Proxy-Authenticate'', ''Proxy-Authorization'', ''Te'', ''Trailer'',
     ''Transfer-Encoding'', ''Upgrade''}"
proof -
  have "map CanonicalHeaderKey hopByHopHeaders =
    [''Connection'', ''Keep-Alive'', ''Proxy-Authenticate'', ''Proxy-Authorization'', ''Te'', ''Trailer'',
     ''Transfer-Encoding'', ''Upgrade'']" by code_simp
  then show ?thesis unfolding set_map [symmetric] by simp
qed

text \<open>The application's rule: the eight standard hop-by-hop headers and those the first \<open>Connection\<close> value names.\<close>

lemma removeHopByHopHeaders_iff:
  "removeHopByHopHeaders h x =
     (if x \<in> CanonicalHeaderKey ` set hopByHopHeaders \<or> x \<in> hop_fields (Header_Get h ''Connection'')
      then None else h x)"
proof (cases "Header_Get h ''Connection'' = []")
  case True
  then have "hop_fields (Header_Get h ''Connection'') = {}" by (auto simp: hop_fields_def)
  then show ?thesis using True by (simp add: removeHopByHopHeaders_def Let_def fold_Header_Del)
next
  case False
  then show ?thesis
    unfolding removeHopByHopHeaders_def Let_def fold_named [unfolded Let_def] fold_Header_Del hop_fields_def
    by auto
qed

lemma forward_keys:
  "CanonicalHeaderKey ''X-Forwarded-For'' = ''X-Forwarded-For''"
  "CanonicalHeaderKey ''X-Forwarded-Proto'' = ''X-Forwarded-Proto''"
  "CanonicalHeaderKey ''X-Forwarded-Host'' = ''X-Forwarded-Host''"
  "CanonicalHeaderKey ''Forwarded'' = ''Forwarded''"
  "CanonicalHeaderKey ''User-Agent'' = ''User-Agent''"
  "CanonicalHeaderKey ''Te'' = ''Te''"
  "CanonicalHeaderKey ''Connection'' = ''Connection''"
  "CanonicalHeaderKey ''Upgrade'' = ''Upgrade''"
  "CanonicalHeaderKey ''Content-Length'' = ''Content-Length''"
  by code_simp+

lemma singleJoiningSlash_rooted:
  "HasPrefix b ''/'' \<Longrightarrow> singleJoiningSlash a b = (if HasSuffix a ''/'' then butlast a else a) @ b"
  by (auto simp: singleJoiningSlash_def HasPrefix_iff HasSuffix_iff Let_def)

lemma hop_key_removed: "k \<in> CanonicalHeaderKey ` set hopByHopHeaders \<Longrightarrow> removeHopByHopHeaders h k = None"
  by (simp add: removeHopByHopHeaders_iff)

lemma removeHop_keeps_None: "h k = None \<Longrightarrow> removeHopByHopHeaders h k = None"
  by (simp add: removeHopByHopHeaders_iff)

lemma Rewrite_header:
  "out_header (Rewrite origin r out) =
     (removeHopByHopHeaders (out_header out))(''X-Forwarded-For'' \<mapsto> [remoteHost (req_remote r)],
       ''X-Forwarded-Proto'' \<mapsto> [if req_tls r then ''https'' else ''http''])"
  by (simp add: Rewrite_def Let_def Header_Set_def forward_keys)

lemma proxy_outreq_header:
  "out_header (proxy_outreq origin r) = default_user_agent
     ((removeHopByHopHeaders (client_headers (req_header r)))
       (''X-Forwarded-For'' \<mapsto> [remoteHost (req_remote r)],
        ''X-Forwarded-Proto'' \<mapsto> [if req_tls r then ''https'' else ''http'']))"
  by (simp add: proxy_outreq_def Let_def Rewrite_header)

lemma default_user_agent_other: "k \<noteq> ''User-Agent'' \<Longrightarrow> default_user_agent h k = h k"
  by (simp add: default_user_agent_def Header_Set_def forward_keys)

lemma client_headers_forwarding: "client_headers h ''Forwarded'' = None" "client_headers h ''X-Forwarded-Host'' = None"
  unfolding client_headers_def Let_def fold_Header_Del by (simp_all add: forward_keys)

lemma proxy_outreq_url:
  "out_method (proxy_outreq origin r) = req_method r" "out_rawquery (proxy_outreq origin r) = req_rawquery r"
  "out_scheme (proxy_outreq origin r) = url_scheme origin" "out_host (proxy_outreq origin r) = url_host origin"
  "out_hosthdr (proxy_outreq origin r) = url_host origin"
  "out_path (proxy_outreq origin r) = singleJoiningSlash (url_path origin) (req_path r)"
  "out_rawpath (proxy_outreq origin r) = singleJoiningSlash (url_path origin) (req_path r)"
  unfolding proxy_outreq_def Rewrite_def Let_def by simp_all

section \<open>Properties\<close>

text \<open>C26. The request sent upstream: it keeps the client's method and query, goes to the configured origin
  (URL and \<open>Host\<close>), its path is the origin's path followed by the client's with one slash between them, it carries none of the
  hop-by-hop headers and no forwarding header of the client; \<open>X-Forwarded-For\<close> is the peer's own address
  and \<open>X-Forwarded-Proto\<close> its own protocol, whatever the client sent.\<close>

theorem upstream_request:
  assumes "HasPrefix (req_path r) ''/''"
  shows "out_method (proxy_outreq origin r) = req_method r \<and> out_rawquery (proxy_outreq origin r) = req_rawquery r \<and>
    out_scheme (proxy_outreq origin r) = url_scheme origin \<and> out_host (proxy_outreq origin r) = url_host origin \<and>
    out_hosthdr (proxy_outreq origin r) = url_host origin \<and>
    out_path (proxy_outreq origin r) =
      (if HasSuffix (url_path origin) ''/'' then butlast (url_path origin) else url_path origin) @ req_path r \<and>
    out_rawpath (proxy_outreq origin r) = out_path (proxy_outreq origin r) \<and>
    list_all (\<lambda>k. out_header (proxy_outreq origin r) k = None)
       [''Connection'', ''Keep-Alive'', ''Proxy-Authenticate'', ''Proxy-Authorization'', ''Te'', ''Trailer'',
        ''Transfer-Encoding'', ''Upgrade'', ''Forwarded'', ''X-Forwarded-Host''] \<and>
    out_header (proxy_outreq origin r) ''X-Forwarded-For'' = Some [remoteHost (req_remote r)] \<and>
    out_header (proxy_outreq origin r) ''X-Forwarded-Proto'' = Some [if req_tls r then ''https'' else ''http'']"
proof -
  note gone = hop_key_removed [of _ "client_headers (req_header r)", unfolded hop_keys]
    removeHop_keeps_None [of "client_headers (req_header r)"] client_headers_forwarding
  have "list_all (\<lambda>k. out_header (proxy_outreq origin r) k = None)
       [''Connection'', ''Keep-Alive'', ''Proxy-Authenticate'', ''Proxy-Authorization'', ''Te'', ''Trailer'',
        ''Transfer-Encoding'', ''Upgrade'', ''Forwarded'', ''X-Forwarded-Host'']"
    by (simp add: proxy_outreq_header default_user_agent_other gone)
  moreover have "out_header (proxy_outreq origin r) ''X-Forwarded-For'' = Some [remoteHost (req_remote r)]"
    "out_header (proxy_outreq origin r) ''X-Forwarded-Proto'' = Some [if req_tls r then ''https'' else ''http'']"
    by (simp_all add: proxy_outreq_header default_user_agent_other)
  ultimately show ?thesis using singleJoiningSlash_rooted [OF assms] by (simp add: proxy_outreq_url)
qed

definition demo_get :: request where
  "demo_get = \<lparr>req_method = ''GET'', req_path = ''/assets/a/seg.ts'', req_rawquery = [],
     req_header = Map.empty, req_remote = ''10.0.0.7:5123'', req_tls = False, req_ctx_done = False\<rparr>"

definition demo_origin :: url_parts where
  "demo_origin = \<lparr>url_scheme = ''https'', url_host = ''origin'', url_path = ''/cdn/''\<rparr>"

theorem upstream_request_witness:
  "out_path (proxy_outreq demo_origin demo_get) = ''/cdn/assets/a/seg.ts'' \<and>
   out_header (proxy_outreq demo_origin demo_get) ''X-Forwarded-Proto'' = Some [''http'']"
  using upstream_request [of demo_get demo_origin]
  by (simp add: demo_get_def demo_origin_def HasPrefix_def HasSuffix_def)

lemma capture_WriteHeader_writer [simp]:
  "cap_writer (capture_WriteHeader c code) = WriteHeader (cap_writer c) code"
  by (simp add: capture_WriteHeader_def)

lemma deliver_spec:
  assumes "copyBuffer 32768 (rs_body resp) = (written, err)" "wr_status (cap_writer c) = None" "200 \<le> rs_status resp"
  shows "wr_status (cap_writer (state_of (deliver served c resp))) = Some (rs_status resp)"
    "wr_body (cap_writer (state_of (deliver served c resp))) = wr_body (cap_writer c) @ written"
    "(\<exists>c'. deliver served c resp = Panicked c') \<longleftrightarrow> served \<and> err \<noteq> None"
    "cap_status (state_of (deliver served c resp)) = rs_status resp"
  using assms by (auto simp: deliver_def Let_def capture_WriteHeader_def)

lemma ModifyResponse_segment:
  assumes "isSegmentLike (pm_ext m)" "0 < pm_maxSegmentBytes m" "rs_body resp = Plain b"
  shows "ModifyResponse (Some m) resp =
     (if pm_maxSegmentBytes m < rs_contentLength resp then Err ErrProxySegmentTooLarge
      else Ok (let h = applyContentHeaders (removeHopByHopHeaders (rs_header resp)) (pm_ext m) False
        in if rs_contentLength resp < 0
           then resp\<lparr>rs_header := Header_Del h ''Content-Length'', rs_trailer := Map.empty,
             rs_body := Capped (limit_body (pm_maxSegmentBytes m) b), rs_contentLength := - 1\<rparr>
           else resp\<lparr>rs_header := h, rs_trailer := Map.empty\<rparr>))"
  using assms by (simp add: ModifyResponse_def Let_def plain_of_def)

definition passed_bytes :: "int \<Rightarrow> response \<Rightarrow> body \<Rightarrow> string" where
  "passed_bytes limit resp b =
     (if rs_contentLength resp < 0 then take (nat limit) (body_bytes b) else body_bytes b)"

text \<open>C25. A proxied media segment, once the upstream has answered with a final status: a declared length above the limit gives 413 and nothing
  of the body; a declared length within it passes the upstream's bytes on; without a declared length the
  client gets the first \<open>max_segment_bytes\<close> bytes. The handler is aborted exactly when a body is cut short by
  the limit or by the upstream.\<close>

theorem proxied_segment:
  assumes "printable (upgradeType (req_header r))"
    and "rt (proxy_outreq origin r) = Some (Ok resp)" "200 \<le> rs_status resp" "rs_body resp = Plain b"
    and "isSegmentLike (pm_ext m)" "0 < pm_maxSegmentBytes m" "pm_maxSegmentBytes m < max_int64"
    and "wr_status (cap_writer c) = None"
  shows "if pm_maxSegmentBytes m < rs_contentLength resp
     then ReverseProxy_ServeHTTP rt origin (Some m) True r c = Returned (capture_writeJSONError c 413 ''segment_too_large'')
     else wr_status (cap_writer (state_of (ReverseProxy_ServeHTTP rt origin (Some m) True r c))) = Some (rs_status resp) \<and>
       wr_body (cap_writer (state_of (ReverseProxy_ServeHTTP rt origin (Some m) True r c))) = wr_body (cap_writer c) @ passed_bytes (pm_maxSegmentBytes m) resp b \<and>
       ((\<exists>c'. ReverseProxy_ServeHTTP rt origin (Some m) True r c = Panicked c') \<longleftrightarrow>
          body_error b \<noteq> None \<or> passed_bytes (pm_maxSegmentBytes m) resp b \<noteq> body_bytes b)"
proof -
  have run: "ReverseProxy_ServeHTTP rt origin (Some m) True r c =
      (case ModifyResponse (Some m) (resp\<lparr>rs_header := httputil_removeHopByHopHeaders (rs_header resp)\<rparr>) of
         Inl e \<Rightarrow> Returned (ErrorHandler c e) | Inr resp2 \<Rightarrow> deliver True c resp2)"
    using assms(1,2,3) by (simp add: ReverseProxy_ServeHTTP_def Let_def split: sum.splits)
  note modify = ModifyResponse_segment [OF assms(5,6)]
  consider "pm_maxSegmentBytes m < rs_contentLength resp"
    | "\<not> pm_maxSegmentBytes m < rs_contentLength resp" "0 \<le> rs_contentLength resp"
    | "\<not> pm_maxSegmentBytes m < rs_contentLength resp" "rs_contentLength resp < 0" by linarith
  then show ?thesis
  proof cases
    case 1
    then show ?thesis using assms(4) by (simp add: run modify ErrorHandler_def)
  next
    case 2
    have copy: "copyBuffer 32768 (Plain b) = (body_bytes b, body_error b)" by (simp add: copy_Plain)
    show ?thesis
      using 2 assms(3,4,8) deliver_spec [of "resp\<lparr>rs_header := h, rs_trailer := Map.empty\<rparr>" for h] copy
      by (simp add: run modify Let_def passed_bytes_def)
  next
    case 3
    have copy: "copyBuffer 32768 (Capped (limit_body (pm_maxSegmentBytes m) b)) =
       (take (nat (pm_maxSegmentBytes m)) (body_bytes b),
        if int (length (body_bytes b)) > pm_maxSegmentBytes m then Some BodyTooLarge else body_error b)"
      using copy_Capped [OF limit_body_inv, of "pm_maxSegmentBytes m" 32768 b] assms(6,7)
      by (auto simp: capped_result_def limit_body_def Let_def)
    have short: "take (nat (pm_maxSegmentBytes m)) (body_bytes b) \<noteq> body_bytes b \<longleftrightarrow>
        int (length (body_bytes b)) > pm_maxSegmentBytes m" using assms(6) by auto
    show ?thesis
      using 3 assms(3,4,8) short
        deliver_spec [of "resp\<lparr>rs_header := h, rs_trailer := Map.empty, rs_body := x, rs_contentLength := - 1\<rparr>" for h x] copy
      by (simp add: run modify Let_def passed_bytes_def)
  qed
qed

definition demo_response :: response where
  "demo_response = \<lparr>rs_status = 200, rs_header = Map.empty, rs_contentLength = - 1,
     rs_body = Plain \<lparr>bd_chunks = [''abc'', ''def''], bd_end = EOF, bd_eager = True\<rparr>, rs_trailer = Map.empty\<rparr>"

text \<open>Six bytes from an upstream that declares no length, against a limit of four: status 200, four bytes, abort.\<close>

theorem proxied_segment_witness:
  "let e = ReverseProxy_ServeHTTP (plainRoundTrip (\<lambda>_. Ok demo_response)) demo_origin
       (Some \<lparr>pm_ext = ''.ts'', pm_maxSegmentBytes = 4, pm_requestPath = ''/assets/a/seg.ts''\<rparr>) True demo_get
       \<lparr>cap_writer = fresh_writer, cap_status = 0\<rparr>
   in wr_status (cap_writer (state_of e)) = Some 200 \<and> wr_body (cap_writer (state_of e)) = ''abcd'' \<and>
      (\<exists>c'. e = Panicked c')"
  using proxied_segment [of demo_get "plainRoundTrip (\<lambda>_. Ok demo_response)" demo_origin demo_response
      "\<lparr>bd_chunks = [''abc'', ''def''], bd_end = EOF, bd_eager = True\<rparr>"
      "\<lparr>pm_ext = ''.ts'', pm_maxSegmentBytes = 4, pm_requestPath = ''/assets/a/seg.ts''\<rparr>"
      "\<lparr>cap_writer = fresh_writer, cap_status = 0\<rparr>"]
  by (simp add: demo_get_def demo_response_def plainRoundTrip_def isSegmentLike_def fresh_writer_def upgradeType_def
      header_values_def HeaderValuesContainsToken_def printable_def passed_bytes_def body_bytes_def Let_def)

end
