(* ===== verification/Proxy_Guard.thy ===== *)
theory Proxy_Guard
  imports Prelude
begin

text \<open>
  Package \<open>proxyguard\<close>: the semaphore that bounds concurrent upstream requests, a buffered channel of
  which only the number of buffered values and the capacity matter. A \<open>nil\<close> semaphore is \<open>None\<close> and admits
  everything. The section on interleavings runs any number of requests through the
  acquire/release discipline of \<open>ServeProxy\<close>, in any order.
\<close>

record Semaphore =
  sem_len :: nat
  sem_cap :: nat

definition NewSemaphore :: "int \<Rightarrow> Semaphore option" where
  "NewSemaphore n = (if n \<le> 0 then None else Some \<lparr>sem_len = 0, sem_cap = nat n\<rparr>)"

definition Acquire :: "Semaphore option \<Rightarrow> bool \<Rightarrow> bool \<times> Semaphore option" where
  "Acquire s ctxDone =
     (case s of
        None \<Rightarrow> (True, None)
      | Some c \<Rightarrow>
          if ctxDone then (False, Some c)
          else if sem_len c < sem_cap c then (True, Some (c\<lparr>sem_len := sem_len c + 1\<rparr>))
          else (False, Some c))"

definition Release :: "Semaphore option \<Rightarrow> Semaphore option" where
  "Release s =
     (case s of
        None \<Rightarrow> None
      | Some c \<Rightarrow> if 0 < sem_len c then Some (c\<lparr>sem_len := sem_len c - 1\<rparr>) else Some c)"

section \<open>The contract of a permit pool\<close>

text \<open>
  What the proxy handler relies on: permits are counted, a grant takes one, a refusal none, a
  return gives one back, and a grant is only refused when no permit is left or the request is over.
\<close>

locale permit_pool =
  fixes acquire :: "'s \<Rightarrow> bool \<Rightarrow> bool \<times> 's"
    and release :: "'s \<Rightarrow> 's"
    and taken :: "'s \<Rightarrow> nat"
    and limit :: "'s \<Rightarrow> nat"
    and wf :: "'s \<Rightarrow> bool"
  assumes wf_taken: "wf s \<Longrightarrow> taken s \<le> limit s"
    and acquire_grant: "wf s \<Longrightarrow> acquire s d = (True, s') \<Longrightarrow>
          wf s' \<and> taken s' = Suc (taken s) \<and> limit s' = limit s"
    and acquire_refuse: "wf s \<Longrightarrow> acquire s d = (False, s') \<Longrightarrow> s' = s"
    and acquire_free: "wf s \<Longrightarrow> taken s < limit s \<Longrightarrow> fst (acquire s False)"
    and release_gives: "wf s \<Longrightarrow> 0 < taken s \<Longrightarrow>
          wf (release s) \<and> taken (release s) = taken s - 1 \<and> limit (release s) = limit s"
begin

text \<open>A run of requests: each event is a request that enters, is refused or leaves.\<close>

lemma grant_bound: "wf s \<Longrightarrow> acquire s d = (True, s') \<Longrightarrow> Suc (taken s) \<le> limit s"
  using acquire_grant wf_taken by metis

lemma full_refuses: "wf s \<Longrightarrow> taken s = limit s \<Longrightarrow> \<not> fst (acquire s d)"
  using grant_bound by (metis Suc_n_not_le_n prod.collapse)

lemma grant_release: "wf s \<Longrightarrow> acquire s d = (True, s') \<Longrightarrow> taken (release s') = taken s \<and> wf (release s')"
  using acquire_grant release_gives by fastforce

end

definition sem_wf :: "Semaphore option \<Rightarrow> bool" where
  "sem_wf s \<longleftrightarrow> (\<exists>c. s = Some c \<and> 0 < sem_cap c \<and> sem_len c \<le> sem_cap c)"

definition sem_taken :: "Semaphore option \<Rightarrow> nat" where
  "sem_taken s = (case s of None \<Rightarrow> 0 | Some c \<Rightarrow> sem_len c)"

definition sem_limit :: "Semaphore option \<Rightarrow> nat" where
  "sem_limit s = (case s of None \<Rightarrow> 0 | Some c \<Rightarrow> sem_cap c)"

interpretation pool: permit_pool Acquire Release sem_taken sem_limit sem_wf
  by unfold_locales
     (auto simp: Acquire_def Release_def sem_wf_def sem_taken_def sem_limit_def split: if_splits)

section \<open>Interleaved requests\<close>

text \<open>
  The state of the upstream section: the semaphore and the requests inside it. \<open>ServeProxy\<close> enters
  after a successful \<open>Acquire\<close> and its deferred \<open>Release\<close> runs on every way out.
\<close>

record guard_state =
  gs_sem :: "Semaphore option"
  gs_inside :: "nat set"

inductive guard_step :: "guard_state \<Rightarrow> guard_state \<Rightarrow> bool" where
  enter: "i \<notin> gs_inside g \<Longrightarrow> Acquire (gs_sem g) d = (True, s') \<Longrightarrow>
     guard_step g (g\<lparr>gs_sem := s', gs_inside := insert i (gs_inside g)\<rparr>)"
| refused: "Acquire (gs_sem g) d = (False, s') \<Longrightarrow> guard_step g (g\<lparr>gs_sem := s'\<rparr>)"
| leave: "i \<in> gs_inside g \<Longrightarrow>
     guard_step g (g\<lparr>gs_sem := Release (gs_sem g), gs_inside := gs_inside g - {i}\<rparr>)"

inductive guard_reachable :: "int \<Rightarrow> guard_state \<Rightarrow> bool" for n :: int where
  start: "guard_reachable n \<lparr>gs_sem = NewSemaphore n, gs_inside = {}\<rparr>"
| step: "guard_reachable n g \<Longrightarrow> guard_step g g' \<Longrightarrow> guard_reachable n g'"

inductive_cases guard_stepE: "guard_step g g'"

definition guard_inv :: "int \<Rightarrow> guard_state \<Rightarrow> bool" where
  "guard_inv n g \<longleftrightarrow>
     finite (gs_inside g) \<and> sem_wf (gs_sem g) \<and>
     sem_taken (gs_sem g) = card (gs_inside g) \<and> sem_limit (gs_sem g) = nat n"

lemma guard_inv_start: "0 < n \<Longrightarrow> guard_inv n \<lparr>gs_sem = NewSemaphore n, gs_inside = {}\<rparr>"
  by (simp add: guard_inv_def NewSemaphore_def sem_wf_def sem_taken_def sem_limit_def)

lemma guard_inv_step [inv_intros]: "guard_step g g' \<Longrightarrow> guard_inv n g \<Longrightarrow> guard_inv n g'"
proof (induction rule: guard_step.induct)
  case (enter i g d s')
  then show ?case
    using pool.acquire_grant [of "gs_sem g" d s'] by (simp add: guard_inv_def)
next
  case (refused g d s')
  then show ?case
    using pool.acquire_refuse [of "gs_sem g" d s'] by (simp add: guard_inv_def)
next
  case (leave i g)
  then have "0 < card (gs_inside g)" by (auto simp: guard_inv_def card_gt_0_iff)
  with leave show ?case
    using pool.release_gives [of "gs_sem g"] by (simp add: guard_inv_def)
qed

lemma guard_reachable_inv: "guard_reachable n g \<Longrightarrow> 0 < n \<Longrightarrow> guard_inv n g"
  by (induction rule: guard_reachable.induct) (auto intro: guard_inv_start inv_intros)

text \<open>C14. However requests interleave, with a positive bound at most that many are inside the
  upstream section, the semaphore counts exactly those, and a request whose context is alive is
  refused only when the section is full: no permit is ever lost.\<close>

theorem upstream_concurrency_bound:
  assumes "guard_reachable n g" and "0 < n"
  shows "finite (gs_inside g) \<and> int (card (gs_inside g)) \<le> n \<and>
         sem_taken (gs_sem g) = card (gs_inside g) \<and>
         (fst (Acquire (gs_sem g) False) \<longleftrightarrow> int (card (gs_inside g)) < n)"
proof -
  have inv: "guard_inv n g" using assms by (rule guard_reachable_inv)
  then have le: "card (gs_inside g) \<le> nat n"
    using pool.wf_taken [of "gs_sem g"] by (auto simp: guard_inv_def)
  have "fst (Acquire (gs_sem g) False) \<longleftrightarrow> card (gs_inside g) < nat n"
    using inv le pool.acquire_free pool.full_refuses
    by (metis guard_inv_def le_neq_implies_less nat_neq_iff)
  with inv le assms(2) show ?thesis by (auto simp: guard_inv_def)
qed

lemma guard_example:
  "guard_reachable 1 \<lparr>gs_sem = Some \<lparr>sem_len = 1, sem_cap = 1\<rparr>, gs_inside = {0}\<rparr>"
proof -
  have "guard_step \<lparr>gs_sem = NewSemaphore 1, gs_inside = {}\<rparr>
     (\<lparr>gs_sem = NewSemaphore 1, gs_inside = {}\<rparr>
        \<lparr>gs_sem := Some \<lparr>sem_len = 1, sem_cap = 1\<rparr>, gs_inside := insert 0 {}\<rparr>)"
    using guard_step.enter [of 0 "\<lparr>gs_sem = NewSemaphore 1, gs_inside = {}\<rparr>" False
        "Some \<lparr>sem_len = 1, sem_cap = 1\<rparr>"]
    by (simp add: NewSemaphore_def Acquire_def)
  then show ?thesis using guard_reachable.step [OF guard_reachable.start] by fastforce
qed

theorem upstream_concurrency_bound_witness:
  "guard_reachable 1 \<lparr>gs_sem = Some \<lparr>sem_len = 1, sem_cap = 1\<rparr>, gs_inside = {0}\<rparr> \<and>
   \<not> fst (Acquire (Some \<lparr>sem_len = 1, sem_cap = 1\<rparr>) False)"
  using guard_example upstream_concurrency_bound [OF guard_example] by simp

end
