(* ===== verification/Assets_Handler.thy ===== *)
theory Assets_Handler
  imports Assets_Proxy Fs_Secure Proxy_Guard Metrics
begin

text \<open>
  The asset handler of \<open>handler.go\<close>: configuration, \<open>serveHTTP\<close>, \<open>TryServeLocal\<close> and \<open>ServeProxy\<close>.
  The state that outlives a call is the writer, the semaphore and the metrics trace; a call ends by returning or by a
  panic, and deferred calls run in both cases. The environment of a call (file-system snapshots, working
  directory, clock, transport, keyed hash and \<open>http.ServeContent\<close>) is one record of parameters.
\<close>

section \<open>Configuration\<close>

record HandlerConfig =
  hc_AssetsRoot :: string
  hc_MaxSegmentBytes :: int
  hc_CORSEnabled :: bool
  hc_StorageMode :: string
  hc_OriginBaseURL :: string
  hc_OriginAuthMode :: string
  hc_OriginSigner :: OriginSigner
  hc_ProxyMaxUpstreamConcurrency :: int
  hc_ProxySemaphore :: "Semaphore option"

definition normalizeStorageMode :: "string \<Rightarrow> string" where
  "normalizeStorageMode mode =
     (let m = ToLower (TrimSpace mode)
      in if m = ''proxy'' then ''proxy'' else if m = ''hybrid'' then ''hybrid'' else ''filesystem'')"

definition normalizeOriginAuthMode :: "string \<Rightarrow> string" where
  "normalizeOriginAuthMode mode = (if ToLower (TrimSpace mode) = ''hmac'' then ''hmac'' else ''none'')"

text \<open>
  The handler value. The reverse proxy is determined by the origin it was built for and by the authentication mode,
  which decides whether its transport signs.
\<close>

record handler =
  hd_cfg :: HandlerConfig
  hd_mode :: string
  hd_originAuthMode :: string
  hd_originSigner :: OriginSigner
  hd_proxy :: "url_parts option"

text \<open>\<open>url.Parse\<close> is a parameter: \<open>None\<close> is a parse error.\<close>

definition initProxy :: "(string \<Rightarrow> url_parts option) \<Rightarrow> handler \<Rightarrow> handler" where
  "initProxy urlParse h =
     (if hd_mode h \<noteq> ''proxy'' \<and> hd_mode h \<noteq> ''hybrid'' then h
      else case urlParse (TrimSpace (hc_OriginBaseURL (hd_cfg h))) of
        None \<Rightarrow> h
      | Some origin \<Rightarrow>
          if url_scheme origin = [] \<or> url_host origin = [] then h else h\<lparr>hd_proxy := Some origin\<rparr>)"

definition NewHandler :: "(string \<Rightarrow> url_parts option) \<Rightarrow> HandlerConfig \<Rightarrow> handler \<times> Semaphore option" where
  "NewHandler urlParse cfg =
     (let sem = (if hc_ProxySemaphore cfg = None \<and> 0 < hc_ProxyMaxUpstreamConcurrency cfg
                 then NewSemaphore (hc_ProxyMaxUpstreamConcurrency cfg) else hc_ProxySemaphore cfg)
      in (initProxy urlParse
            \<lparr>hd_cfg = cfg, hd_mode = normalizeStorageMode (hc_StorageMode cfg),
             hd_originAuthMode = normalizeOriginAuthMode (hc_OriginAuthMode cfg),
             hd_originSigner = hc_OriginSigner cfg, hd_proxy = None\<rparr>, sem))"

section \<open>The environment and the state of a request\<close>

record world =
  wd_getwd :: "string option"
  wd_fs0 :: fs
  wd_fs1 :: fs
  wd_fs2 :: fs
  wd_serveContent :: "writer \<Rightarrow> request \<Rightarrow> string \<Rightarrow> int \<Rightarrow> osfile \<Rightarrow> writer"
  wd_transport :: transport
  wd_hmac :: keyed_hash
  wd_now :: int
  wd_since :: "nat \<Rightarrow> int"
  wd_served :: bool

record serve_state =
  sv_writer :: writer
  sv_sem :: "Semaphore option"
  sv_metrics :: metrics

definition setAccessLogField :: "writer \<Rightarrow> string \<Rightarrow> field_val \<Rightarrow> writer" where
  "setAccessLogField w key value = w\<lparr>wr_fields := map_option (\<lambda>m. m(key \<mapsto> value)) (wr_fields w)\<rparr>"

definition Milliseconds :: "int \<Rightarrow> int" where
  "Milliseconds d = quot d 1000000"

definition writeErrorStatus :: "writer \<Rightarrow> int \<Rightarrow> writer" where
  "writeErrorStatus w status =
     (if status = 400 then writeJSONError w 400 ''invalid_request''
      else if status = 404 then writeJSONError w 404 ''not_found''
      else if status = 413 then writeJSONError w 413 ''segment_too_large''
      else writeJSONError w 500 ''internal_error'')"

section \<open>Serving\<close>

datatype local_error = OpenError fserr | SegmentTooLarge

definition TryServeLocal ::
  "world \<Rightarrow> handler \<Rightarrow> writer \<Rightarrow> request \<Rightarrow> assetRequest \<Rightarrow> bool \<times> int \<times> local_error option \<times> writer" where
  "TryServeLocal env h w r req =
     (case OpenFileNoSymlinks (wd_fs0 env) (wd_fs1 env) (wd_fs2 env) (rq_root req) (rq_filename req) of
        Inl err \<Rightarrow>
          (if err = OsErr NotExist then (False, 404, Some (OpenError err), w)
           else if err = ErrSymlink then (False, 404, Some (OpenError err), w)
           else if err = ErrNotRegular \<or> err = ErrInvalidFilename then (False, 404, Some (OpenError err), w)
           else (False, 500, Some (OpenError err), w))
      | Inr (fl, st) \<Rightarrow>
          if isSegmentLike (rq_ext req) \<and> 0 < hc_MaxSegmentBytes (hd_cfg h) \<and>
             hc_MaxSegmentBytes (hd_cfg h) < fi_size st
          then (False, 413, Some SegmentTooLarge, w)
          else (True, 200, None,
                wd_serveContent env (setContentHeaders w (rq_ext req)) r (Base (rq_filename req)) (fi_modtime st) fl))"

definition roundTripper :: "world \<Rightarrow> handler \<Rightarrow> outreq \<Rightarrow> (proxy_error, response) result option" where
  "roundTripper env h =
     (if hd_originAuthMode h = ''hmac''
      then signingRoundTrip (wd_hmac env) (wd_now env) (hd_originSigner h) (wd_transport env)
      else plainRoundTrip (wd_transport env))"

text \<open>
  The part of \<open>ServeProxy\<close> that runs with the permit. A panic of the proxy skips the access-log fields and
  the metrics.
\<close>

definition proxy_inner ::
  "world \<Rightarrow> handler \<Rightarrow> url_parts \<Rightarrow> request \<Rightarrow> assetRequest \<Rightarrow> serve_state \<Rightarrow> serve_state ended" where
  "proxy_inner env h origin r req st =
     (let meta = \<lparr>pm_ext = rq_ext req, pm_maxSegmentBytes = hc_MaxSegmentBytes (hd_cfg h), pm_requestPath = req_path r\<rparr>;
          capture = \<lparr>cap_writer = sv_writer st, cap_status = 0\<rparr>
      in case ReverseProxy_ServeHTTP (roundTripper env h) origin (Some meta) (wd_served env) r capture of
           Panicked c \<Rightarrow> Panicked (st\<lparr>sv_writer := cap_writer c\<rparr>)
         | Returned c \<Rightarrow>
             (let w1 = setAccessLogField (cap_writer c) ''upstream_status'' (FInt (capture_Status c));
                  w2 = setAccessLogField w1 ''upstream_latency_ms'' (FInt (Milliseconds (wd_since env 0)))
              in Returned (st\<lparr>sv_writer := w2,
                   sv_metrics := ObserveProxy (capture_Status c) (wd_since env 1) (proxyResult (capture_Status c)) (sv_metrics st)\<rparr>)))"

primrec run_deferred :: "('a \<Rightarrow> 'a) \<Rightarrow> 'a ended \<Rightarrow> 'a ended" where
  "run_deferred f (Returned x) = Returned (f x)"
| "run_deferred f (Panicked x) = Panicked (f x)"

definition ServeProxy :: "world \<Rightarrow> handler \<Rightarrow> request \<Rightarrow> assetRequest \<Rightarrow> serve_state \<Rightarrow> serve_state ended" where
  "ServeProxy env h r req st =
     (case hd_proxy h of
        None \<Rightarrow>
          Returned (st\<lparr>sv_writer := writeJSONError (sv_writer st) 500 ''proxy_not_configured'',
                       sv_metrics := ObserveProxy 500 (wd_since env 0) ''error'' (sv_metrics st)\<rparr>)
      | Some origin \<Rightarrow>
          if hd_originAuthMode h = ''hmac'' \<and> hd_originSigner h = NilSigner then
            Returned (st\<lparr>sv_writer := writeJSONError (sv_writer st) 503 ''upstream_auth_unavailable'',
                         sv_metrics := ObserveProxy 503 (wd_since env 0) ''upstream_auth_unavailable'' (sv_metrics st)\<rparr>)
          else if sv_sem st \<noteq> None then
            (case Acquire (sv_sem st) (req_ctx_done r) of
               (False, sem) \<Rightarrow>
                 (let w1 = writeJSONError (sv_writer st) 503 ''upstream_busy'';
                      w2 = setAccessLogField w1 ''upstream_status'' (FInt 503);
                      w3 = setAccessLogField w2 ''upstream_latency_ms'' (FInt (Milliseconds (wd_since env 0)))
                  in Returned \<lparr>sv_writer = w3, sv_sem = sem,
                       sv_metrics = ObserveProxy 503 (wd_since env 1) ''upstream_busy''
                         (IncProxyUpstreamBusy (sv_metrics st))\<rparr>)
             | (True, sem) \<Rightarrow>
                 run_deferred (\<lambda>s. s\<lparr>sv_sem := Release (sv_sem s),
                                   sv_metrics := IncProxyUpstreamInFlight_done (sv_metrics s)\<rparr>)
                   (proxy_inner env h origin r req
                      (st\<lparr>sv_sem := sem, sv_metrics := IncProxyUpstreamInFlight (sv_metrics st)\<rparr>)))
          else proxy_inner env h origin r req st)"

definition serveHTTP :: "world \<Rightarrow> handler \<Rightarrow> request \<Rightarrow> serve_state \<Rightarrow> serve_state ended" where
  "serveHTTP env h r st =
     (let write = (\<lambda>w. Returned (st\<lparr>sv_writer := w\<rparr>))
      in if req_method r \<noteq> ''GET'' \<and> req_method r \<noteq> ''HEAD'' then
           (if req_method r = ''OPTIONS'' then
              (if hc_CORSEnabled (hd_cfg h) then write (writeJSONError (sv_writer st) 403 ''cors_origin_forbidden'')
               else write (writeJSONError (sv_writer st) 404 ''not_found''))
            else write (writeJSONError (sv_writer st) 405 ''method_not_allowed''))
         else case parseRequest (wd_getwd env) (hc_AssetsRoot (hd_cfg h)) (req_path r) of
           Inl (status, _) \<Rightarrow> write (writeErrorStatus (sv_writer st) status)
         | Inr req \<Rightarrow>
             (let w = setAccessLogField (sv_writer st) ''mode'' (FStr (hd_mode h))
              in if hd_mode h = ''proxy'' then ServeProxy env h r req (st\<lparr>sv_writer := w\<rparr>)
                 else if hd_mode h = ''hybrid'' then
                   (case TryServeLocal env h w r req of
                      (served, localStatus, localErr, w') \<Rightarrow>
                        if served then write w'
                        else if localErr \<noteq> None \<and> localStatus \<noteq> 404 then write (writeErrorStatus w' localStatus)
                        else ServeProxy env h r req (st\<lparr>sv_writer := w'\<rparr>))
                 else
                   (case TryServeLocal env h w r req of
                      (served, localStatus, _, w') \<Rightarrow>
                        if served then write w' else write (writeErrorStatus w' localStatus))))"

section \<open>Permits and panics\<close>

definition inflight :: "metrics \<Rightarrow> int" where
  "inflight m = (case m of None \<Rightarrow> 0 | Some es \<Rightarrow> gauge_delta ''audistro_provider_proxy_upstream_inflight'' es)"

lemma inflight_emit: "inflight (emit es m) =
    (case m of None \<Rightarrow> 0 | Some l \<Rightarrow> inflight m + gauge_delta ''audistro_provider_proxy_upstream_inflight'' es)"
  by (cases m) (simp_all add: inflight_def)

lemma inflight_ops [simp]:
  "inflight (ObserveProxy s d res m) = inflight m" "inflight (IncProxyUpstreamBusy m) = inflight m"
  "inflight (IncProxyUpstreamInFlight_done m) = inflight m - (if m = None then 0 else 1)"
  "inflight (IncProxyUpstreamInFlight m) = inflight m + (if m = None then 0 else 1)"
  by (auto simp: metrics_ops inflight_emit event_def inflight_def split: option.splits)

lemma metrics_None [simp]:
  "ObserveProxy s d res m = None \<longleftrightarrow> m = None" "IncProxyUpstreamInFlight m = None \<longleftrightarrow> m = None"
  by (auto simp: metrics_ops emit_def)

lemma proxy_inner_frame:
  "sv_sem (state_of (proxy_inner env h origin r req st)) = sv_sem st"
  "inflight (sv_metrics (state_of (proxy_inner env h origin r req st))) = inflight (sv_metrics st)"
  "sv_metrics (state_of (proxy_inner env h origin r req st)) = None \<longleftrightarrow> sv_metrics st = None"
  by (simp_all add: proxy_inner_def Let_def split: ended.split)

lemma state_of_run_deferred [simp]: "state_of (run_deferred f e) = f (state_of e)"
  by (cases e) simp_all

lemma Acquire_Release: "Acquire s d = (True, s') \<Longrightarrow> Release s' = s"
  by (auto simp: Acquire_def Release_def split: option.splits if_splits)

lemma Acquire_refused: "Acquire s d = (False, s') \<Longrightarrow> s' = s"
  by (auto simp: Acquire_def split: option.splits if_splits)

lemma ServeProxy_balanced:
  "sv_sem (state_of (ServeProxy env h r req st)) = sv_sem st \<and>
   inflight (sv_metrics (state_of (ServeProxy env h r req st))) = inflight (sv_metrics st)"
proof (cases "Acquire (sv_sem st) (req_ctx_done r)")
  case (Pair ok sem)
  then show ?thesis
    using Acquire_Release Acquire_refused
    by (auto simp: ServeProxy_def Let_def proxy_inner_frame split: option.split bool.split)
qed

lemma TryServeLocal_writer_indep:
  "fst (TryServeLocal env h w r req) = fst (TryServeLocal env h w' r req)"
  "fst (snd (TryServeLocal env h w r req)) = fst (snd (TryServeLocal env h w' r req))"
  by (simp_all add: TryServeLocal_def split: sum.splits prod.splits)

lemma TryServeLocal_cases:
  "TryServeLocal env h w r req = (served, status, err, w') \<Longrightarrow>
     (served \<longrightarrow> status = 200 \<and> err = None) \<and>
     (\<not> served \<longrightarrow> w' = w \<and> err \<noteq> None \<and> status \<in> {404, 413, 500})"
  by (auto simp: TryServeLocal_def split: sum.splits prod.splits if_splits)

section \<open>Properties\<close>

text \<open>No request leaks a permit: when the handler is done, by returning or by a panic on any path, the semaphore is
  what it was before and the in-flight gauge went up as often as down.\<close>

theorem permits_restored:
  "sv_sem (state_of (serveHTTP env h r st)) = sv_sem st \<and>
   inflight (sv_metrics (state_of (serveHTTP env h r st))) = inflight (sv_metrics st)"
  using ServeProxy_balanced
  by (auto simp: serveHTTP_def Let_def split: sum.split prod.split)

text \<open>Methods other than GET and HEAD end at once with an error and touch nothing but the response: 405,
  or for OPTIONS 403 with CORS enabled and 404 without.\<close>

theorem method_gate:
  assumes "req_method r \<notin> {''GET'', ''HEAD''}"
  shows "serveHTTP env h r st = Returned (st\<lparr>sv_writer :=
     (if req_method r \<noteq> ''OPTIONS'' then writeJSONError (sv_writer st) 405 ''method_not_allowed''
      else if hc_CORSEnabled (hd_cfg h) then writeJSONError (sv_writer st) 403 ''cors_origin_forbidden''
      else writeJSONError (sv_writer st) 404 ''not_found'')\<rparr>)"
  using assms by (simp add: serveHTTP_def Let_def)

text \<open>The upstream is asked only when the configuration says so: outside proxy mode, with any two
  transports the handler does the same, unless it runs in hybrid mode and the local lookup of an accepted request ended
  with 404.\<close>

theorem upstream_only_on_local_miss:
  assumes "hd_mode h \<noteq> ''proxy''"
    and "\<And>req. hd_mode h = ''hybrid'' \<Longrightarrow>
      parseRequest (wd_getwd env) (hc_AssetsRoot (hd_cfg h)) (req_path r) = Ok req \<Longrightarrow>
      fst (snd (TryServeLocal env h fresh_writer r req)) \<noteq> 404"
  shows "serveHTTP (env\<lparr>wd_transport := t\<rparr>) h r st = serveHTTP env h r st"
proof -
  have local: "TryServeLocal (env\<lparr>wd_transport := t\<rparr>) h w r req = TryServeLocal env h w r req" for w req
    by (simp add: TryServeLocal_def split: sum.split prod.split)
  have "localErr \<noteq> None \<and> localStatus \<noteq> 404"
    if "hd_mode h = ''hybrid''" "parseRequest (wd_getwd env) (hc_AssetsRoot (hd_cfg h)) (req_path r) = Ok req"
      "TryServeLocal env h w r req = (False, localStatus, localErr, w')" for w req localStatus localErr w'
    using assms(2) [OF that(1,2)] TryServeLocal_writer_indep(2) [of env h fresh_writer r req w] that(3)
      TryServeLocal_cases [OF that(3)] by auto
  then show ?thesis
    using assms(1) by (auto simp: serveHTTP_def Let_def local split: sum.split prod.split)
qed

text \<open>C4. What is served from disk: the file handed to \<open>http.ServeContent\<close> was opened at the request's own
  target, where \<open>lstat\<close> had seen a regular file of the same identity, and a media segment is no longer than the
  configured maximum. The response headers were set for its extension before.\<close>

theorem local_file_served:
  assumes "parseRequest (wd_getwd env) (hc_AssetsRoot (hd_cfg h)) (req_path r) = Ok req"
    and "TryServeLocal env h w r req = (True, status, err, w')"
  shows "\<exists>f info. regular_entry (wd_fs1 env) (wd_fs2 env) (rq_target req) f \<and> fl_stat f = Ok info \<and>
     fi_mode info = Regular \<and>
     w' = wd_serveContent env (setContentHeaders w (rq_ext req)) r (Base (rq_filename req)) (fi_modtime info) f \<and>
     (isSegmentLike (rq_ext req) \<and> 0 < hc_MaxSegmentBytes (hd_cfg h) \<longrightarrow> fi_size info \<le> hc_MaxSegmentBytes (hd_cfg h))"
proof -
  have target: "rq_target req = Join [rq_root req, rq_filename req]"
    using assms(1) by (auto simp: parseRequest_Ok_iff)
  obtain f info where op: "OpenFileNoSymlinks (wd_fs0 env) (wd_fs1 env) (wd_fs2 env) (rq_root req) (rq_filename req) = Ok (f, info)"
    using assms(2) by (auto simp: TryServeLocal_def split: sum.splits if_splits)
  with assms(2) show ?thesis
    using opener.opened_facts [OF op] unfolding target by (auto simp: TryServeLocal_def split: if_splits)
qed

text \<open>
  The requests a signing transport passes on: they carry the signature of their own method, path, time and
  nonce under the signer's secret.
\<close>

definition carries_signature :: "keyed_hash \<Rightarrow> HMACSigner \<Rightarrow> int \<Rightarrow> outreq \<Rightarrow> bool" where
  "carries_signature hmac s now req \<longleftrightarrow>
     (\<exists>nb. length nb = 16 \<and>
        out_header req ''X-Audistroprovider-Nonce'' = Some [hex_EncodeToString nb] \<and>
        out_header req ''X-Audistroprovider-Timestamp'' = Some [FormatInt (Unix now)] \<and>
        out_header req ''X-Audistroprovider-Signature'' =
          Some [hex_EncodeToString (hmac (hs_secret s) (canonical s req now nb))])"

lemma canonical_header_indep: "canonical s (r\<lparr>out_header := h\<rparr>) now nb = canonical s r now nb"
  by (simp add: canonical_def pathWithQuery_def Let_def)

lemma Sign_carries_signature: "Sign hmac s (Some r) now = Ok r' \<Longrightarrow> carries_signature hmac s now r'"
  by (erule Sign_Ok)
     (auto simp: carries_signature_def signWithNonce_def Let_def Header_Set_def signer_header_keys canonical_header_indep
       split: if_splits)

text \<open>C8. With origin authentication on, nothing reaches the network unsigned: two transports that agree on
  requests carrying a valid signature cannot be told apart by any request to the handler.\<close>

theorem hmac_mode_signs:
  assumes "hd_originAuthMode h = ''hmac''"
    and "\<And>s req. hd_originSigner h = SomeSigner s \<Longrightarrow> carries_signature (wd_hmac env) s (wd_now env) req \<Longrightarrow>
          t req = wd_transport env req"
  shows "serveHTTP (env\<lparr>wd_transport := t\<rparr>) h r st = serveHTTP env h r st"
proof -
  have rt: "roundTripper (env\<lparr>wd_transport := t\<rparr>) h = roundTripper env h"
    using assms Sign_carries_signature
    by (auto simp: roundTripper_def signingRoundTrip_def fun_eq_iff split: OriginSigner.split sum.split)
  have local: "TryServeLocal (env\<lparr>wd_transport := t\<rparr>) h w r req = TryServeLocal env h w r req" for w req
    by (simp add: TryServeLocal_def split: sum.split prod.split)
  have "proxy_inner (env\<lparr>wd_transport := t\<rparr>) h origin r req st = proxy_inner env h origin r req st" for origin req st
    by (simp add: proxy_inner_def rt Let_def split: ended.split)
  then have "ServeProxy (env\<lparr>wd_transport := t\<rparr>) h r req st = ServeProxy env h r req st" for req st
    by (auto simp: ServeProxy_def split: option.split prod.split bool.split)
  then show ?thesis by (simp add: serveHTTP_def local Let_def split: sum.split prod.split)
qed

text \<open>C27. Origin authentication with a missing key: a nil interface is answered with 503 before the semaphore
  is touched, but a nil pointer inside the interface passes that check and the request panics without a response
  as soon as it holds a permit.\<close>

theorem missing_signer:
  assumes "hd_originAuthMode h = ''hmac''" "hd_proxy h = Some origin" "printable (upgradeType (req_header r))"
    and "sv_sem st = None \<or> fst (Acquire (sv_sem st) (req_ctx_done r))"
  shows "(hd_originSigner h = NilSigner \<longrightarrow>
      sv_writer (state_of (ServeProxy env h r req st)) = writeJSONError (sv_writer st) 503 ''upstream_auth_unavailable'') \<and>
    (hd_originSigner h = NilPointer \<longrightarrow>
      (\<exists>st'. ServeProxy env h r req st = Panicked st' \<and> sv_writer st' = sv_writer st \<and> sv_sem st' = sv_sem st))"
proof -
  have "hd_originSigner h = NilPointer \<Longrightarrow>
      proxy_inner env h origin r req s = Panicked s" for s
    using assms(1,3) by (simp add: proxy_inner_def Let_def ReverseProxy_ServeHTTP_def roundTripper_def signingRoundTrip_def)
  then show ?thesis
    using assms Acquire_Release
    by (cases "Acquire (sv_sem st) (req_ctx_done r)") (auto simp: ServeProxy_def split: bool.split)
qed

section \<open>A concrete handler\<close>

definition demo_cfg :: HandlerConfig where
  "demo_cfg = \<lparr>hc_AssetsRoot = ''/d'', hc_MaxSegmentBytes = 10, hc_CORSEnabled = True, hc_StorageMode = ''hybrid'',
     hc_OriginBaseURL = ''https://origin/cdn/'', hc_OriginAuthMode = ''hmac'', hc_OriginSigner = NilPointer,
     hc_ProxyMaxUpstreamConcurrency = 2, hc_ProxySemaphore = None\<rparr>"

definition demo_handler :: handler where
  "demo_handler = \<lparr>hd_cfg = demo_cfg, hd_mode = ''hybrid'', hd_originAuthMode = ''hmac'',
     hd_originSigner = NilPointer, hd_proxy = Some demo_origin\<rparr>"

definition demo_world :: world where
  "demo_world = \<lparr>wd_getwd = Some ''/srv'', wd_fs0 = demo_fs, wd_fs1 = demo_fs, wd_fs2 = demo_fs,
     wd_serveContent = (\<lambda>w r n t f. Write w (fl_content f)), wd_transport = (\<lambda>_. Ok demo_response),
     wd_hmac = (\<lambda>k m. k), wd_now = 0, wd_since = (\<lambda>_. 0), wd_served = True\<rparr>"

definition demo_local_get :: request where
  "demo_local_get = demo_get\<lparr>req_path := ''/assets/a1/s.ts''\<rparr>"

definition demo_req :: assetRequest where
  "demo_req = \<lparr>rq_assetID = ''a1'', rq_filename = ''s.ts'', rq_ext = ''.ts'', rq_root = ''/d/a1'', rq_target = ''/d/a1/s.ts''\<rparr>"

lemma demo_parse: "parseRequest (Some ''/srv'') ''/d'' ''/assets/a1/s.ts'' = Ok demo_req"
  unfolding demo_req_def by code_simp

lemma demo_parse_world: "parseRequest (wd_getwd demo_world) (hc_AssetsRoot (hd_cfg demo_handler)) (req_path demo_local_get) = Ok demo_req"
  using demo_parse by (simp add: demo_world_def demo_handler_def demo_cfg_def demo_local_get_def)

lemma demo_try: "TryServeLocal demo_world demo_handler w demo_local_get demo_req =
    (True, 200, None, Write (setContentHeaders w ''.ts'') ''abc'')"
  by (simp add: TryServeLocal_def demo_world_def demo_req_def demo_open demo_handler_def demo_cfg_def demo_info_def)

definition demo_state :: serve_state where
  "demo_state = \<lparr>sv_writer = fresh_writer, sv_sem = NewSemaphore 2, sv_metrics = Some []\<rparr>"

theorem method_gate_witness:
  "serveHTTP demo_world demo_handler (demo_get\<lparr>req_method := ''POST''\<rparr>) demo_state =
     Returned (demo_state\<lparr>sv_writer := writeJSONError fresh_writer 405 ''method_not_allowed''\<rparr>)"
  using method_gate [of "demo_get\<lparr>req_method := ''POST''\<rparr>" demo_world demo_handler demo_state]
  by (simp add: demo_state_def)

theorem upstream_only_on_local_miss_witness:
  "serveHTTP (demo_world\<lparr>wd_transport := \<lambda>_. Err ''down''\<rparr>) demo_handler demo_local_get
     demo_state =
   serveHTTP demo_world demo_handler demo_local_get demo_state"
  by (rule upstream_only_on_local_miss) (auto simp: demo_parse_world demo_try, simp add: demo_handler_def)

theorem local_file_served_witness:
  "\<exists>f. regular_entry demo_fs demo_fs ''/d/a1/s.ts'' f"
  using local_file_served [OF demo_parse_world demo_try, of fresh_writer]
  by (auto simp: demo_world_def demo_req_def)

theorem hmac_mode_signs_witness:
  "serveHTTP (demo_world\<lparr>wd_transport := \<lambda>req. if carries_signature (\<lambda>k m. k) demo_signer 0 req then Ok demo_response else Err ''unsigned''\<rparr>)
     (demo_handler\<lparr>hd_originSigner := SomeSigner demo_signer\<rparr>) demo_get
     demo_state =
   serveHTTP demo_world (demo_handler\<lparr>hd_originSigner := SomeSigner demo_signer\<rparr>) demo_get
     demo_state"
  by (rule hmac_mode_signs) (auto simp: demo_handler_def demo_world_def)

theorem missing_signer_witness:
  "\<exists>st'. ServeProxy demo_world demo_handler demo_get demo_req
       demo_state = Panicked st' \<and>
     sv_writer st' = fresh_writer \<and> sv_sem st' = NewSemaphore 2"
  using missing_signer [of demo_handler demo_origin demo_get
      demo_state demo_world demo_req]
  by (simp add: demo_handler_def demo_get_def upgradeType_def header_values_def HeaderValuesContainsToken_def
      printable_def NewSemaphore_def Acquire_def demo_state_def)

end
