(* ===== verification/Assets_Cors.thy ===== *)
theory Assets_Cors
  imports Assets_Request
begin

text \<open>
  \<open>cors.go\<close>: the list of allowed origins and the middleware in front of the asset handler. The set of
  origins, a Go map to empty structs, is a set.
\<close>

record CORSConfig =
  cc_AllowedOrigins :: "string set"
  cc_AllowCredentials :: bool

definition ParseAllowedOrigins :: "string \<Rightarrow> string set" where
  "ParseAllowedOrigins csv =
     fold (\<lambda>part origins. let origin = TrimSpace part in if origin = [] then origins else insert origin origins)
       (Split csv CHR '','') {}"

definition setCORSHeaders :: "writer \<Rightarrow> string \<Rightarrow> bool \<Rightarrow> string \<Rightarrow> string \<Rightarrow> string \<Rightarrow> writer" where
  "setCORSHeaders w origin allowCredentials allowMethods allowHeaders exposeHeaders =
     (let h0 = wr_header w;
          h1 = Header_Set h0 ''Access-Control-Allow-Origin'' origin;
          h2 = Header_Add h1 ''Vary'' ''Origin'';
          h3 = (if allowCredentials then Header_Set h2 ''Access-Control-Allow-Credentials'' ''true'' else h2);
          h4 = Header_Set h3 ''Access-Control-Allow-Methods'' allowMethods;
          h5 = Header_Set h4 ''Access-Control-Allow-Headers'' allowHeaders;
          h6 = Header_Set h5 ''Access-Control-Expose-Headers'' exposeHeaders
      in w\<lparr>wr_header := h6\<rparr>)"

definition corsMiddleware :: "CORSConfig \<Rightarrow> 's http_handler \<Rightarrow> 's http_handler" where
  "corsMiddleware cfg next r w s =
     (let allowMethods = ''GET, HEAD, OPTIONS'';
          allowHeaders = ''Range, If-Modified-Since, If-None-Match, Origin, Accept, Content-Type'';
          exposeHeaders = ''Content-Length, Content-Range, Accept-Ranges, ETag, Last-Modified'';
          origin = Header_Get (req_header r) ''Origin'';
          allowed = origin \<in> cc_AllowedOrigins cfg;
          cors = setCORSHeaders w origin (cc_AllowCredentials cfg) allowMethods allowHeaders exposeHeaders
      in if req_method r = ''OPTIONS'' then
           (if \<not> allowed then Returned (writeJSONError w 403 ''cors_origin_forbidden'', s)
            else Returned (WriteHeader cors 204, s))
         else next r (if allowed then cors else w) s)"

section \<open>Properties\<close>

lemma fold_origins:
  "fold (\<lambda>part origins. let origin = TrimSpace part in if origin = [] then origins else insert origin origins) ps acc =
     acc \<union> {TrimSpace p | p. p \<in> set ps \<and> TrimSpace p \<noteq> []}"
  by (induction ps arbitrary: acc) (auto simp: Let_def)

lemma cors_keys:
  "CanonicalHeaderKey ''Access-Control-Allow-Origin'' = ''Access-Control-Allow-Origin''"
  "CanonicalHeaderKey ''Access-Control-Allow-Credentials'' = ''Access-Control-Allow-Credentials''"
  "CanonicalHeaderKey ''Access-Control-Allow-Methods'' = ''Access-Control-Allow-Methods''"
  "CanonicalHeaderKey ''Access-Control-Allow-Headers'' = ''Access-Control-Allow-Headers''"
  "CanonicalHeaderKey ''Access-Control-Expose-Headers'' = ''Access-Control-Expose-Headers''"
  "CanonicalHeaderKey ''Vary'' = ''Vary''"
  by code_simp+

lemma setCORSHeaders_allow_origin [simp]:
  "wr_header (setCORSHeaders w origin c m hs e) ''Access-Control-Allow-Origin'' = Some [origin]"
  "wr_header (setCORSHeaders w origin c m hs e) ''Access-Control-Allow-Credentials'' =
     (if c then Some [''true''] else wr_header w ''Access-Control-Allow-Credentials'')"
  "wr_status (setCORSHeaders w origin c m hs e) = wr_status w"
  by (simp_all add: setCORSHeaders_def Let_def Header_Set_def Header_Add_def cors_keys)

lemma empty_origin_never_allowed: "[] \<notin> ParseAllowedOrigins csv"
  by (auto simp: ParseAllowedOrigins_def fold_origins)

definition origin_listed :: "string \<Rightarrow> string \<Rightarrow> bool" where
  "origin_listed csv origin \<longleftrightarrow> origin \<noteq> [] \<and> origin \<in> TrimSpace ` set (Split csv CHR '','')"



end
