(* ===== verification/Go_Float.thy ===== *)
theory Go_Float
  imports Prelude Complex_Main "HOL-Library.Log_Nat"
begin

text \<open>
  Go's \<open>float64\<close> as rational numbers with the rounding written out: every operation computes the
  exact result and rounds it to 53 significant bits, ties to even. Overflow and subnormal numbers
  are left out: the program's only floats are token counts, whole and fractional seconds and their
  products, all between 1e-30 and 1e30 in magnitude or zero. A compiler that fuses a multiplication and an addition
  rounds once where the model rounds twice. The locales list what the clients of the rounding rely on; the second one
  adds a bound on the relative error.
\<close>

section \<open>The contract of a rounding\<close>

locale rounding =
  fixes fl :: "rat \<Rightarrow> rat"
  assumes fl_mono: "x \<le> y \<Longrightarrow> fl x \<le> fl y"
    and fl_idem: "fl (fl x) = fl x"
    and fl_zero: "fl 0 = 0"
begin

lemma fl_nonneg: "0 \<le> x \<Longrightarrow> 0 \<le> fl x"
  using fl_mono [of 0 x] fl_zero by simp

lemma fl_le_rep: "fl b = b \<Longrightarrow> x \<le> b \<Longrightarrow> fl x \<le> b"
  using fl_mono [of x b] by simp

end

locale relative_rounding = rounding +
  fixes u :: rat
  assumes u_nonneg: "0 \<le> u"
    and fl_upper: "0 \<le> x \<Longrightarrow> fl x \<le> x * (1 + u)"
    and fl_positive: "0 < x \<Longrightarrow> 0 < fl x"
begin

lemma fl_nonpos: "x \<le> 0 \<Longrightarrow> fl x \<le> 0"
  using fl_mono [of x 0] fl_zero by simp

lemma fl_upper_step:
  assumes "0 \<le> x" "x \<le> y * (1 + u) ^ k"
  shows "fl x \<le> y * (1 + u) ^ Suc k"
proof -
  have "x * (1 + u) \<le> y * (1 + u) ^ k * (1 + u)" using assms(2) u_nonneg by (intro mult_right_mono) simp_all
  then show ?thesis using fl_upper [OF assms(1)] by (simp add: mult.assoc mult.commute [of "1 + u"])
qed

lemma fl_upper_capped:
  assumes "0 \<le> x" "x \<le> b"
  shows "fl x \<le> x + u * b"
proof -
  have "u * x \<le> u * b" using assms(2) u_nonneg by (rule mult_left_mono)
  then show ?thesis using fl_upper [OF assms(1)] by (simp add: algebra_simps)
qed

end

section \<open>Rounding to 53 bits\<close>

definition round_half_even :: "rat \<Rightarrow> int" where
  "round_half_even y =
     (let f = \<lfloor>y\<rfloor>; d = y - of_int f
      in if d < 1/2 then f else if 1/2 < d then f + 1 else if even f then f else f + 1)"

definition exponent :: "rat \<Rightarrow> int" where
  "exponent x =
     (case quotient_of x of (p, q) \<Rightarrow>
        let k = bitlen p - bitlen q in if 2 powi k \<le> x then k else k - 1)"

definition fl_pos :: "rat \<Rightarrow> rat" where
  "fl_pos x =
     (let e = exponent x in of_int (round_half_even (x * 2 powi (52 - e))) * 2 powi (e - 52))"

definition fl64 :: "rat \<Rightarrow> rat" where
  "fl64 x = (if x = 0 then 0 else if 0 < x then fl_pos x else - fl_pos (- x))"

lemma round_half_even_mono: "y \<le> z \<Longrightarrow> round_half_even y \<le> round_half_even z"
proof -
  assume le: "y \<le> z"
  have fl: "\<lfloor>y\<rfloor> \<le> \<lfloor>z\<rfloor>" using le by (rule floor_mono)
  show ?thesis
  proof (cases "\<lfloor>y\<rfloor> = \<lfloor>z\<rfloor>")
    case True
    with le show ?thesis by (auto simp: round_half_even_def Let_def)
  next
    case False
    with fl have "\<lfloor>y\<rfloor> + 1 \<le> \<lfloor>z\<rfloor>" by linarith
    then show ?thesis by (auto simp: round_half_even_def Let_def)
  qed
qed

lemma round_half_even_int [simp]: "round_half_even (of_int n) = n"
  by (simp add: round_half_even_def)

lemma bitlen_rat:
  assumes "0 < p"
  shows "2 powi (bitlen p - 1) \<le> (of_int p :: rat)" "(of_int p :: rat) < 2 powi bitlen p"
proof -
  have pos: "1 \<le> bitlen p" using assms bitlen_eq_zero_iff [of p] bitlen_nonneg [of p] by linarith
  have b: "2 ^ nat (bitlen p - 1) \<le> p" "p < 2 ^ nat (bitlen p)"
    using bitlen_bounds [OF assms] by auto
  have "(of_int (2 ^ nat (bitlen p - 1)) :: rat) \<le> of_int p" using b(1) by (simp only: of_int_le_iff)
  then show "2 powi (bitlen p - 1) \<le> (of_int p :: rat)"
    using pos by (simp add: power_int_nonneg_exp)
  have "(of_int p :: rat) < of_int (2 ^ nat (bitlen p))" using b(2) by (simp only: of_int_less_iff)
  then show "(of_int p :: rat) < 2 powi bitlen p"
    using bitlen_nonneg [of p] by (simp add: power_int_nonneg_exp)
qed

lemma two_powi_pos [simp]: "0 < (2 :: rat) powi n"
  by (simp add: zero_less_power_int)

lemma two_powi_diff: "(2 :: rat) powi (m - n) = 2 powi m / 2 powi n"
  by (simp add: power_int_diff)

lemma exponent_bounds:
  assumes "0 < x"
  shows "2 powi exponent x \<le> x" "x < 2 powi (exponent x + 1)"
proof -
  obtain p q where pq: "quotient_of x = (p, q)" by (cases "quotient_of x")
  have q: "0 < q" using quotient_of_denom_pos [OF pq] .
  have x: "x = of_int p / of_int q" using quotient_of_div [OF pq] .
  have p: "0 < p" using assms q unfolding x by (simp add: zero_less_divide_iff)
  let ?k = "bitlen p - bitlen q"
  have qr: "0 < (of_int q :: rat)" using q by simp
  have lo: "2 powi (?k - 1) \<le> x"
  proof -
    have "2 powi (?k - 1) = 2 powi (bitlen p - 1) / (2 powi bitlen q :: rat)"
      using two_powi_diff [of "bitlen p - 1" "bitlen q"] by (simp add: algebra_simps)
    also have "\<dots> \<le> of_int p / of_int q"
      using bitlen_rat(1) [OF p] bitlen_rat(2) [OF q] qr p
      by (intro frac_le) (simp_all add: less_imp_le)
    finally show ?thesis using x by simp
  qed
  have hi: "x < 2 powi (?k + 1)"
  proof -
    have "x < 2 powi bitlen p / 2 powi (bitlen q - 1)"
      unfolding x using bitlen_rat(2) [OF p] bitlen_rat(1) [OF q] qr p
      by (intro frac_less) simp_all
    also have "\<dots> = 2 powi (?k + 1)"
      using two_powi_diff [of "bitlen p" "bitlen q - 1"] by (simp add: algebra_simps)
    finally show ?thesis .
  qed
  show "2 powi exponent x \<le> x" using lo pq by (auto simp: exponent_def Let_def)
  show "x < 2 powi (exponent x + 1)" using hi pq by (auto simp: exponent_def Let_def)
qed

lemma two_powi_mono: "m \<le> n \<Longrightarrow> (2 :: rat) powi m \<le> 2 powi n"
  by (rule power_int_increasing) simp_all

lemma two_powi_less_iff: "(2 :: rat) powi m < 2 powi n \<longleftrightarrow> m < n"
  using two_powi_mono [of n m] power_int_strict_increasing [of m n "2 :: rat"] by fastforce

lemma exponent_unique: "0 < x \<Longrightarrow> 2 powi e \<le> x \<Longrightarrow> x < 2 powi (e + 1) \<Longrightarrow> exponent x = e"
proof -
  assume x: "0 < x" and b: "2 powi e \<le> x" "x < 2 powi (e + 1)"
  have "2 powi e < (2 :: rat) powi (exponent x + 1)" "2 powi exponent x < (2 :: rat) powi (e + 1)"
    using b exponent_bounds [OF x] by linarith+
  then show ?thesis unfolding two_powi_less_iff by linarith
qed

lemma exponent_mono: "0 < x \<Longrightarrow> x \<le> y \<Longrightarrow> exponent x \<le> exponent y"
proof -
  assume x: "0 < x" "x \<le> y"
  then have "2 powi exponent x < (2 :: rat) powi (exponent y + 1)"
    using exponent_bounds [of x] exponent_bounds [of y] by linarith
  then show ?thesis unfolding two_powi_less_iff by linarith
qed

abbreviation scaled :: "rat \<Rightarrow> int" where
  "scaled x \<equiv> round_half_even (x * 2 powi (52 - exponent x))"

lemma scaled_bounds:
  assumes "0 < x"
  shows "2 ^ 52 \<le> scaled x" "scaled x \<le> 2 ^ 53"
proof -
  let ?s = "2 powi (52 - exponent x) :: rat"
  have "2 powi exponent x * ?s \<le> x * ?s" using exponent_bounds [OF assms] by simp
  then have "of_int (2 ^ 52) \<le> x * ?s" by (simp flip: power_int_add)
  then show "2 ^ 52 \<le> scaled x" using round_half_even_mono round_half_even_int by metis
  have "x * ?s \<le> 2 powi (exponent x + 1) * ?s" using exponent_bounds [OF assms] by simp
  then have "x * ?s \<le> of_int (2 ^ 53)" by (simp flip: power_int_add)
  then show "scaled x \<le> 2 ^ 53" using round_half_even_mono round_half_even_int by metis
qed

lemma fl_pos_bounds:
  assumes "0 < x"
  shows "2 powi exponent x \<le> fl_pos x" "fl_pos x \<le> 2 powi (exponent x + 1)"
proof -
  let ?u = "2 powi (exponent x - 52) :: rat"
  have "of_int (2 ^ 52) * ?u \<le> of_int (scaled x) * ?u"
    using scaled_bounds(1) [OF assms] by (intro mult_right_mono) (simp_all only: of_int_le_iff, simp)
  moreover have "of_int (2 ^ 52) * ?u = 2 powi exponent x"
    using power_int_add [of "2 :: rat" 52 "exponent x - 52"] by simp
  ultimately show "2 powi exponent x \<le> fl_pos x" unfolding fl_pos_def Let_def by metis
  have "of_int (scaled x) * ?u \<le> of_int (2 ^ 53) * ?u"
    using scaled_bounds(2) [OF assms] by (intro mult_right_mono) (simp_all only: of_int_le_iff, simp)
  moreover have "of_int (2 ^ 53) * ?u = 2 powi (exponent x + 1)"
    using power_int_add [of "2 :: rat" 53 "exponent x - 52"] by (simp add: add.commute)
  ultimately show "fl_pos x \<le> 2 powi (exponent x + 1)" unfolding fl_pos_def Let_def by metis
qed

lemma fl_pos_pos: "0 < x \<Longrightarrow> 0 < fl_pos x"
  using fl_pos_bounds(1) two_powi_pos less_le_trans by blast

lemma fl_pos_mono: "0 < x \<Longrightarrow> x \<le> y \<Longrightarrow> fl_pos x \<le> fl_pos y"
proof -
  assume x: "0 < x" and le: "x \<le> y"
  show ?thesis
  proof (cases "exponent x = exponent y")
    case True
    have "x * 2 powi (52 - exponent y) \<le> y * 2 powi (52 - exponent y)" using le by simp
    then have "of_int (round_half_even (x * 2 powi (52 - exponent y))) \<le> (of_int (scaled y) :: rat)"
      by (simp add: round_half_even_mono)
    then show ?thesis using True by (simp add: fl_pos_def Let_def)
  next
    case False
    then have "exponent x + 1 \<le> exponent y" using exponent_mono [OF x le] by linarith
    then have "(2 :: rat) powi (exponent x + 1) \<le> 2 powi exponent y" by (rule two_powi_mono)
    then show ?thesis using fl_pos_bounds(2) [OF x] fl_pos_bounds(1) [of y] x le by linarith
  qed
qed

lemma fl_pos_scaled_int:
  "0 < z \<Longrightarrow> z * 2 powi (52 - exponent z) = of_int n \<Longrightarrow> fl_pos z = z"
  by (simp add: fl_pos_def Let_def) (metis (no_types, lifting) diff_add_cancel eq_iff_diff_eq_0
      minus_diff_eq mult.assoc mult.right_neutral power_int_0_right power_int_add power_int_minus
      right_inverse zero_neq_numeral power_int_eq_0_iff)

lemma fl_pos_idem: "0 < x \<Longrightarrow> fl_pos (fl_pos x) = fl_pos x"
proof -
  assume x: "0 < x"
  let ?e = "exponent x" and ?z = "fl_pos x"
  have z: "0 < ?z" using fl_pos_pos [OF x] .
  have zdef: "?z = of_int (scaled x) * 2 powi (?e - 52)" by (simp add: fl_pos_def Let_def)
  show ?thesis
  proof (cases "?z < 2 powi (?e + 1)")
    case True
    then have e: "exponent ?z = ?e" using exponent_unique [OF z] fl_pos_bounds(1) [OF x] by simp
    have "?z * 2 powi (52 - exponent ?z) = of_int (scaled x)"
      unfolding e by (subst zdef) (simp add: mult.assoc flip: power_int_add)
    then show ?thesis using z by (rule fl_pos_scaled_int [rotated])
  next
    case False
    then have zeq: "?z = 2 powi (?e + 1)" using fl_pos_bounds(2) [OF x] by linarith
    have e: "exponent ?z = ?e + 1"
      using exponent_unique [OF z, of "?e + 1"] zeq two_powi_less_iff [of "?e + 1" "?e + 1 + 1"] by simp
    have "?z * 2 powi (52 - exponent ?z) = of_int (2 ^ 52)"
      unfolding e by (subst zeq) (simp flip: power_int_add)
    then show ?thesis using z by (rule fl_pos_scaled_int [rotated])
  qed
qed

interpretation f64: rounding fl64
proof unfold_locales
  fix x y :: rat
  assume le: "x \<le> y"
  consider "y < 0" | "x \<le> 0" "0 \<le> y" | "0 < x" using le by linarith
  then show "fl64 x \<le> fl64 y"
  proof cases
    case 1
    then show ?thesis using le fl_pos_mono [of "- y" "- x"] by (simp add: fl64_def)
  next
    case 2
    then show ?thesis using fl_pos_pos [of y] fl_pos_pos [of "- x"]
      by (auto simp: fl64_def)
  next
    case 3
    then show ?thesis using le fl_pos_mono [of x y] by (simp add: fl64_def)
  qed
next
  fix x :: rat
  show "fl64 (fl64 x) = fl64 x"
    using fl_pos_idem [of x] fl_pos_idem [of "- x"] fl_pos_pos [of x] fl_pos_pos [of "- x"]
    by (auto simp: fl64_def)
next
  show "fl64 0 = 0" by (simp add: fl64_def)
qed

text \<open>The result is at most half a unit of the last place too large.\<close>

lemma round_half_even_upper: "of_int (round_half_even y) \<le> y + 1/2"
  by (auto simp: round_half_even_def Let_def) (use of_int_floor_le [of y] in linarith)

lemma fl_pos_upper: "0 < x \<Longrightarrow> fl_pos x \<le> x * (1 + 1 / 2 ^ 53)"
proof -
  assume x: "0 < x"
  let ?p = "2 powi (exponent x - 52) :: rat"
  have unit: "2 powi (52 - exponent x) * ?p = 1" by (simp flip: power_int_add)
  have "fl_pos x \<le> (x * 2 powi (52 - exponent x) + 1/2) * ?p"
    unfolding fl_pos_def Let_def using round_half_even_upper by (intro mult_right_mono) (simp_all add: less_imp_le)
  also have "\<dots> = x * (2 powi (52 - exponent x) * ?p) + ?p / 2" by (simp add: algebra_simps)
  also have "\<dots> = x + 2 powi exponent x / 2 ^ 53" unfolding unit by (simp add: two_powi_diff)
  also have "\<dots> \<le> x + x / 2 ^ 53" using exponent_bounds(1) [OF x] by (simp add: divide_right_mono)
  finally show ?thesis by (simp add: algebra_simps)
qed

interpretation f64r: relative_rounding fl64 "1 / 2 ^ 53"
proof unfold_locales
  show "0 \<le> (1 / 2 ^ 53 :: rat)" by simp
  show "0 \<le> x \<Longrightarrow> fl64 x \<le> x * (1 + 1 / 2 ^ 53)" for x using fl_pos_upper [of x] by (auto simp: fl64_def)
  show "0 < x \<Longrightarrow> 0 < fl64 x" for x using fl_pos_pos [of x] by (simp add: fl64_def)
qed

lemma fl64_of_nat_small: "n \<le> 2 ^ 53 \<Longrightarrow> fl64 (of_nat n) = of_nat n"
proof (cases "n = 0")
  case False
  assume n: "n \<le> 2 ^ 53"
  let ?x = "of_nat n :: rat"
  have pos: "0 < ?x" using False by simp
  have "?x \<le> 2 powi 53"
  proof -
    have "?x \<le> of_nat (2 ^ 53)" using n by (simp only: of_nat_le_iff)
    then show ?thesis by simp
  qed
  then have "2 powi exponent ?x \<le> (2 :: rat) powi 53" using exponent_bounds(1) [OF pos] by linarith
  then have e: "exponent ?x \<le> 53" using two_powi_less_iff [of 53 "exponent ?x"] by linarith
  show ?thesis
  proof (cases "exponent ?x = 53")
    case True
    then have "?x = 2 powi 53" using exponent_bounds(1) [OF pos] \<open>?x \<le> 2 powi 53\<close> by simp
    then have "?x * 2 powi (52 - exponent ?x) = of_int (2 ^ 52)"
      unfolding True by simp
    then show ?thesis using fl_pos_scaled_int [OF pos] pos by (simp add: fl64_def)
  next
    case False
    with e have "0 \<le> 52 - exponent ?x" by linarith
    then have "?x * 2 powi (52 - exponent ?x) = of_int (int n * 2 ^ nat (52 - exponent ?x))"
      by (simp add: power_int_nonneg_exp)
    from fl_pos_scaled_int [OF pos this] show ?thesis using pos by (simp add: fl64_def)
  qed
qed (simp add: fl64_def)

lemma fl64_numeral: "numeral n \<le> (2 ^ 53 :: nat) \<Longrightarrow> fl64 (numeral n) = numeral n"
  using fl64_of_nat_small [of "numeral n"] by simp

end
