(* ===== verification/Rate_Limit.thy ===== *)
theory Rate_Limit
  imports Go_Float Go_Net Assets_Request
begin

text \<open>
  Package \<open>assets\<close>, \<open>ratelimit.go\<close>: the per-client token bucket. Token counts are \<open>float64\<close>, so
  the limiter is parametrised by the rounding of the float operations (theory \<open>Go_Float\<close>); times are
  nanoseconds. The mutex makes each call of \<open>allow\<close> atomic, and since the clock is read before
  the lock is taken, the times of successive calls need not increase.
\<close>

record bucket =
  bk_tokens :: rat
  bk_last :: int

record ipRateLimiter =
  rl_buckets :: "string \<rightharpoonup> bucket"
  rl_rps :: rat
  rl_burst :: rat

text \<open>The package's own \<open>max\<close> and \<open>min\<close>.\<close>

definition max_int :: "int \<Rightarrow> int \<Rightarrow> int" where
  "max_int a b = (if b < a then a else b)"

definition min_float :: "rat \<Rightarrow> rat \<Rightarrow> rat" where
  "min_float a b = (if a < b then a else b)"

definition newLimiter :: "(rat \<Rightarrow> rat) \<Rightarrow> int \<Rightarrow> int \<Rightarrow> ipRateLimiter" where
  "newLimiter fl rps burst =
     \<lparr>rl_buckets = Map.empty, rl_rps = fl (of_int (max_int 1 rps)), rl_burst = fl (of_int (max_int 1 burst))\<rparr>"

text \<open>\<open>Time.Sub\<close> saturates at the ends of \<open>int64\<close>; \<open>Duration.Seconds\<close> adds whole and fractional seconds.\<close>

definition Sub :: "int \<Rightarrow> int \<Rightarrow> int" where
  "Sub t u = max min_int64 (min max_int64 (t - u))"

definition Seconds :: "(rat \<Rightarrow> rat) \<Rightarrow> int \<Rightarrow> rat" where
  "Seconds fl d =
     fl (fl (of_int (quot d 1000000000)) + fl (fl (of_int (rem d 1000000000)) / 1000000000))"

definition allow :: "(rat \<Rightarrow> rat) \<Rightarrow> ipRateLimiter \<Rightarrow> string \<Rightarrow> int \<Rightarrow> bool \<times> ipRateLimiter" where
  "allow fl l ip now =
     (case rl_buckets l ip of
        None \<Rightarrow>
          (True, l\<lparr>rl_buckets := (rl_buckets l)(ip \<mapsto> \<lparr>bk_tokens = fl (rl_burst l - 1), bk_last = now\<rparr>)\<rparr>)
      | Some b \<Rightarrow>
          (let elapsed = Seconds fl (Sub now (bk_last b));
               b1 = (if 0 < elapsed
                     then \<lparr>bk_tokens = min_float (rl_burst l) (fl (bk_tokens b + fl (elapsed * rl_rps l))),
                           bk_last = now\<rparr>
                     else b)
           in if bk_tokens b1 < 1 then (False, l\<lparr>rl_buckets := (rl_buckets l)(ip \<mapsto> b1)\<rparr>)
              else (True, l\<lparr>rl_buckets := (rl_buckets l)(ip \<mapsto>
                     b1\<lparr>bk_tokens := fl (bk_tokens b1 - 1)\<rparr>)\<rparr>)))"

definition clientIP :: "string \<Rightarrow> string" where
  "clientIP remoteAddr = (case SplitHostPort remoteAddr of None \<Rightarrow> remoteAddr | Some (host, _) \<Rightarrow> host)"

definition rateLimitMiddleware ::
  "(rat \<Rightarrow> rat) \<Rightarrow> int \<Rightarrow> 's http_handler \<Rightarrow> (ipRateLimiter \<times> 's) http_handler" where
  "rateLimitMiddleware fl now next r w ls =
     (case ls of (l, s) \<Rightarrow>
        (case allow fl l (clientIP (req_remote r)) now of
           (False, l') \<Rightarrow> Returned (writeJSONError w 429 ''rate_limited'', l', s)
         | (True, l') \<Rightarrow>
             (case next r w s of
                Returned (w', s') \<Rightarrow> Returned (w', l', s')
              | Panicked (w', s') \<Rightarrow> Panicked (w', l', s'))))"

section \<open>The bucket invariant\<close>

definition limiter_inv :: "(rat \<Rightarrow> rat) \<Rightarrow> ipRateLimiter \<Rightarrow> bool" where
  "limiter_inv fl l \<longleftrightarrow>
     1 \<le> rl_rps l \<and> 1 \<le> rl_burst l \<and> fl (rl_burst l) = rl_burst l \<and>
     (\<forall>ip b. rl_buckets l ip = Some b \<longrightarrow> 0 \<le> bk_tokens b \<and> bk_tokens b \<le> rl_burst l)"

lemma allow_config [simp, frame]:
  "rl_rps (snd (allow fl l ip now)) = rl_rps l" "rl_burst (snd (allow fl l ip now)) = rl_burst l"
  by (simp_all add: allow_def Let_def split: option.splits)

lemma allow_other [frame]: "ip' \<noteq> ip \<Longrightarrow> rl_buckets (snd (allow fl l ip now)) ip' = rl_buckets l ip'"
  by (simp add: allow_def Let_def split: option.splits)

fun allow_run :: "(rat \<Rightarrow> rat) \<Rightarrow> ipRateLimiter \<Rightarrow> (string \<times> int) list \<Rightarrow> bool list \<times> ipRateLimiter" where
  "allow_run fl l [] = ([], l)"
| "allow_run fl l ((ip, now) # rs) =
     (case allow fl l ip now of (ok, l1) \<Rightarrow>
        (case allow_run fl l1 rs of (oks, l2) \<Rightarrow> (ok # oks, l2)))"

lemma allow_run_Cons_snd:
  "snd (allow_run fl l (r # rs)) = snd (allow_run fl (snd (allow fl l (fst r) (snd r))) rs)"
  by (cases r) (simp split: prod.splits)

context rounding
begin

lemma newLimiter_inv: "fl 1 = 1 \<Longrightarrow> limiter_inv fl (newLimiter fl rps burst)"
  using fl_mono [of 1 "of_int (max_int 1 rps)"] fl_mono [of 1 "of_int (max_int 1 burst)"]
  by (auto simp: limiter_inv_def newLimiter_def max_int_def fl_idem)

lemma refill_bounds:
  assumes "limiter_inv fl l" "0 \<le> t" "0 < e"
  shows "0 \<le> min_float (rl_burst l) (fl (t + fl (e * rl_rps l)))"
    and "min_float (rl_burst l) (fl (t + fl (e * rl_rps l))) \<le> rl_burst l"
proof -
  have "0 \<le> e * rl_rps l" using assms by (simp add: limiter_inv_def)
  then have "0 \<le> fl (t + fl (e * rl_rps l))" using assms(2) by (intro fl_nonneg) (simp add: fl_nonneg)
  then show "0 \<le> min_float (rl_burst l) (fl (t + fl (e * rl_rps l)))"
    using assms(1) by (simp add: min_float_def limiter_inv_def)
  show "min_float (rl_burst l) (fl (t + fl (e * rl_rps l))) \<le> rl_burst l"
    by (simp add: min_float_def)
qed

lemma spend_bounds:
  assumes "limiter_inv fl l" "1 \<le> t" "t \<le> rl_burst l"
  shows "0 \<le> fl (t - 1)" and "fl (t - 1) \<le> rl_burst l"
  using assms fl_nonneg [of "t - 1"] fl_le_rep [of "rl_burst l" "t - 1"]
  by (auto simp: limiter_inv_def)

lemma allow_inv: "limiter_inv fl l \<Longrightarrow> limiter_inv fl (snd (allow fl l ip now))"
proof -
  assume inv: "limiter_inv fl l"
  have conf: "1 \<le> rl_rps l" "1 \<le> rl_burst l" "fl (rl_burst l) = rl_burst l"
    using inv by (auto simp: limiter_inv_def)
  have "0 \<le> bk_tokens b \<and> bk_tokens b \<le> rl_burst l"
    if "rl_buckets (snd (allow fl l ip now)) ip = Some b" for b
  proof (cases "rl_buckets l ip")
    case None
    with that show ?thesis using spend_bounds [OF inv, of "rl_burst l"] conf by (auto simp: allow_def)
  next
    case (Some b0)
    have b0: "0 \<le> bk_tokens b0" "bk_tokens b0 \<le> rl_burst l"
      using inv Some by (auto simp: limiter_inv_def)
    let ?e = "Seconds fl (Sub now (bk_last b0))"
    have "0 < ?e \<Longrightarrow> 0 \<le> min_float (rl_burst l) (fl (bk_tokens b0 + fl (?e * rl_rps l))) \<and>
        min_float (rl_burst l) (fl (bk_tokens b0 + fl (?e * rl_rps l))) \<le> rl_burst l"
      using refill_bounds [OF inv b0(1)] by blast
    then show ?thesis
      using that Some b0 spend_bounds [OF inv] by (auto simp: allow_def Let_def split: if_splits)
  qed
  moreover have "rl_buckets (snd (allow fl l ip now)) ip' = rl_buckets l ip'" if "ip' \<noteq> ip" for ip'
    using that by (rule allow_other)
  ultimately show ?thesis using inv unfolding limiter_inv_def by (metis allow_config)
qed

lemma allow_run_inv: "limiter_inv fl l \<Longrightarrow> limiter_inv fl (snd (allow_run fl l rs))"
proof (induction rs arbitrary: l)
  case (Cons r rs)
  then show ?case unfolding allow_run_Cons_snd using allow_inv by blast
qed simp

lemma seconds_ge_1: "fl 1 = 1 \<Longrightarrow> 1000000000 \<le> d \<Longrightarrow> 1 \<le> Seconds fl d"
proof -
  assume one: "fl 1 = 1" and d: "1000000000 \<le> d"
  have "1 \<le> d div 1000000000" using d by linarith
  then have q: "fl 1 \<le> fl (of_int (d div 1000000000))" by (intro fl_mono) simp
  have "0 \<le> fl (of_int (d mod 1000000000))" by (intro fl_nonneg) simp
  then have "0 \<le> fl (fl (of_int (d mod 1000000000)) / 1000000000)" by (intro fl_nonneg) simp
  with q one have "1 \<le> fl (of_int (d div 1000000000)) + fl (fl (of_int (d mod 1000000000)) / 1000000000)"
    by linarith
  from fl_mono [OF this] one d show ?thesis by (simp add: Seconds_def)
qed

lemma allow_after_second:
  assumes "fl 1 = 1" "limiter_inv fl l" "rl_buckets l ip = Some b" "bk_last b + 1000000000 \<le> now"
  shows "fst (allow fl l ip now)"
proof -
  let ?e = "Seconds fl (Sub now (bk_last b))"
  have e: "1 \<le> ?e" using assms by (intro seconds_ge_1) (auto simp: Sub_def)
  have b: "0 \<le> bk_tokens b" and r: "1 \<le> rl_rps l" "1 \<le> rl_burst l"
    using assms by (auto simp: limiter_inv_def)
  have "1 \<le> ?e * rl_rps l" using e r mult_mono [of 1 ?e 1 "rl_rps l"] by simp
  from fl_mono [OF this] assms(1) have "1 \<le> fl (?e * rl_rps l)" by simp
  then have "1 \<le> bk_tokens b + fl (?e * rl_rps l)" using b by simp
  from fl_mono [OF this] assms(1) have "1 \<le> fl (bk_tokens b + fl (?e * rl_rps l))" by simp
  with e r assms(3) show ?thesis by (simp add: allow_def Let_def min_float_def)
qed

end

lemma fl64_one [simp]: "fl64 1 = 1"
  using fl64_of_nat_small [of 1] by simp

text \<open>In float64 arithmetic every bucket of a limiter that started empty holds between zero and
  the burst size, whatever clients ask and whatever times the clock gives.\<close>

theorem tokens_within_burst:
  assumes "rl_buckets (snd (allow_run fl64 (newLimiter fl64 rps burst) rs)) ip = Some b"
  shows "0 \<le> bk_tokens b \<and> bk_tokens b \<le> fl64 (of_int (max_int 1 burst))"
proof -
  have inv: "limiter_inv fl64 (snd (allow_run fl64 (newLimiter fl64 rps burst) rs))"
    by (intro f64.allow_run_inv f64.newLimiter_inv) simp
  have "rl_burst (snd (allow_run fl64 l rs)) = rl_burst l" for l
    by (induction rs arbitrary: l) (simp_all add: allow_run_Cons_snd del: allow_run.simps(2))
  then show ?thesis
    using inv assms unfolding limiter_inv_def by (simp add: newLimiter_def)
qed

text \<open>C37. A client that has been quiet for a second is let through: after any run of requests, a
  request whose time is a second or more after the last refill of its bucket is admitted, and so is
  the first request of a new client.\<close>

theorem quiet_client_admitted:
  assumes "l = snd (allow_run fl64 (newLimiter fl64 rps burst) rs)"
    and "\<And>b. rl_buckets l ip = Some b \<Longrightarrow> bk_last b + 1000000000 \<le> now"
  shows "fst (allow fl64 l ip now)"
proof (cases "rl_buckets l ip")
  case None
  then show ?thesis by (simp add: allow_def)
next
  case (Some b)
  have "limiter_inv fl64 l" unfolding assms(1) by (intro f64.allow_run_inv f64.newLimiter_inv) simp
  with Some assms(2) show ?thesis by (intro f64.allow_after_second) auto
qed


theorem tokens_within_burst_witness:
  "\<exists>b. rl_buckets (snd (allow_run fl64 (newLimiter fl64 20 40) [(''10.0.0.1'', 0)])) ''10.0.0.1'' = Some b \<and>
     0 \<le> bk_tokens b \<and> bk_tokens b \<le> fl64 (of_int (max_int 1 40))"
proof -
  obtain b where b:
    "rl_buckets (snd (allow_run fl64 (newLimiter fl64 20 40) [(''10.0.0.1'', 0)])) ''10.0.0.1'' = Some b"
    by (simp add: allow_def newLimiter_def)
  with tokens_within_burst [OF b] show ?thesis by blast
qed

theorem quiet_client_admitted_witness:
  "fst (allow_run fl64 (newLimiter fl64 1 1) [(''c'', 0), (''c'', 0)]) = [True, False] \<and>
   rl_buckets (snd (allow_run fl64 (newLimiter fl64 1 1) [(''c'', 0), (''c'', 0)])) ''c'' = Some \<lparr>bk_tokens = 0, bk_last = 0\<rparr> \<and>
   fst (allow fl64 (snd (allow_run fl64 (newLimiter fl64 1 1) [(''c'', 0), (''c'', 0)])) ''c'' 1000000000)"
proof (intro conjI)
  let ?l = "snd (allow_run fl64 (newLimiter fl64 1 1) [(''c'', 0), (''c'', 0)])"
  show "fst (allow_run fl64 (newLimiter fl64 1 1) [(''c'', 0), (''c'', 0)]) = [True, False]"
    and b: "rl_buckets ?l ''c'' = Some \<lparr>bk_tokens = 0, bk_last = 0\<rparr>"
    by (simp_all add: allow_def newLimiter_def Let_def Seconds_def Sub_def max_int_def f64.fl_zero)
  show "fst (allow fl64 ?l ''c'' 1000000000)" by (rule quiet_client_admitted [OF refl]) (simp add: b del: allow_run.simps)
qed

section \<open>The admission rate\<close>

definition admitted :: "string \<Rightarrow> (string \<times> int) list \<Rightarrow> bool list \<Rightarrow> nat" where
  "admitted ip rs oks = length (filter (\<lambda>((ip', _), ok). ip' = ip \<and> ok) (zip rs oks))"

definition asked :: "string \<Rightarrow> (string \<times> int) list \<Rightarrow> nat" where
  "asked ip rs = length (filter (\<lambda>(ip', _). ip' = ip) rs)"

lemma admitted_Cons:
  "admitted ip ((ip', t) # rs) (ok # oks) = of_bool (ip' = ip \<and> ok) + admitted ip rs oks"
  by (simp add: admitted_def)

lemma asked_Cons: "asked ip ((ip', t) # rs) = of_bool (ip' = ip) + asked ip rs"
  by (simp add: asked_def)

lemma allow_config_eq:
  "allow fl l ip now = (ok, l') \<Longrightarrow> rl_rps l' = rl_rps l \<and> rl_burst l' = rl_burst l"
  using allow_config [of fl l ip now] by simp

text \<open>The bucket after the refill, before a token is taken.\<close>

definition refilled :: "(rat \<Rightarrow> rat) \<Rightarrow> ipRateLimiter \<Rightarrow> bucket \<Rightarrow> int \<Rightarrow> bucket" where
  "refilled fl l b now =
     (let elapsed = Seconds fl (Sub now (bk_last b))
      in if 0 < elapsed
         then \<lparr>bk_tokens = min_float (rl_burst l) (fl (bk_tokens b + fl (elapsed * rl_rps l))), bk_last = now\<rparr> else b)"

lemma allow_known:
  "rl_buckets l ip = Some b \<Longrightarrow> allow fl l ip now =
     (let b1 = refilled fl l b now
      in if bk_tokens b1 < 1 then (False, l\<lparr>rl_buckets := (rl_buckets l)(ip \<mapsto> b1)\<rparr>)
         else (True, l\<lparr>rl_buckets := (rl_buckets l)(ip \<mapsto> b1\<lparr>bk_tokens := fl (bk_tokens b1 - 1)\<rparr>)\<rparr>))"
  by (simp add: allow_def refilled_def Let_def)

text \<open>What a bucket can still give away up to the time \<open>t1\<close>, with the rate rounded up.\<close>

definition reserve :: "rat \<Rightarrow> ipRateLimiter \<Rightarrow> int \<Rightarrow> bucket \<Rightarrow> rat" where
  "reserve u l t1 b = bk_tokens b + rl_rps l * (1 + u) ^ 4 * (of_int (max 0 (t1 - bk_last b)) / 1000000000)"

context relative_rounding
begin

text \<open>Elapsed time: at most the true time with three roundings, and positive exactly when the clock has advanced.\<close>

lemma Seconds_upper: "0 \<le> d \<Longrightarrow> Seconds fl d \<le> of_int d / 1000000000 * (1 + u) ^ 3"
proof -
  assume d: "0 \<le> d"
  let ?q = "of_int (d div 1000000000) :: rat" and ?r = "of_int (d mod 1000000000) :: rat"
  have q: "fl ?q \<le> ?q * (1 + u)" using d by (intro fl_upper) simp
  also have "\<dots> \<le> ?q * (1 + u) ^ 2" using d u_nonneg by (intro mult_left_mono self_le_power) simp_all
  finally have fq: "fl ?q \<le> ?q * (1 + u) ^ 2" .
  have "fl ?r \<le> ?r * (1 + u)" by (intro fl_upper) simp
  then have "fl ?r / 1000000000 \<le> ?r / 1000000000 * (1 + u) ^ 1" by simp
  then have fr: "fl (fl ?r / 1000000000) \<le> ?r / 1000000000 * (1 + u) ^ 2"
    using fl_upper_step [of "fl ?r / 1000000000" "?r / 1000000000" 1] fl_nonneg [of ?r] by (simp add: numeral_2_eq_2)
  have whole: "?q + ?r / 1000000000 = of_int d / 1000000000"
  proof -
    have "(of_int d :: rat) = of_int (1000000000 * (d div 1000000000) + d mod 1000000000)" by simp
    then show ?thesis by (simp only: of_int_add of_int_mult) simp
  qed
  have "fl ?q + fl (fl ?r / 1000000000) \<le> (?q + ?r / 1000000000) * (1 + u) ^ 2" using fq fr by (simp add: distrib_right)
  then have "fl (fl ?q + fl (fl ?r / 1000000000)) \<le> (?q + ?r / 1000000000) * (1 + u) ^ Suc 2"
    using d by (intro fl_upper_step) (simp_all add: fl_nonneg)
  then show ?thesis using d whole by (simp add: Seconds_def numeral_3_eq_3 numeral_2_eq_2)
qed

lemma Seconds_pos: "0 < d \<Longrightarrow> 0 < Seconds fl d"
proof -
  assume d: "0 < d"
  have "0 < d div 1000000000 \<or> 0 < d mod 1000000000" using d by (smt (verit) mod_div_trivial pos_imp_zdiv_nonneg_iff pos_mod_sign mult_div_mod_eq)
  then have "0 < fl (of_int (d div 1000000000)) + fl (fl (of_int (d mod 1000000000)) / 1000000000)"
  proof
    assume "0 < d div 1000000000"
    then have "0 < fl (of_int (d div 1000000000))" by (intro fl_positive) simp
    then show ?thesis by (intro add_pos_nonneg) (simp_all add: fl_nonneg)
  next
    assume "0 < d mod 1000000000"
    then have "0 < fl (fl (of_int (d mod 1000000000)) / 1000000000)" by (intro fl_positive divide_pos_pos) simp_all
    then show ?thesis using d by (intro add_nonneg_pos) (simp_all add: fl_nonneg)
  qed
  then show ?thesis using d by (simp add: Seconds_def fl_positive)
qed

lemma Seconds_nonpos: "d \<le> 0 \<Longrightarrow> Seconds fl d \<le> 0"
proof -
  assume d: "d \<le> 0"
  have q: "quot d 1000000000 \<le> 0" using d by (auto simp: quot_def sgn_if)
  have "d - 1000000000 * quot d 1000000000 = - ((- d) mod 1000000000)"
    using d by (auto simp: quot_def sgn_if minus_mult_div_eq_mod [symmetric])
  then have r: "rem d 1000000000 \<le> 0" by (simp add: rem_def)
  from q r show ?thesis unfolding Seconds_def by (intro fl_nonpos add_nonpos_nonpos divide_nonpos_pos) simp_all
qed

lemma elapsed_pos: "0 < Seconds fl (Sub now prev) \<longleftrightarrow> prev < now"
  using Seconds_pos [of "Sub now prev"] Seconds_nonpos [of "Sub now prev"]
  by (cases "prev < now") (auto simp: Sub_def not_less)

text \<open>A refill adds at most the elapsed time at the rate, with four roundings, and one more rounding of at most a full bucket; the cap
  at the burst size is what bounds the last one.\<close>

lemma refill_upper:
  assumes "limiter_inv fl l" "0 \<le> bk_tokens b" "bk_last b < now"
  shows "bk_tokens (refilled fl l b now) \<le>
    bk_tokens b + rl_rps l * (1 + u) ^ 4 * (of_int (now - bk_last b) / 1000000000) + u * rl_burst l"
proof -
  let ?e = "Seconds fl (Sub now (bk_last b))" and ?d = "of_int (now - bk_last b) / 1000000000 :: rat"
  have r: "0 \<le> rl_rps l" "0 \<le> rl_burst l" using assms(1) by (auto simp: limiter_inv_def)
  have pos: "0 < ?e" using assms(3) by (simp add: elapsed_pos)
  have sub: "0 \<le> Sub now (bk_last b)" "Sub now (bk_last b) \<le> now - bk_last b" using assms(3) by (simp_all add: Sub_def)
  have "?e \<le> of_int (Sub now (bk_last b)) / 1000000000 * (1 + u) ^ 3" using Seconds_upper [OF sub(1)] .
  also have "\<dots> \<le> ?d * (1 + u) ^ 3"
    using sub(2) u_nonneg by (intro mult_right_mono divide_right_mono) (simp_all add: of_int_le_iff del: of_int_diff)
  finally have "?e * rl_rps l \<le> ?d * (1 + u) ^ 3 * rl_rps l" using r by (intro mult_right_mono) simp_all
  then have x: "fl (?e * rl_rps l) \<le> rl_rps l * (1 + u) ^ 4 * ?d"
    using fl_upper_step [of "?e * rl_rps l" "?d * rl_rps l" 3] pos r by (simp add: numeral_eq_Suc mult_ac)
  have x0: "0 \<le> fl (?e * rl_rps l)" using pos r by (simp add: fl_nonneg)
  have "min_float (rl_burst l) (fl (bk_tokens b + fl (?e * rl_rps l))) \<le> bk_tokens b + fl (?e * rl_rps l) + u * rl_burst l"
  proof (cases "bk_tokens b + fl (?e * rl_rps l) \<le> rl_burst l")
    case True
    then show ?thesis using fl_upper_capped [OF _ True] assms(2) x0 by (auto simp: min_float_def)
  next
    case False
    then show ?thesis using mult_nonneg_nonneg [OF u_nonneg r(2)] by (simp add: min_float_def)
  qed
  then show ?thesis using x pos by (simp add: refilled_def)
qed

lemma allow_takes:
  assumes "limiter_inv fl l" "rl_buckets l ip = Some b" "allow fl l ip now = (ok, l')"
  obtains b' where "rl_buckets l' ip = Some b'" "bk_last b' = bk_last (refilled fl l b now)"
    "of_bool ok + bk_tokens b' \<le> bk_tokens (refilled fl l b now) + u * rl_burst l"
proof -
  let ?b1 = "refilled fl l b now"
  have b: "0 \<le> bk_tokens b" "bk_tokens b \<le> rl_burst l" "0 \<le> rl_burst l" using assms(1,2) by (auto simp: limiter_inv_def)
  have le: "bk_tokens ?b1 \<le> rl_burst l" using b by (simp add: refilled_def min_float_def Let_def)
  have err: "0 \<le> u * rl_burst l" using u_nonneg b(3) by simp
  show thesis
  proof (cases "bk_tokens ?b1 < 1")
    case True
    with assms(3) allow_known [OF assms(2)] err show thesis by (intro that [of ?b1]) (auto simp: Let_def)
  next
    case False
    then have "fl (bk_tokens ?b1 - 1) \<le> bk_tokens ?b1 - 1 + u * rl_burst l" using le by (intro fl_upper_capped) simp_all
    with False assms(3) allow_known [OF assms(2)] show thesis
      by (intro that [of "?b1\<lparr>bk_tokens := fl (bk_tokens ?b1 - 1)\<rparr>"]) (auto simp: Let_def)
  qed
qed

text \<open>A request inside the window, for a bucket last refilled inside it and for one last refilled before it.\<close>

lemma allow_reserve:
  assumes "limiter_inv fl l" "rl_buckets l ip = Some b" "allow fl l ip now = (ok, l')" "now \<le> t1"
  obtains b' where "rl_buckets l' ip = Some b'" "bk_last b \<le> bk_last b'"
    "of_bool ok + reserve u l t1 b' \<le> reserve u l t1 b + 2 * u * rl_burst l"
proof -
  obtain b' where b': "rl_buckets l' ip = Some b'" "bk_last b' = bk_last (refilled fl l b now)"
    "of_bool ok + bk_tokens b' \<le> bk_tokens (refilled fl l b now) + u * rl_burst l"
    using allow_takes [OF assms(1-3)] by blast
  have r: "0 \<le> rl_burst l" "0 \<le> bk_tokens b" using assms(1,2) by (auto simp: limiter_inv_def)
  have err: "0 \<le> u * rl_burst l" using u_nonneg r(1) by simp
  show thesis
  proof (cases "bk_last b < now")
    case True
    have "bk_last b' = now" using b'(2) True elapsed_pos by (simp add: refilled_def)
    moreover have "rl_rps l * (1 + u) ^ 4 * (of_int (now - bk_last b) / 1000000000) + rl_rps l * (1 + u) ^ 4 * (of_int (t1 - now) / 1000000000)
        = rl_rps l * (1 + u) ^ 4 * (of_int (t1 - bk_last b) / 1000000000)" by (simp add: field_simps)
    ultimately show thesis
      using that [OF b'(1)] b'(3) refill_upper [OF assms(1) r(2) True] True assms(4) by (simp add: reserve_def)
  next
    case False
    then have "refilled fl l b now = b" using elapsed_pos by (simp add: refilled_def)
    then show thesis using that [OF b'(1)] b'(2,3) err by (simp add: reserve_def)
  qed
qed

lemma allow_first:
  assumes "limiter_inv fl l" "allow fl l ip now = (ok, l')" "t0 \<le> now" "now \<le> t1"
    and "\<And>b. rl_buckets l ip = Some b \<Longrightarrow> bk_last b < t0"
  obtains b' where "rl_buckets l' ip = Some b'" "t0 \<le> bk_last b'"
    "of_bool ok + reserve u l t1 b' \<le> rl_burst l + rl_rps l * (1 + u) ^ 4 * (of_int (t1 - t0) / 1000000000) + u * rl_burst l"
proof -
  have r: "1 \<le> rl_burst l" "0 \<le> rl_rps l" using assms(1) by (auto simp: limiter_inv_def)
  have "\<exists>b'. rl_buckets l' ip = Some b' \<and> bk_last b' = now \<and> of_bool ok + bk_tokens b' \<le> rl_burst l + u * rl_burst l"
  proof (cases "rl_buckets l ip")
    case None
    have "fl (rl_burst l - 1) \<le> rl_burst l - 1 + u * rl_burst l" using r(1) by (intro fl_upper_capped) simp_all
    then show ?thesis using None assms(2) by (auto simp: allow_def)
  next
    case (Some b)
    have "bk_last b < now" using assms(3,5) Some by fastforce
    then have "bk_last (refilled fl l b now) = now" "bk_tokens (refilled fl l b now) \<le> rl_burst l"
      using elapsed_pos by (simp_all add: refilled_def min_float_def Let_def)
    then show ?thesis using allow_takes [OF assms(1) Some assms(2)] by (metis add_right_mono order_trans)
  qed
  then obtain b' where b': "rl_buckets l' ip = Some b'" "bk_last b' = now" "of_bool ok + bk_tokens b' \<le> rl_burst l + u * rl_burst l"
    by blast
  have "rl_rps l * (1 + u) ^ 4 * (of_int (t1 - now) / 1000000000) \<le> rl_rps l * (1 + u) ^ 4 * (of_int (t1 - t0) / 1000000000)"
    using assms(3) r(2) u_nonneg by (intro mult_left_mono divide_right_mono) simp_all
  then show thesis using that [OF b'(1)] b'(2,3) assms(3,4) by (simp add: reserve_def)
qed

lemma run_step:
  assumes "limiter_inv fl l"
  obtains ok l' where "allow fl l ip now = (ok, l')" "limiter_inv fl l'" "rl_rps l' = rl_rps l" "rl_burst l' = rl_burst l"
    "fst (allow_run fl l ((ip, now) # rs)) = ok # fst (allow_run fl l' rs)"
    "\<And>ip'. ip' \<noteq> ip \<Longrightarrow> rl_buckets l' ip' = rl_buckets l ip'"
proof -
  obtain ok l' where al: "allow fl l ip now = (ok, l')" by (cases "allow fl l ip now")
  show thesis
    using that [OF al] allow_inv [OF assms, of ip now] allow_config_eq [OF al] allow_other [of _ ip fl l now] al
    by (simp split: prod.splits)
qed

lemma admitted_reserve:
  assumes "limiter_inv fl l" "rl_buckets l ip = Some b" "\<And>t. (ip, t) \<in> set rs \<Longrightarrow> t \<le> t1"
  shows "of_nat (admitted ip rs (fst (allow_run fl l rs))) \<le> reserve u l t1 b + 2 * u * rl_burst l * of_nat (asked ip rs)"
  using assms
proof (induction rs arbitrary: l b)
  case Nil
  then have "0 \<le> bk_tokens b" "0 \<le> rl_rps l" by (auto simp: limiter_inv_def)
  then show ?case using u_nonneg by (simp add: admitted_def asked_def reserve_def)
next
  case (Cons r rs)
  obtain ip' now where r: "r = (ip', now)" by (cases r)
  obtain ok l' where al: "allow fl l ip' now = (ok, l')" and l': "limiter_inv fl l'" "rl_rps l' = rl_rps l" "rl_burst l' = rl_burst l"
    and run: "fst (allow_run fl l (r # rs)) = ok # fst (allow_run fl l' rs)" and other: "\<And>k. k \<noteq> ip' \<Longrightarrow> rl_buckets l' k = rl_buckets l k"
    unfolding r using run_step [OF Cons.prems(1), of ip' now rs] by metis
  have same: "reserve u l' t1 b' = reserve u l t1 b'" for b' using l'(2) by (simp add: reserve_def)
  have later: "\<And>t. (ip, t) \<in> set rs \<Longrightarrow> t \<le> t1" using Cons.prems(3) by simp
  show ?case
  proof (cases "ip' = ip")
    case True
    have "now \<le> t1" using Cons.prems(3) r True by simp
    then obtain b' where b': "rl_buckets l' ip = Some b'" "of_bool ok + reserve u l t1 b' \<le> reserve u l t1 b + 2 * u * rl_burst l"
      using allow_reserve [OF Cons.prems(1,2)] al True by blast
    show ?thesis
      using Cons.IH [OF l'(1) b'(1) later] b'(2) True unfolding run unfolding r admitted_Cons asked_Cons same l'(3) by (simp add: algebra_simps)
  next
    case False
    show ?thesis
      using Cons.IH [OF l'(1) _ later, of b] other [of ip] Cons.prems(2) False unfolding run unfolding r admitted_Cons asked_Cons same l'(3) by simp
  qed
qed

lemma admitted_window:
  assumes "limiter_inv fl l" "t0 \<le> t1" "\<And>t. (ip, t) \<in> set rs \<Longrightarrow> t0 \<le> t \<and> t \<le> t1"
  shows "of_nat (admitted ip rs (fst (allow_run fl l rs))) \<le>
    rl_burst l + rl_rps l * (1 + u) ^ 4 * (of_int (t1 - t0) / 1000000000) + 2 * u * rl_burst l * of_nat (asked ip rs)"
  using assms
proof (induction rs arbitrary: l)
  case Nil
  then show ?case using u_nonneg by (simp add: admitted_def asked_def limiter_inv_def)
next
  case (Cons r rs)
  let ?full = "rl_burst l + rl_rps l * (1 + u) ^ 4 * (of_int (t1 - t0) / 1000000000)"
  obtain ip' now where r: "r = (ip', now)" by (cases r)
  obtain ok l' where al: "allow fl l ip' now = (ok, l')" and l': "limiter_inv fl l'" "rl_rps l' = rl_rps l" "rl_burst l' = rl_burst l"
    and run: "fst (allow_run fl l (r # rs)) = ok # fst (allow_run fl l' rs)"
    unfolding r using run_step [OF Cons.prems(1), of ip' now rs] by metis
  have later: "\<And>t. (ip, t) \<in> set rs \<Longrightarrow> t0 \<le> t \<and> t \<le> t1" using Cons.prems(3) by simp
  show ?case
  proof (cases "ip' = ip")
    case False
    then show ?thesis using Cons.IH [OF l'(1) Cons.prems(2) later] unfolding run unfolding r admitted_Cons asked_Cons l'(2,3) by simp
  next
    case True
    have now: "t0 \<le> now" "now \<le> t1" using Cons.prems(3) r True by simp_all
    show ?thesis
    proof (cases "\<exists>b. rl_buckets l ip = Some b \<and> t0 \<le> bk_last b")
      case False
      then obtain b' where b': "rl_buckets l' ip = Some b'" "of_bool ok + reserve u l t1 b' \<le> ?full + u * rl_burst l"
        using allow_first [OF Cons.prems(1), of ip now ok l' t0 t1] al True now by force
      have "of_nat (admitted ip rs (fst (allow_run fl l' rs))) \<le> reserve u l' t1 b' + 2 * u * rl_burst l' * of_nat (asked ip rs)"
        using admitted_reserve [OF l'(1) b'(1)] later by blast
      moreover have "0 \<le> u * rl_burst l" using u_nonneg Cons.prems(1) by (simp add: limiter_inv_def)
      ultimately show ?thesis
        using b'(2) True unfolding run unfolding r admitted_Cons asked_Cons by (simp add: reserve_def l'(2,3) algebra_simps)
    next
      case bk: True
      then obtain b where b: "rl_buckets l ip = Some b" "t0 \<le> bk_last b" by blast
      have "reserve u l t1 b \<le> ?full" using Cons.prems(1,2) b u_nonneg
        by (auto simp: reserve_def limiter_inv_def intro!: add_mono mult_left_mono divide_right_mono)
      then show ?thesis using admitted_reserve [OF Cons.prems(1) b(1), of "r # rs" t1] Cons.prems(3) by force
    qed
  qed
qed

end

lemma allow_run_config [simp]:
  "rl_rps (snd (allow_run fl l rs)) = rl_rps l" "rl_burst (snd (allow_run fl l rs)) = rl_burst l"
  by (induction rs arbitrary: l) (simp_all add: allow_run_Cons_snd del: allow_run.simps(2))


text \<open>A bucket that has had ten seconds to refill: the cap keeps it at two tokens.\<close>

abbreviation demo_burst :: "(string \<times> int) list" where
  "demo_burst \<equiv> [(''c'', 10000000000), (''c'', 10000000000), (''c'', 10000000000)]"


end
