(* ===== verification/Server.thy ===== *)
theory Server
  imports Api_Docs Health Internal_Api Assets_Handler Assets_Cors Rate_Limit
begin

text \<open>
  Package \<open>httpserver\<close>, file \<open>server.go\<close>: the routes and the server built from its parts. The application state
  is what the handlers share: the rate limiter, the upstream semaphore, the database, the catalog's health state and the
  status of the jobs.
\<close>

record app =
  pv_limiter :: ipRateLimiter
  pv_sem :: "Semaphore option"
  pv_db :: database
  pv_health :: HealthState
  pv_jobs :: Status

section \<open>Routes\<close>

record 's endpoints =
  en_metrics :: "'s http_handler"
  en_docs :: "'s http_handler"
  en_yaml :: "'s http_handler"
  en_json :: "'s http_handler"
  en_healthz :: "'s http_handler"
  en_readyz :: "'s http_handler"
  en_rescan :: "'s http_handler option"
  en_announce :: "'s http_handler option"
  en_assets :: "'s http_handler"

text \<open>
  A pattern is a method (empty for any), the segments of its path, and whether it ends in a slash and so stands for the subtree. The list is
  in the order of registration.
\<close>

record 's pattern =
  pa_method :: string
  pa_segments :: "string list"
  pa_subtree :: bool
  pa_handler :: "'s http_handler"

definition pat :: "string \<Rightarrow> string list \<Rightarrow> bool \<Rightarrow> 's http_handler \<Rightarrow> 's pattern" where
  "pat m segs sub h = \<lparr>pa_method = m, pa_segments = segs, pa_subtree = sub, pa_handler = h\<rparr>"

definition mux_patterns :: "Config \<Rightarrow> 's endpoints \<Rightarrow> 's pattern list" where
  "mux_patterns cfg e =
     [pat ''GET'' [''metrics''] False (en_metrics e), pat ''GET'' [''docs''] False (en_docs e), pat ''GET'' [''docs''] True (en_docs e),
      pat ''GET'' [''openapi.yaml''] False (en_yaml e), pat ''GET'' [''openapi.json''] False (en_json e),
      pat ''GET'' [''healthz''] False (en_healthz e), pat ''GET'' [''readyz''] False (en_readyz e)] @
     (if cf_InternalEnable cfg then
        (case en_rescan e of None \<Rightarrow> [] | Some h \<Rightarrow> [pat ''POST'' [''internal'', ''rescan''] False h]) @
        (case en_announce e of None \<Rightarrow> [] | Some h \<Rightarrow> [pat ''POST'' [''internal'', ''announce''] False h])
      else []) @
     [pat [] [''assets''] True (en_assets e)]"

text \<open>
  Matching of \<open>http.ServeMux\<close>: the escaped path is cleaned, split at its slashes and each segment unescaped. A GET pattern also
  takes HEAD. What a redirect to the cleaned path or to the path with a slash looks like is left to the library.
\<close>

definition cleanPath :: "string \<Rightarrow> string" where
  "cleanPath p =
     (if p = [] then ''/''
      else let q = (if hd p = CHR ''/'' then p else CHR ''/'' # p); np = Clean q
           in if List.last q = CHR ''/'' \<and> np \<noteq> ''/'' then np @ ''/'' else np)"

definition segments :: "string \<Rightarrow> string list" where
  "segments p = map (\<lambda>seg. case path_unescape seg of None \<Rightarrow> seg | Some u \<Rightarrow> u) (tl (Split p CHR ''/''))"

definition method_matches :: "string \<Rightarrow> string \<Rightarrow> bool" where
  "method_matches pm m \<longleftrightarrow> pm = [] \<or> pm = m \<or> pm = ''GET'' \<and> m = ''HEAD''"

definition path_matches :: "'s pattern \<Rightarrow> string list \<Rightarrow> bool" where
  "path_matches p segs \<longleftrightarrow>
     (if pa_subtree p then take (length (pa_segments p)) segs = pa_segments p \<and> length (pa_segments p) < length segs
      else segs = pa_segments p)"

definition find_pattern :: "'s pattern list \<Rightarrow> string \<Rightarrow> string list \<Rightarrow> 's pattern option" where
  "find_pattern ps m segs = find (\<lambda>p. method_matches (pa_method p) m \<and> path_matches p segs) ps"

text \<open>The methods a pattern takes, as the \<open>Allow\<close> header lists them.\<close>

definition allowed_methods :: "'s pattern list \<Rightarrow> string list \<Rightarrow> string list" where
  "allowed_methods ps segs =
     sort (remdups (concat (map (\<lambda>p. if pa_method p = ''GET'' then [''GET'', ''HEAD''] else [pa_method p])
       (filter (\<lambda>p. path_matches p segs) ps))))"

definition mux_serve :: "(request \<Rightarrow> string) \<Rightarrow> (string \<Rightarrow> request \<Rightarrow> writer \<Rightarrow> writer) \<Rightarrow> 's pattern list \<Rightarrow> 's http_handler" where
  "mux_serve escaped redirect ps r w s =
     (let p = cleanPath (escaped r);
          target = find_pattern ps (req_method r) (segments p);
          withSlash = find_pattern ps (req_method r) (segments (p @ ''/''));
          exact = (case target of None \<Rightarrow> False | Some t \<Rightarrow> \<not> pa_subtree t);
          slash = (case withSlash of None \<Rightarrow> False | Some t \<Rightarrow> segments (p @ ''/'') = pa_segments t @ [[]])
      in if \<not> exact \<and> List.last p \<noteq> CHR ''/'' \<and> slash then Returned (redirect (p @ ''/'') r w, s)
         else if p \<noteq> escaped r then Returned (redirect p r w, s)
         else case target of
           Some t \<Rightarrow> pa_handler t r w s
         | None \<Rightarrow>
             if list_ex (\<lambda>q. path_matches q (segments p)) ps
             then Returned (http_Error (set_header w ''Allow'' (join_with '', '' (allowed_methods ps (segments p)))) ''Method Not Allowed'' 405, s)
             else Returned (http_Error w ''404 page not found'' 404, s))"

section \<open>The handlers on the shared state\<close>

definition map_ended :: "('a \<Rightarrow> 'b) \<Rightarrow> 'a ended \<Rightarrow> 'b ended" where
  "map_ended f e = (case e of Returned x \<Rightarrow> Returned (f x) | Panicked x \<Rightarrow> Panicked (f x))"

lemma state_of_map_ended [simp]: "state_of (map_ended f e) = f (state_of e)"
  by (cases e) (simp_all add: map_ended_def)

definition on_assets :: "world \<Rightarrow> handler \<Rightarrow> app server http_handler" where
  "on_assets env h r w s =
     map_ended (\<lambda>st. (sv_writer st, s\<lparr>sr_metrics := sv_metrics st, sr_app := (sr_app s)\<lparr>pv_sem := sv_sem st\<rparr>\<rparr>))
       (serveHTTP env h r \<lparr>sv_writer = w, sv_sem = pv_sem (sr_app s), sv_metrics = sr_metrics s\<rparr>)"

definition on_limiter :: "(ipRateLimiter \<times> app server) http_handler \<Rightarrow> app server http_handler" where
  "on_limiter h r w s =
     map_ended (\<lambda>(w', l, s'). (w', s'\<lparr>sr_app := (sr_app s')\<lparr>pv_limiter := l\<rparr>\<rparr>)) (h r w (pv_limiter (sr_app s), s))"

definition on_api :: "api_state http_handler \<Rightarrow> app server http_handler" where
  "on_api h r w s =
     map_ended (\<lambda>(w', a). (w', s\<lparr>sr_metrics := ap_metrics a,
         sr_app := (sr_app s)\<lparr>pv_db := ap_db a, pv_health := (case ap_health a of None \<Rightarrow> pv_health (sr_app s) | Some x \<Rightarrow> x)\<rparr>\<rparr>))
       (h r w \<lparr>ap_db = pv_db (sr_app s), ap_metrics = sr_metrics s, ap_health = Some (pv_health (sr_app s))\<rparr>)"

section \<open>The server\<close>

text \<open>What the libraries and the environment contribute to one request.\<close>

record server_env =
  sx_world :: world
  sx_now :: int
  sx_fl :: "rat \<Rightarrow> rat"
  sx_chain :: chain_env
  sx_escaped :: "request \<Rightarrow> string"
  sx_redirect :: "string \<Rightarrow> request \<Rightarrow> writer \<Rightarrow> writer"
  sx_exposition :: "metrics \<Rightarrow> string"
  sx_yaml :: string
  sx_spec :: "(string, string) result"
  sx_encodeHealth :: "Response \<Rightarrow> string"
  sx_encodeReady :: "ReadinessResponse \<Rightarrow> string"
  sx_time :: instant
  sx_countFault :: faults
  sx_ready :: "(string, unit) result option"

text \<open>\<open>GET /metrics\<close>: the exposition of the registry by the Prometheus library.\<close>

definition metrics_endpoint :: "(metrics \<Rightarrow> string) \<Rightarrow> app server http_handler" where
  "metrics_endpoint exposition r w s = serve_text ''text/plain; version=0.0.4; charset=utf-8'' (exposition (sr_metrics s)) r w s"

definition health_endpoint :: "server_env \<Rightarrow> Config \<Rightarrow> Identity \<Rightarrow> string \<Rightarrow> app server http_handler" where
  "health_endpoint x cfg i version r w s =
     Health_Handler (sx_encodeHealth x)
       (health_response
          \<lparr>hp_service = ''audistro-provider'', hp_version = version, hp_region = cf_Region cfg, hp_publicBaseURL = cf_PublicBaseURL cfg,
           hp_providerID = id_ProviderID i, hp_publicKey = PublicKeyHexCompressed i\<rparr>
          (sx_time x) (Some (CountActive (sx_countFault x) (pv_db (sr_app s)))) (Some (HealthState_Snapshot (pv_health (sr_app s))))
          (Some (Status_Snapshot (pv_jobs (sr_app s))))) r w s"

definition assets_config :: "Config \<Rightarrow> OriginSigner \<Rightarrow> HandlerConfig" where
  "assets_config cfg originSigner =
     \<lparr>hc_AssetsRoot = Join [cf_DataPath cfg, cf_AssetsSubdir cfg], hc_MaxSegmentBytes = cf_MaxSegmentBytes cfg,
      hc_CORSEnabled = cf_EnableCORS cfg, hc_StorageMode = cf_StorageMode cfg, hc_OriginBaseURL = cf_OriginBaseURL cfg,
      hc_OriginAuthMode = cf_OriginAuthMode cfg, hc_OriginSigner = originSigner,
      hc_ProxyMaxUpstreamConcurrency = cf_ProxyMaxUpstreamConcurrency cfg,
      hc_ProxySemaphore = NewSemaphore (cf_ProxyMaxUpstreamConcurrency cfg)\<rparr>"

definition assets_endpoint :: "server_env \<Rightarrow> Config \<Rightarrow> handler \<Rightarrow> app server http_handler" where
  "assets_endpoint x cfg h =
     (let assetsHandler = on_assets (sx_world x) h;
          withCORS = (if cf_EnableCORS cfg
            then corsMiddleware \<lparr>cc_AllowedOrigins = ParseAllowedOrigins (cf_CORSAllowedOrigins cfg),
                   cc_AllowCredentials = cf_CORSAllowCredentials cfg\<rparr> assetsHandler
            else assetsHandler)
      in on_limiter (rateLimitMiddleware (sx_fl x) (sx_now x) withCORS))"

definition server_endpoints ::
  "server_env \<Rightarrow> Config \<Rightarrow> Identity \<Rightarrow> string \<Rightarrow> handler \<Rightarrow> api_state http_handler option \<Rightarrow> api_state http_handler option \<Rightarrow>
   app server endpoints" where
  "server_endpoints x cfg i version h rescan announce =
     \<lparr>en_metrics = metrics_endpoint (sx_exposition x), en_docs = DocsHandler openAPIJSONPath, en_yaml = OpenAPIYAMLHandler (sx_yaml x),
      en_json = OpenAPIJSONHandler (sx_spec x), en_healthz = health_endpoint x cfg i version,
      en_readyz = ReadyHandler (sx_encodeReady x) (sx_ready x),
      en_rescan = map_option on_api rescan, en_announce = map_option on_api announce, en_assets = assets_endpoint x cfg h\<rparr>"

text \<open>The handler of the server that \<open>NewWithDeps\<close> builds, and the state it starts with.\<close>

definition server_mux ::
  "server_env \<Rightarrow> Config \<Rightarrow> Identity \<Rightarrow> string \<Rightarrow> handler \<Rightarrow> api_state http_handler option \<Rightarrow> api_state http_handler option \<Rightarrow> app ctx_handler" where
  "server_mux x cfg i version h rescan announce ctx =
     mux_serve (sx_escaped x) (sx_redirect x) (mux_patterns cfg (server_endpoints x cfg i version h rescan announce))"

definition NewWithDeps ::
  "server_env \<Rightarrow> Config \<Rightarrow> Identity \<Rightarrow> string \<Rightarrow> handler \<Rightarrow> api_state http_handler option \<Rightarrow> api_state http_handler option \<Rightarrow>
   app server http_handler" where
  "NewWithDeps x cfg i version h rescan announce =
     server_chain (sx_chain x) (server_mux x cfg i version h rescan announce) None"

definition initial_app :: "(rat \<Rightarrow> rat) \<Rightarrow> Config \<Rightarrow> database \<Rightarrow> HealthState \<Rightarrow> Status \<Rightarrow> app" where
  "initial_app fl cfg db health jobs =
     \<lparr>pv_limiter = newLimiter fl (cf_RateLimitRPS cfg) (cf_RateLimitBurst cfg),
      pv_sem = NewSemaphore (cf_ProxyMaxUpstreamConcurrency cfg), pv_db = db, pv_health = health, pv_jobs = jobs\<rparr>"

section \<open>What the routes reach\<close>

lemma mux_serve_cases:
  "(\<exists>w'. mux_serve esc red ps r w s = Returned (w', s)) \<or>
   (\<exists>p \<in> set ps. method_matches (pa_method p) (req_method r) \<and> path_matches p (segments (esc r)) \<and> mux_serve esc red ps r w s = pa_handler p r w s)"
proof -
  have "p \<in> set ps \<and> method_matches (pa_method p) (req_method r) \<and> path_matches p segs"
    if "find_pattern ps (req_method r) segs = Some p" for p segs
    using that by (auto simp: find_pattern_def find_Some_iff)
  then show ?thesis unfolding mux_serve_def Let_def by (auto split: option.split)
qed

text \<open>With the internal API off, the server is the one without internal handlers.\<close>

lemma mux_patterns_internal_off:
  "\<not> cf_InternalEnable cfg \<Longrightarrow> mux_patterns cfg e = mux_patterns cfg (e\<lparr>en_rescan := None, en_announce := None\<rparr>)"
  by (simp add: mux_patterns_def)

lemma mux_patterns_handlers:
  "p \<in> set (mux_patterns cfg e) \<Longrightarrow>
     pa_handler p \<in> {en_metrics e, en_docs e, en_yaml e, en_json e, en_healthz e, en_readyz e, en_assets e} \<or>
     cf_InternalEnable cfg \<and> pa_method p = ''POST'' \<and>
       (pa_segments p = [''internal'', ''rescan''] \<and> en_rescan e = Some (pa_handler p) \<or>
        pa_segments p = [''internal'', ''announce''] \<and> en_announce e = Some (pa_handler p))"
  by (auto simp: mux_patterns_def pat_def split: if_splits option.splits)

section \<open>What requests leave alone\<close>

text \<open>A handler is \<open>well_behaved\<close> if a call adds nothing to the metrics of requests, gives back its upstream permits, and changes the database by its operations only.\<close>

definition keeps :: "bool \<Rightarrow> app server \<Rightarrow> app server \<Rightarrow> bool" where
  "keeps fk s s' \<longleftrightarrow> http_events (sr_metrics s') = http_events (sr_metrics s) \<and> pv_sem (sr_app s') = pv_sem (sr_app s) \<and>
     (db_step fk)\<^sup>*\<^sup>* (pv_db (sr_app s)) (pv_db (sr_app s'))"

definition well_behaved :: "bool \<Rightarrow> app server http_handler \<Rightarrow> bool" where
  "well_behaved fk h \<longleftrightarrow> (\<forall>r w s. keeps fk s (snd (state_of (h r w s))))"

lemma keeps_refl [simp]: "keeps fk s s"
  by (simp add: keeps_def)

lemma well_behaved_returning: "(\<And>r w s. \<exists>w'. h r w s = Returned (w', s)) \<Longrightarrow> well_behaved fk h"
  unfolding well_behaved_def by (metis keeps_refl snd_conv state_of.simps(1))

lemma well_behaved_mux:
  assumes "\<And>p. p \<in> set ps \<Longrightarrow> well_behaved fk (pa_handler p)"
  shows "well_behaved fk (mux_serve esc red ps)"
  unfolding well_behaved_def
proof (intro allI)
  fix r w s
  show "keeps fk s (snd (state_of (mux_serve esc red ps r w s)))"
    using mux_serve_cases [of esc red ps r w s] assms by (auto simp: well_behaved_def)
qed

lemma proxy_trace: "http_events (sv_metrics (state_of (ServeProxy env h r req st))) = http_events (sv_metrics st)"
proof -
  have "http_events (sv_metrics (state_of (proxy_inner env h u r req st))) = http_events (sv_metrics st)" for u st
    by (auto simp: proxy_inner_def Let_def split: ended.split)
  then show ?thesis by (auto simp: ServeProxy_def Let_def split: option.split prod.split bool.split)
qed

lemma serveHTTP_trace:
  "http_events (sv_metrics (state_of (serveHTTP env h r st))) = http_events (sv_metrics st)"
  "sv_sem (state_of (serveHTTP env h r st)) = sv_sem st"
  using proxy_trace ServeProxy_balanced by (auto simp: serveHTTP_def Let_def split: sum.split prod.split)

lemma on_assets_well_behaved: "well_behaved fk (on_assets env h)"
  unfolding well_behaved_def keeps_def by (simp add: on_assets_def serveHTTP_trace)

lemma cors_well_behaved: "well_behaved fk h \<Longrightarrow> well_behaved fk (corsMiddleware c h)"
  by (auto simp: well_behaved_def corsMiddleware_def Let_def)

lemma limiter_well_behaved:
  assumes "well_behaved fk h"
  shows "well_behaved fk (on_limiter (rateLimitMiddleware fl now h))"
  unfolding well_behaved_def
proof (intro allI)
  fix r w s
  have "keeps fk s (snd (state_of (h r w s)))" using assms by (simp add: well_behaved_def)
  then show "keeps fk s (snd (state_of (on_limiter (rateLimitMiddleware fl now h) r w s)))"
    by (auto simp: on_limiter_def rateLimitMiddleware_def keeps_def split: prod.split bool.split ended.split)
qed

lemma Scan_metrics: "\<exists>res. snd (Scan env dir m) = ObserveScan res (se_elapsed env) m"
  by (auto simp: Scan_def Let_def split: option.split sum.split)

lemma RunRescan_metrics: "\<exists>res. snd (snd (RunRescan env dir now rf db m)) = ObserveScan res (se_elapsed env) m"
  using Scan_metrics [of env dir m] by (auto simp: RunRescan_def Let_def split: prod.split sum.split)

lemma rescan_well_behaved: "well_behaved fk (on_api (rescanHandler env dir now rf))"
  unfolding well_behaved_def
proof (intro allI)
  fix r w and s :: "app server"
  let ?a = "\<lparr>ap_db = pv_db (sr_app s), ap_metrics = sr_metrics s, ap_health = Some (pv_health (sr_app s))\<rparr>"
  obtain res where m: "snd (snd (RunRescan env dir now rf (pv_db (sr_app s)) (sr_metrics s))) = ObserveScan res (se_elapsed env) (sr_metrics s)"
    using RunRescan_metrics by blast
  have "ap_metrics (snd (state_of (rescanHandler env dir now rf r w ?a))) \<in> {sr_metrics s, ObserveScan res (se_elapsed env) (sr_metrics s)}"
    using m by (auto simp: rescanHandler_def split: prod.split sum.split)
  then have "http_events (ap_metrics (snd (state_of (rescanHandler env dir now rf r w ?a)))) = http_events (sr_metrics s)"
    unfolding insert_iff empty_iff by (elim disjE) simp_all
  then show "keeps fk s (snd (state_of (on_api (rescanHandler env dir now rf) r w s)))"
    using rescanHandler_steps [of fk ?a env dir now rf r w] by (auto simp: on_api_def keeps_def split: prod.split)
qed

text \<open>The client of the announce endpoint is the catalog client.\<close>

definition api_client ::
  "catalog_net \<Rightarrow> (url_parts \<Rightarrow> string) \<Rightarrow> int \<Rightarrow> Client \<Rightarrow> Identity \<Rightarrow> AnnounceRequest \<Rightarrow> metrics \<Rightarrow>
   (catalog_error, AnnounceResponse) result \<times> metrics" where
  "api_client net us el c i req m = Announce net us el c i req m"

lemma Announce_metrics: "\<exists>res st. snd (Announce net us el c i req m) = ObserveCatalog ''providers_announce'' res st el m"
  by (auto simp: Announce_def Let_def split: sum.split json_result.split)

lemma announce_fold_metrics:
  assumes "\<forall>i req m. \<exists>res st. snd (client i req m) = ObserveCatalog ''providers_announce'' res st el m"
  shows "http_events (ap_metrics (snd (fold (announce_asset env client i cfg now) ids p))) = http_events (ap_metrics (snd p))"
proof -
  define seen where "seen m' m \<longleftrightarrow> m' = m \<or> (\<exists>res st. m' = ObserveCatalog ''providers_announce'' res st el m)" for m' m
  have one: "seen (ap_metrics (snd (announce_asset env client i cfg now a p))) (ap_metrics (snd p))" for a p
  proof (cases "BuildAnnouncement (ae_lib env a) i cfg a now")
    case (Inl e)
    then show ?thesis by (simp add: announce_asset_def sink_def put_status_def seen_def split: prod.split)
  next
    case (Inr req)
    obtain res st where "snd (client i req (ap_metrics (snd p))) = ObserveCatalog ''providers_announce'' res st el (ap_metrics (snd p))"
      using assms by blast
    then have "seen (snd (client i req (ap_metrics (snd p)))) (ap_metrics (snd p))" unfolding seen_def by blast
    then show ?thesis using Inr
      by (auto simp: announce_asset_def sink_def put_status_def Let_def split: prod.splits sum.split)
  qed
  have kept: "seen m' m \<Longrightarrow> http_events m' = http_events m" for m' m unfolding seen_def by auto
  show ?thesis by (induction ids arbitrary: p) (simp_all add: kept [OF one])
qed

lemma announce_well_behaved:
  assumes "\<And>client. ae_client env = Some client \<Longrightarrow> \<exists>net us el c. client = api_client net us el c"
  shows "well_behaved (ae_fk env) (on_api (announceHandler env body now i cfg))"
  unfolding well_behaved_def
proof (intro allI)
  fix r w and s :: "app server"
  let ?a = "\<lparr>ap_db = pv_db (sr_app s), ap_metrics = sr_metrics s, ap_health = Some (pv_health (sr_app s))\<rparr>"
  have "http_events (ap_metrics (snd (state_of (announceHandler env body now i cfg r w ?a)))) = http_events (sr_metrics s)"
  proof (cases "ae_client env")
    case (Some client)
    then obtain net us el c where c: "client = api_client net us el c" using assms by blast
    have "\<forall>i req m. \<exists>res st. snd (client i req m) = ObserveCatalog ''providers_announce'' res st el m"
      unfolding c api_client_def using Announce_metrics by blast
    note tr = announce_fold_metrics [OF this]
    show ?thesis
    proof (cases "announce_ids env body (ap_db ?a)")
      case (Inr ids)
      let ?p = "(\<lparr>su_Attempted = int (length ids), su_OK = 0, su_Rejected = 0, su_Failed = 0\<rparr>, ?a)"
      obtain sm a' where run: "fold (announce_asset env client i cfg now) ids ?p = (sm, a')" by fastforce
      show ?thesis
        using tr [where env = env and i = i and cfg = cfg and now = now and ids = ids and p = ?p] Some Inr run
        by (simp add: announceHandler_def)
    qed (use Some in \<open>auto simp: announceHandler_def split: prod.split\<close>)
  qed (simp add: announceHandler_def)
  then show "keeps (ae_fk env) s (snd (state_of (on_api (announceHandler env body now i cfg) r w s)))"
    using announceHandler_steps [of env ?a body now i cfg r w] by (auto simp: on_api_def keeps_def split: prod.split)
qed

lemma allowlist_split:
  "on_api (ipAllowlistMiddleware cfg h) r w s \<in> {on_api h r w s, Returned (api_writeJSONError w 403 ''forbidden'', s)}"
  by (auto simp: on_api_def ipAllowlistMiddleware_def map_ended_def Let_def split: option.split)

lemma allowlist_well_behaved: "well_behaved fk (on_api h) \<Longrightarrow> well_behaved fk (on_api (ipAllowlistMiddleware cfg h))"
  unfolding well_behaved_def
  by (metis allowlist_split empty_iff insertE keeps_refl snd_conv state_of.simps(1))

lemma plain_endpoints_well_behaved:
  "well_behaved fk (metrics_endpoint ex)" "well_behaved fk (DocsHandler p)" "well_behaved fk (OpenAPIYAMLHandler y)"
  "well_behaved fk (OpenAPIJSONHandler sp)" "well_behaved fk (health_endpoint x cfg i v)" "well_behaved fk (ReadyHandler enc c)"
  by (rule well_behaved_returning; auto simp: metrics_endpoint_def DocsHandler_def OpenAPIYAMLHandler_def OpenAPIJSONHandler_def
      health_endpoint_def Health_Handler_def ReadyHandler_def serve_text_def split: sum.split prod.split)+

lemma assets_endpoint_well_behaved: "well_behaved fk (assets_endpoint x cfg h)"
  by (simp add: assets_endpoint_def Let_def limiter_well_behaved cors_well_behaved on_assets_well_behaved)

lemma server_mux_well_behaved:
  assumes "\<And>h. rescan = Some h \<Longrightarrow> well_behaved fk (on_api h)" "\<And>h. announce = Some h \<Longrightarrow> well_behaved fk (on_api h)"
  shows "well_behaved fk (server_mux x cfg i version h rescan announce ctx)"
  unfolding server_mux_def
proof (rule well_behaved_mux)
  fix p
  assume "p \<in> set (mux_patterns cfg (server_endpoints x cfg i version h rescan announce))"
  from mux_patterns_handlers [OF this] show "well_behaved fk (pa_handler p)"
    using assms plain_endpoints_well_behaved assets_endpoint_well_behaved by (auto simp: server_endpoints_def)
qed

section \<open>Unambiguous routes\<close>

text \<open>Two patterns that take the same method never take the same path: they differ in the first segment, in the number of segments, or in
  the second one.\<close>

definition disjoint_patterns :: "'s pattern \<Rightarrow> 's pattern \<Rightarrow> bool" where
  "disjoint_patterns p q \<longleftrightarrow>
     (\<forall>segs. \<not> (path_matches p segs \<and> path_matches q segs)) \<or> (\<forall>m. \<not> (method_matches (pa_method p) m \<and> method_matches (pa_method q) m))"

lemma mux_patterns_disjoint: "sorted_wrt disjoint_patterns (mux_patterns cfg e)"
proof -
  have exact: "disjoint_patterns (pat m a False h) (pat m' b False h')" if "a \<noteq> b" for m a h m' b and h' :: "'s http_handler"
    using that by (auto simp: disjoint_patterns_def path_matches_def pat_def)
  have mixed: "disjoint_patterns (pat m a False h) (pat m' [b] True h')" if "a \<noteq> [] \<and> hd a \<noteq> b \<or> length a = 1" for m a h m' b and h' :: "'s http_handler"
    using that by (cases a) (auto simp: disjoint_patterns_def path_matches_def pat_def)
  have trees: "disjoint_patterns (pat m [a] True h) (pat m' [b] True h')" if "a \<noteq> b" for m a h m' b and h' :: "'s http_handler"
    using that by (auto simp: disjoint_patterns_def path_matches_def pat_def)
  have swap: "disjoint_patterns p q \<Longrightarrow> disjoint_patterns q p" for p q :: "'s pattern" by (auto simp: disjoint_patterns_def)
  show ?thesis
    unfolding mux_patterns_def
    by (auto simp: exact mixed trees swap [OF mixed] sorted_wrt_append split: option.splits)
qed

lemma sorted_wrt_pairs:
  "sorted_wrt P xs \<Longrightarrow> x \<in> set xs \<Longrightarrow> y \<in> set xs \<Longrightarrow> x = y \<or> P x y \<or> P y x"
  by (induction xs) auto

lemma find_unique:
  assumes "set ps = set qs" "\<And>x y. x \<in> set qs \<Longrightarrow> y \<in> set qs \<Longrightarrow> P x \<Longrightarrow> P y \<Longrightarrow> x = y"
  shows "find P ps = find P qs"
proof (cases "find P ps")
  case None
  then show ?thesis using assms(1) by (simp add: find_None_iff) (metis find_None_iff)
next
  case (Some x)
  then have x: "x \<in> set qs" "P x" using assms(1) by (auto simp: find_Some_iff)
  then obtain y where y: "find P qs = Some y" by (cases "find P qs") (auto simp: find_None_iff)
  then have "y \<in> set qs" "P y" by (auto simp: find_Some_iff)
  then show ?thesis using assms(2) x y Some by simp
qed

text \<open>The order of registration does not matter: however the patterns of the server are listed, every request is routed to the same handler or
  gets the same redirect, 404 or 405 with the same \<open>Allow\<close> header, because at most one pattern takes any method and path. So the first match and
  the most specific match of \<open>http.ServeMux\<close> are the same, and no registration conflicts.\<close>

lemma routes_unambiguous:
  assumes "set ps = set (mux_patterns cfg e)"
  shows "mux_serve escaped redirect ps r w s = mux_serve escaped redirect (mux_patterns cfg e) r w s"
proof -
  have one: "p = q" if "p \<in> set (mux_patterns cfg e)" "q \<in> set (mux_patterns cfg e)"
    "method_matches (pa_method p) m \<and> path_matches p segs" "method_matches (pa_method q) m \<and> path_matches q segs" for p q m segs
    using sorted_wrt_pairs [OF mux_patterns_disjoint that(1,2)] that(3,4) by (auto simp: disjoint_patterns_def)
  have f: "find_pattern ps m segs = find_pattern (mux_patterns cfg e) m segs" for m segs
    unfolding find_pattern_def by (rule find_unique [OF assms]) (rule one)
  have x: "list_ex P ps = list_ex P (mux_patterns cfg e)" for P using assms by (simp add: list_ex_iff)
  have "sort (remdups xs) = sort (remdups ys)" if "set xs = set ys" for xs ys :: "string list"
    using that by (simp add: sorted_list_of_set_sort_remdups [symmetric])
  then have a: "allowed_methods ps segs = allowed_methods (mux_patterns cfg e) segs" for segs
    unfolding allowed_methods_def by (simp add: assms)
  show ?thesis unfolding mux_serve_def f x a ..
qed

section \<open>The routing table\<close>

text \<open>The methods and the handler for the segments of a path; an empty list stands for every method.\<close>

definition route_table ::
  "server_env \<Rightarrow> Config \<Rightarrow> Identity \<Rightarrow> string \<Rightarrow> handler \<Rightarrow> api_state http_handler option \<Rightarrow> api_state http_handler option \<Rightarrow>
   string list \<Rightarrow> (string list \<times> app server http_handler) option" where
  "route_table x cfg i version h rescan announce segs =
     (if segs = [''metrics''] then Some ([''GET'', ''HEAD''], metrics_endpoint (sx_exposition x))
      else if segs = [''openapi.yaml''] then Some ([''GET'', ''HEAD''], OpenAPIYAMLHandler (sx_yaml x))
      else if segs = [''openapi.json''] then Some ([''GET'', ''HEAD''], OpenAPIJSONHandler (sx_spec x))
      else if segs = [''healthz''] then Some ([''GET'', ''HEAD''], health_endpoint x cfg i version)
      else if segs = [''readyz''] then Some ([''GET'', ''HEAD''], ReadyHandler (sx_encodeReady x) (sx_ready x))
      else if take 1 segs = [''docs''] then Some ([''GET'', ''HEAD''], DocsHandler openAPIJSONPath)
      else if segs = [''internal'', ''rescan''] then
        (if cf_InternalEnable cfg then map_option (\<lambda>f. ([''POST''], on_api f)) rescan else None)
      else if segs = [''internal'', ''announce''] then
        (if cf_InternalEnable cfg then map_option (\<lambda>f. ([''POST''], on_api f)) announce else None)
      else if take 1 segs = [''assets''] \<and> 1 < length segs then Some ([], assets_endpoint x cfg h)
      else None)"

abbreviation row_methods :: "string \<Rightarrow> string list" where
  "row_methods m \<equiv> if m = [] then [] else if m = ''GET'' then [''GET'', ''HEAD''] else [m]"

lemma path_rows:
  "map (\<lambda>p. (row_methods (pa_method p), pa_handler p))
     (filter (\<lambda>p. path_matches p segs) (mux_patterns cfg (server_endpoints x cfg i version h rescan announce))) =
   (case route_table x cfg i version h rescan announce segs of None \<Rightarrow> [] | Some row \<Rightarrow> [row])"
proof (cases segs)
  case (Cons a rest)
  then show ?thesis
    by (cases rest) (simp_all add: mux_patterns_def server_endpoints_def path_matches_def pat_def route_table_def split: option.split)
qed (simp add: mux_patterns_def server_endpoints_def path_matches_def pat_def route_table_def split: option.split)

lemma find_filter: "find (\<lambda>x. P x \<and> Q x) xs = find P (filter Q xs)"
  by (induction xs) auto

lemma segments_slash: "p \<noteq> [] \<Longrightarrow> segments (p @ ''/'') = segments p @ [[]]"
  using Split_append_sep [of p "CHR ''/''" "[]"] by (cases "Split p CHR ''/''") (auto simp: segments_def)

lemma segments_last: "List.last p = CHR ''/'' \<Longrightarrow> p \<noteq> [] \<Longrightarrow> List.last (segments p) = []"
proof -
  assume "List.last p = CHR ''/''" "p \<noteq> []"
  then obtain q where "p = q @ CHR ''/'' # []" by (metis append_butlast_last_id)
  then show ?thesis using Split_append_sep [of q "CHR ''/''" "[]"] by (cases "Split q CHR ''/''") (auto simp: segments_def)
qed

lemma cleanPath_not_Nil [simp]: "cleanPath p \<noteq> []"
  by (simp add: cleanPath_def Let_def)

lemma method_row: "method_matches pm m \<longleftrightarrow> row_methods pm = [] \<or> m \<in> set (row_methods pm)"
  by (auto simp: method_matches_def)

lemma subtree_patterns:
  "t \<in> set (mux_patterns cfg e) \<Longrightarrow> pa_subtree t \<Longrightarrow>
   pa_segments t = [''docs''] \<and> pa_method t = ''GET'' \<or> pa_segments t = [''assets''] \<and> pa_method t = []"
  by (auto simp: mux_patterns_def pat_def split: if_splits option.splits)

text \<open>The redirect to the path with a slash: only for \<open>/assets\<close>, since \<open>/docs\<close> is registered both ways.\<close>

lemma slash_redirect:
  fixes cfg e m segs
  defines "ps \<equiv> mux_patterns cfg e"
  shows "(case find_pattern ps m segs of None \<Rightarrow> False | Some t \<Rightarrow> \<not> pa_subtree t) \<or>
      \<not> (case find_pattern ps m (segs @ [[]]) of None \<Rightarrow> False | Some t \<Rightarrow> segs @ [[]] = pa_segments t @ [[]]) \<longleftrightarrow> segs \<noteq> [''assets'']"
proof (cases "segs = [''assets'']")
  case True
  have "find_pattern ps m [''assets''] = None" "find_pattern ps m [''assets'', []] = Some (pat [] [''assets''] True (en_assets e))"
    by (auto simp: ps_def find_pattern_def mux_patterns_def pat_def path_matches_def method_matches_def split: option.split)
  then show ?thesis using True by (simp add: pat_def)
next
  case False
  have "\<exists>u. find_pattern ps m segs = Some u \<and> \<not> pa_subtree u"
    if t: "find_pattern ps m (segs @ [[]]) = Some t" "pa_segments t = segs" for t
  proof -
    have mem: "t \<in> set ps" "method_matches (pa_method t) m" "path_matches t (segs @ [[]])"
      using t(1) by (auto simp: find_pattern_def find_Some_iff)
    then have "pa_subtree t" using t(2) by (auto simp: path_matches_def split: if_splits)
    then have docs: "segs = [''docs'']" "pa_method t = ''GET''" using subtree_patterns [of t cfg e] mem(1) t(2) False by (auto simp: ps_def)
    then have "find_pattern ps m segs = Some (pat ''GET'' [''docs''] False (en_docs e))"
      using mem(2) by (simp add: ps_def find_pattern_def mux_patterns_def pat_def path_matches_def)
    then show ?thesis by (simp add: pat_def)
  qed
  then show ?thesis using False by (auto split: option.split)
qed

lemma server_mux_clean:
  fixes x cfg i version h rescan announce
  assumes "cleanPath (sx_escaped x r) = sx_escaped x r"
  defines "segs \<equiv> segments (sx_escaped x r)" and "ps \<equiv> mux_patterns cfg (server_endpoints x cfg i version h rescan announce)"
  shows "server_mux x cfg i version h rescan announce ctx r w s =
    (if segs = [''assets''] then Returned (sx_redirect x (sx_escaped x r @ ''/'') r w, s)
     else case find_pattern ps (req_method r) segs of
       Some t \<Rightarrow> pa_handler t r w s
     | None \<Rightarrow> if list_ex (\<lambda>q. path_matches q segs) ps
         then Returned (http_Error (set_header w ''Allow'' (join_with '', '' (allowed_methods ps segs))) ''Method Not Allowed'' 405, s)
         else Returned (http_Error w ''404 page not found'' 404, s))"
proof -
  have nonempty: "sx_escaped x r \<noteq> []" using assms(1) cleanPath_not_Nil by metis
  have ends: "List.last (sx_escaped x r) \<noteq> CHR ''/''" if "segs = [''assets'']"
    using segments_last [OF _ nonempty] that by (auto simp: segs_def)
  show ?thesis
    unfolding server_mux_def mux_serve_def assms(1) Let_def segments_slash [OF nonempty] segs_def [symmetric] ps_def [symmetric]
    using slash_redirect [of cfg "server_endpoints x cfg i version h rescan announce" "req_method r" segs, folded ps_def] ends by auto
qed

section \<open>Properties\<close>

text \<open>C24. Every route of the server, exactly: on a request whose escaped path is clean, the router calls the handler that the routing table gives for
  the segments of the path if the method is one of its methods, answers 405 with these methods in \<open>Allow\<close> if it is not, redirects \<open>/assets\<close>
  to \<open>/assets/\<close>, and answers 404 to every other path. In particular the internal endpoints exist only when they are enabled and have a
  handler. A path that is not clean is redirected and reaches no handler.\<close>

theorem routes_exact:
  fixes x and r
  defines "segs \<equiv> segments (sx_escaped x r)"
  shows "(cleanPath (sx_escaped x r) = sx_escaped x r \<longrightarrow>
      server_mux x cfg i version h rescan announce ctx r w s =
        (if segs = [''assets''] then Returned (sx_redirect x (sx_escaped x r @ ''/'') r w, s)
         else case route_table x cfg i version h rescan announce segs of
           None \<Rightarrow> Returned (http_Error w ''404 page not found'' 404, s)
         | Some (methods, f) \<Rightarrow>
             if methods = [] \<or> req_method r \<in> set methods then f r w s
             else Returned (http_Error (set_header w ''Allow'' (join_with '', '' methods)) ''Method Not Allowed'' 405, s))) \<and>
    (cleanPath (sx_escaped x r) \<noteq> sx_escaped x r \<and> req_method r \<noteq> ''CONNECT'' \<longrightarrow>
      (\<exists>target. server_mux x cfg i version h rescan announce ctx r w s = Returned (sx_redirect x target r w, s)))"
proof (intro conjI impI)
  let ?p = "sx_escaped x r" and ?ps = "mux_patterns cfg (server_endpoints x cfg i version h rescan announce)"
  assume clean: "cleanPath ?p = ?p"
  have rows: "map (\<lambda>p. (row_methods (pa_method p), pa_handler p)) (filter (\<lambda>p. path_matches p segs) ?ps) =
    (case route_table x cfg i version h rescan announce segs of None \<Rightarrow> [] | Some row \<Rightarrow> [row])" by (rule path_rows)
  note unfolded = server_mux_clean [OF clean, of cfg i version h rescan announce ctx w s, folded segs_def]
  show "server_mux x cfg i version h rescan announce ctx r w s =
        (if segs = [''assets''] then Returned (sx_redirect x (?p @ ''/'') r w, s)
         else case route_table x cfg i version h rescan announce segs of
           None \<Rightarrow> Returned (http_Error w ''404 page not found'' 404, s)
         | Some (methods, f) \<Rightarrow>
             if methods = [] \<or> req_method r \<in> set methods then f r w s
             else Returned (http_Error (set_header w ''Allow'' (join_with '', '' methods)) ''Method Not Allowed'' 405, s))"
  proof (cases "route_table x cfg i version h rescan announce segs")
    case None
    then have "filter (\<lambda>p. path_matches p segs) ?ps = []" using rows by simp
    then show ?thesis unfolding unfolded find_pattern_def find_filter by (simp add: None filter_empty_conv list_ex_iff)
  next
    case (Some row)
    then obtain q where q: "filter (\<lambda>p. path_matches p segs) ?ps = [q]" "row = (row_methods (pa_method q), pa_handler q)"
      using rows by (auto simp: map_eq_Cons_conv)
    then have "list_ex (\<lambda>q. path_matches q segs) ?ps" by (metis filter_eq_ConsD in_set_conv_decomp list_ex_iff)
    moreover have "allowed_methods ?ps segs = row_methods (pa_method q)" if "pa_method q \<noteq> []"
      using that unfolding allowed_methods_def q(1) by simp
    ultimately show ?thesis
      unfolding unfolded find_pattern_def find_filter q(1) Some q(2) using method_row [of "pa_method q" "req_method r"] by simp
  qed
next
  assume "cleanPath (sx_escaped x r) \<noteq> sx_escaped x r \<and> req_method r \<noteq> ''CONNECT''"
  then show "\<exists>target. server_mux x cfg i version h rescan announce ctx r w s = Returned (sx_redirect x target r w, s)"
    unfolding server_mux_def mux_serve_def Let_def by auto
qed

definition demo_server_env :: server_env where
  "demo_server_env = \<lparr>sx_world = demo_world, sx_now = 0, sx_fl = id, sx_chain = demo_chain, sx_escaped = req_path,
     sx_redirect = (\<lambda>u r w. WriteHeader w 301), sx_exposition = (\<lambda>_. []), sx_yaml = [], sx_spec = Ok [], sx_encodeHealth = he_Status,
     sx_encodeReady = re_Status, sx_time = 0, sx_countFault = (\<lambda>_. False), sx_ready = None\<rparr>"

theorem routes_exact_witness:
  "\<forall>ctx s. server_mux demo_server_env ((Load Map.empty)\<lparr>cf_InternalEnable := True\<rparr>) demo_identity ''v1'' demo_handler
     (Some (\<lambda>r w s. Panicked (w, s))) None ctx ((demo_post [] Map.empty)\<lparr>req_method := ''GET''\<rparr>) fresh_writer s =
   Returned (http_Error (set_header fresh_writer ''Allow'' ''POST'') ''Method Not Allowed'' 405, s)"
proof (intro allI)
  fix ctx and s :: "app server"
  let ?r = "(demo_post [] Map.empty)\<lparr>req_method := ''GET''\<rparr>"
  have esc: "sx_escaped demo_server_env ?r = ''/internal/rescan''" by (simp add: demo_server_env_def demo_post_def)
  have p: "cleanPath ''/internal/rescan'' = ''/internal/rescan''" "segments ''/internal/rescan'' = [''internal'', ''rescan'']" by code_simp+
  show "server_mux demo_server_env ((Load Map.empty)\<lparr>cf_InternalEnable := True\<rparr>) demo_identity ''v1'' demo_handler
     (Some (\<lambda>r w s. Panicked (w, s))) None ctx ?r fresh_writer s =
   Returned (http_Error (set_header fresh_writer ''Allow'' ''POST'') ''Method Not Allowed'' 405, s)"
    using routes_exact [of demo_server_env ?r "(Load Map.empty)\<lparr>cf_InternalEnable := True\<rparr>" demo_identity "''v1''" demo_handler
      "Some (\<lambda>r w s. Panicked (w, s))" None ctx fresh_writer s]
    by (simp add: esc p route_table_def)
qed

end
