(* ===== verification/Db.thy ===== *)
theory Db
  imports Config Repository
begin

text \<open>
  Package \<open>db\<close>: opening the database and bringing its schema up to date. A table is its columns and its rows, a row gives
  every column a text or NULL. The \<open>k\<close>-th statement may fail, as \<open>fault\<close> says; a transaction that is not committed leaves the
  stored tables as they were.
\<close>

section \<open>Opening\<close>

datatype open_step = MkdirData | MkdirDb | SqlOpen | Pragma nat | Ping

datatype open_action = Opened string | Executed string | Closed

definition pragmas :: "string list" where
  "pragmas = [''PRAGMA journal_mode=WAL;'', ''PRAGMA busy_timeout=5000;'', ''PRAGMA foreign_keys=ON;'']"

text \<open>The loop over the pragmas: the actions on the handle, and an error if one fails.\<close>

fun apply_pragmas :: "(open_step \<Rightarrow> bool) \<Rightarrow> nat \<Rightarrow> string list \<Rightarrow> (string, unit) result \<times> open_action list" where
  "apply_pragmas fails k [] = (Ok (), [])"
| "apply_pragmas fails k (p # ps) =
     (if fails (Pragma k) then (Err (''apply pragma '' @ p), [Closed])
      else case apply_pragmas fails (Suc k) ps of (r, acts) \<Rightarrow> (r, Executed p # acts))"

definition Open :: "(open_step \<Rightarrow> bool) \<Rightarrow> Config \<Rightarrow> (string, unit) result \<times> open_action list" where
  "Open fails cfg =
     (if fails MkdirData then (Err ''create data path'', [])
      else if fails MkdirDb then (Err ''create db dir'', [])
      else if fails SqlOpen then (Err ''open db'', [])
      else case apply_pragmas fails 0 pragmas of
        (Inl e, acts) \<Rightarrow> (Err e, Opened (cf_DBPath cfg) # acts)
      | (Inr _, acts) \<Rightarrow>
          if fails Ping then (Err ''ping db'', Opened (cf_DBPath cfg) # acts @ [Closed])
          else (Ok (), Opened (cf_DBPath cfg) # acts))"

section \<open>Schema\<close>

record column =
  cl_name :: string
  cl_notnull :: bool
  cl_default :: "string option"

record sql_table =
  tl_columns :: "column list"
  tl_rows :: "(string \<Rightarrow> string option) list"

record schema =
  sc_version :: "int option"
  sc_assets :: "sql_table option"
  sc_announcements :: "sql_table option"

definition currentSchemaVersion :: int where
  "currentSchemaVersion = 1"

definition col :: "string \<Rightarrow> bool \<Rightarrow> string option \<Rightarrow> column" where
  "col n nn d = \<lparr>cl_name = n, cl_notnull = nn, cl_default = d\<rparr>"

definition assets_table :: sql_table where
  "assets_table = \<lparr>tl_columns = [col ''asset_id'' False None, col ''status'' True None, col ''master_playlist_path'' True None,
     col ''content_hash'' True None, col ''file_count'' True None, col ''total_size_bytes'' True None,
     col ''last_scanned_at'' True None, col ''created_at'' True None, col ''updated_at'' True None, col ''missing_at'' False None],
     tl_rows = []\<rparr>"

definition announcements_table :: sql_table where
  "announcements_table = \<lparr>tl_columns = [col ''asset_id'' False None, col ''last_announced_at'' False None,
     col ''expires_at'' False None, col ''status'' True None, col ''created_at'' True None, col ''updated_at'' True None],
     tl_rows = []\<rparr>"

definition create_missing :: "sql_table \<Rightarrow> sql_table option \<Rightarrow> sql_table option" where
  "create_missing t old = (case old of None \<Rightarrow> Some t | Some _ \<Rightarrow> old)"

text \<open>The unique index exists only where the column does and its texts differ.\<close>

definition indexable :: "sql_table option \<Rightarrow> bool" where
  "indexable t =
     (case t of None \<Rightarrow> False
      | Some t \<Rightarrow> list_ex (\<lambda>c. ToLower (cl_name c) = ''asset_id'') (tl_columns t) \<and>
          distinct (filter (\<lambda>v. v \<noteq> None) (map (\<lambda>r. r ''asset_id'') (tl_rows t))))"

definition stmt :: "bool \<Rightarrow> bool \<Rightarrow> 'a \<Rightarrow> (string, 'a) result" where
  "stmt failed ok x = (if failed \<or> \<not> ok then Err ''migration statement failed'' else Ok x)"

definition add_column :: "column \<Rightarrow> sql_table \<Rightarrow> sql_table" where
  "add_column c t = \<lparr>tl_columns = tl_columns t @ [c], tl_rows = map (\<lambda>r. r(cl_name c := cl_default c)) (tl_rows t)\<rparr>"

text \<open>Column names are compared exactly here, but without regard to case by SQLite.\<close>

definition ensureAnnouncementColumn :: "bool \<Rightarrow> bool \<Rightarrow> column \<Rightarrow> sql_table \<Rightarrow> (string, sql_table) result" where
  "ensureAnnouncementColumn queryFault alterFault c t =
     (if queryFault then Err ''read announcements table info''
      else if list_ex (\<lambda>c'. cl_name c' = cl_name c) (tl_columns t) then Ok t
      else if alterFault \<or> list_ex (\<lambda>c'. ToLower (cl_name c') = ToLower (cl_name c)) (tl_columns t)
      then Err (''add announcements column '' @ cl_name c)
      else Ok (add_column c t))"

definition ensured :: "column list" where
  "ensured = [col ''last_announced_at'' False None, col ''expires_at'' False None, col ''status'' True (Some ''failed''),
     col ''created_at'' True (Some []), col ''updated_at'' True (Some [])]"

fun ensure_all :: "faults \<Rightarrow> nat \<Rightarrow> column list \<Rightarrow> sql_table \<Rightarrow> (string, sql_table) result" where
  "ensure_all fault k [] t = Ok t"
| "ensure_all fault k (c # cs) t =
     andThen (ensureAnnouncementColumn (fault k) (fault (k + 1)) c t) (\<lambda>t'. ensure_all fault (k + 2) cs t')"

text \<open>
  Statement 0 begins the transaction, 1 to 5 are the list in the source, 6 reads the version, 7 to 16 belong to the five columns, 17
  commits.
\<close>

definition migrate_tx :: "faults \<Rightarrow> schema \<Rightarrow> (string, schema) result" where
  "migrate_tx fault s =
     andThen (stmt (fault 1) True ()) (\<lambda>_.
     andThen (stmt (fault 2) True (s\<lparr>sc_version := (case sc_version s of None \<Rightarrow> Some 1 | v \<Rightarrow> v)\<rparr>)) (\<lambda>s2.
     andThen (stmt (fault 3) True (s2\<lparr>sc_assets := create_missing assets_table (sc_assets s2)\<rparr>)) (\<lambda>s3.
     andThen (stmt (fault 4) True (s3\<lparr>sc_announcements := create_missing announcements_table (sc_announcements s3)\<rparr>)) (\<lambda>s4.
     andThen (stmt (fault 5) (indexable (sc_announcements s4)) ()) (\<lambda>_.
       if fault 6 then Err ''read schema version''
       else if sc_version s4 \<noteq> Some currentSchemaVersion then Err ''unsupported schema version''
       else case sc_announcements s4 of
         None \<Rightarrow> Err ''read announcements table info''
       | Some t \<Rightarrow> andThen (ensure_all fault 7 ensured t) (\<lambda>t'. Ok (s4\<lparr>sc_announcements := Some t'\<rparr>)))))))"

definition Migrate :: "faults \<Rightarrow> schema \<Rightarrow> (string, unit) result \<times> schema" where
  "Migrate fault s =
     (if fault 0 then (Err ''begin migration tx'', s)
      else case migrate_tx fault s of
        Inl e \<Rightarrow> (Err e, s)
      | Inr s' \<Rightarrow> if fault 17 then (Err ''commit migration tx'', s) else (Ok (), s'))"

section \<open>Lemmas\<close>

lemma Migrate_version: "Migrate fault s = (Ok (), s') \<Longrightarrow> sc_version s' = Some currentSchemaVersion"
  by (auto simp: Migrate_def migrate_tx_def andThen_def stmt_def split: if_splits sum.splits option.splits)

lemma apply_pragmas_closed: "apply_pragmas fails k ps = (Err e, acts) \<Longrightarrow> Closed \<in> set acts"
  by (induction ps arbitrary: k acts) (auto split: prod.splits if_splits)

lemma apply_pragmas_ok: "apply_pragmas fails k ps = (Ok (), acts) \<Longrightarrow> acts = map Executed ps"
  by (induction ps arbitrary: k acts) (auto split: prod.splits if_splits)

abbreviation has_column :: "string \<Rightarrow> sql_table \<Rightarrow> bool" where
  "has_column n t \<equiv> n \<in> cl_name ` set (tl_columns t)"

text \<open>What a table keeps when columns are added: its columns, its rows and what they hold.\<close>

definition extends_table :: "sql_table \<Rightarrow> sql_table \<Rightarrow> bool" where
  "extends_table t t' \<longleftrightarrow> (\<exists>cs. tl_columns t' = tl_columns t @ cs) \<and> length (tl_rows t') = length (tl_rows t) \<and>
     (\<forall>i n. i < length (tl_rows t) \<and> has_column n t \<longrightarrow> (tl_rows t' ! i) n = (tl_rows t ! i) n)"

lemma extends_table_refl [simp]: "extends_table t t"
  by (simp add: extends_table_def)

lemma extends_table_trans: "extends_table t u \<Longrightarrow> extends_table u v \<Longrightarrow> extends_table t v"
  unfolding extends_table_def by auto

lemma extends_table_column: "extends_table t t' \<Longrightarrow> has_column n t \<Longrightarrow> has_column n t'"
  by (auto simp: extends_table_def)

lemma ensure_column_cases:
  assumes "ensureAnnouncementColumn qf af c t = Ok t'"
  shows "has_column (cl_name c) t \<and> t' = t \<or> \<not> has_column (cl_name c) t \<and> t' = add_column c t"
proof -
  have "list_ex (\<lambda>c'. cl_name c' = cl_name c) cs \<longleftrightarrow> cl_name c \<in> cl_name ` set cs" for cs :: "column list" by (induction cs) auto
  then show ?thesis using assms by (simp add: ensureAnnouncementColumn_def split: if_splits)
qed

lemma ensure_column:
  assumes "ensureAnnouncementColumn qf af c t = Ok t'"
  shows "extends_table t t'" "has_column (cl_name c) t'"
    "\<not> has_column (cl_name c) t \<Longrightarrow> r \<in> set (tl_rows t') \<Longrightarrow> r (cl_name c) = cl_default c"
    "has_column n t' \<Longrightarrow> has_column n t \<or> n = cl_name c"
  using ensure_column_cases [OF assms] by (auto simp: add_column_def extends_table_def image_eqI [OF sym])

lemma ensure_all_ok:
  assumes "ensure_all fault k cs t = Ok t'"
  shows "extends_table t t' \<and> (\<forall>c \<in> set cs. has_column (cl_name c) t')"
  using assms
proof (induction fault k cs t rule: ensure_all.induct)
  case (2 fault k c cs t)
  then obtain t1 where t1: "ensureAnnouncementColumn (fault k) (fault (k + 1)) c t = Ok t1" "ensure_all fault (k + 2) cs t1 = Ok t'"
    by (auto simp: andThen_def split: sum.splits)
  have ext: "extends_table t1 t'" and cs: "\<forall>c \<in> set cs. has_column (cl_name c) t'" using "2.IH" [OF t1(2)] by simp_all
  have "has_column (cl_name c) t'" using extends_table_column [OF ext ensure_column(2) [OF t1(1)]] .
  then show ?case using extends_table_trans [OF ensure_column(1) [OF t1(1)] ext] cs by simp
qed simp

lemma ensure_all_complete:
  assumes "ensure_all fault k cs t = Ok t'" "\<forall>c \<in> set cs. has_column (cl_name c) t"
  shows "t' = t"
  using assms
proof (induction fault k cs t rule: ensure_all.induct)
  case (2 fault k c cs t)
  then obtain t1 where t1: "ensureAnnouncementColumn (fault k) (fault (k + 1)) c t = Ok t1" "ensure_all fault (k + 2) cs t1 = Ok t'"
    by (auto simp: andThen_def split: sum.splits)
  have "t1 = t" using ensure_column_cases [OF t1(1)] "2.prems"(2) by auto
  then show ?case using "2.IH" [OF t1(2)] "2.prems"(2) by simp
qed simp

lemma ensure_column_id: "has_column (cl_name c) t \<Longrightarrow> ensureAnnouncementColumn False af c t = Ok t"
  by (auto simp: ensureAnnouncementColumn_def list_ex_iff)

lemma ensure_all_id: "\<forall>c \<in> set cs. has_column (cl_name c) t \<Longrightarrow> ensure_all (\<lambda>_. False) k cs t = Ok t"
  by (induction cs arbitrary: k) (auto simp: ensure_column_id andThen_def)

lemma migrate_tx_ok:
  assumes "migrate_tx fault s = Ok s'"
  obtains t t' where "create_missing announcements_table (sc_announcements s) = Some t" "indexable (Some t)"
    "ensure_all fault 7 ensured t = Ok t'" "sc_announcements s' = Some t'" "sc_version s' = Some currentSchemaVersion"
    "sc_assets s' = create_missing assets_table (sc_assets s)"
  using assms that
  by (auto simp: migrate_tx_def andThen_def stmt_def split: if_splits sum.splits option.splits)

lemma extends_table_value:
  assumes "extends_table t t'" "has_column n t" "\<forall>r \<in> set (tl_rows t). r n = v" "r \<in> set (tl_rows t')"
  shows "r n = v"
proof -
  obtain i where i: "i < length (tl_rows t')" "r = tl_rows t' ! i" using assms(4) by (auto simp: in_set_conv_nth)
  then have "i < length (tl_rows t)" "r n = (tl_rows t ! i) n" using assms(1,2) by (auto simp: extends_table_def)
  then show ?thesis using assms(3) by simp
qed

lemma ensure_all_default:
  assumes "ensure_all fault k cs t = Ok t'" "c \<in> set cs" "distinct (map cl_name cs)" "\<not> has_column (cl_name c) t" "r \<in> set (tl_rows t')"
  shows "r (cl_name c) = cl_default c"
  using assms
proof (induction fault k cs t rule: ensure_all.induct)
  case (2 fault k d cs t)
  then obtain t1 where t1: "ensureAnnouncementColumn (fault k) (fault (k + 1)) d t = Ok t1" "ensure_all fault (k + 2) cs t1 = Ok t'"
    by (auto simp: andThen_def split: sum.splits)
  show ?case
  proof (cases "c = d")
    case True
    then have "\<forall>r \<in> set (tl_rows t1). r (cl_name c) = cl_default c" using ensure_column(3) [OF t1(1)] "2.prems"(4) by blast
    then show ?thesis
      using extends_table_value [OF _ ensure_column(2) [OF t1(1)]] ensure_all_ok [OF t1(2)] "2.prems"(5) True by blast
  next
    case False
    then have c: "c \<in> set cs" "cl_name c \<noteq> cl_name d" using "2.prems"(2,3) by (auto simp: rev_image_eqI)
    then have "\<not> has_column (cl_name c) t1" using ensure_column(4) [OF t1(1)] "2.prems"(4) by blast
    then show ?thesis using "2.IH" [OF t1(2) c(1)] "2.prems"(3,5) by simp
  qed
qed simp

lemma indexable_extends:
  assumes "ensure_all fault k cs t = Ok t'" "indexable (Some t)" "''asset_id'' \<notin> cl_name ` set cs"
  shows "indexable (Some t')"
  using assms
proof (induction fault k cs t rule: ensure_all.induct)
  case (2 fault k c cs t)
  then obtain t1 where t1: "ensureAnnouncementColumn (fault k) (fault (k + 1)) c t = Ok t1" "ensure_all fault (k + 2) cs t1 = Ok t'"
    by (auto simp: andThen_def split: sum.splits)
  have "map (\<lambda>r. r ''asset_id'') (tl_rows t1) = map (\<lambda>r. r ''asset_id'') (tl_rows t) \<and> (\<exists>ds. tl_columns t1 = tl_columns t @ ds)"
    using t1(1) "2.prems"(3) by (auto simp: ensureAnnouncementColumn_def add_column_def split: if_splits)
  then have "indexable (Some t1)" using "2.prems"(2) by (auto simp: indexable_def)
  then show ?case using "2.IH" [OF t1(2)] "2.prems"(3) by simp
qed simp

text \<open>The announcements a table holds, as theory \<open>Repository\<close> reads them.\<close>

definition stored_announcements :: "sql_table \<Rightarrow> (string \<times> announcement_row) list" where
  "stored_announcements t =
     (let str = (\<lambda>v. case v of None \<Rightarrow> [] | Some x \<Rightarrow> x)
      in map (\<lambda>r. (str (r ''asset_id''),
           \<lparr>nt_last_announced_at = r ''last_announced_at'', nt_expires_at = r ''expires_at'', nt_status = str (r ''status''),
            nt_created_at = str (r ''created_at''), nt_updated_at = str (r ''updated_at'')\<rparr>)) (tl_rows t))"

section \<open>Properties\<close>

text \<open>C34. Migration is all or nothing and loses nothing: after an error the schema is unchanged. After success the version is the current
  one; a table that did not exist is the one the program creates, with all its columns; an existing table of assets is left as it is, whatever its
  columns; an existing table of announcements keeps its columns, its rows and their values, and has every column the program uses, except
  that \<open>asset_id\<close> is not added if it was not there; in the rows a column that was added holds its default.\<close>

theorem migrate_upgrades:
  assumes "Migrate fault s = (r, s')"
  shows "(r \<noteq> Ok () \<longrightarrow> s' = s) \<and>
    (r = Ok () \<longrightarrow> sc_version s' = Some currentSchemaVersion \<and>
       sc_assets s' = Some (case sc_assets s of None \<Rightarrow> assets_table | Some t \<Rightarrow> t) \<and>
       (sc_announcements s = None \<longrightarrow> sc_announcements s' = Some announcements_table) \<and>
       (\<forall>t. sc_announcements s = Some t \<longrightarrow> (\<exists>t'. sc_announcements s' = Some t' \<and> extends_table t t' \<and>
          (\<forall>c \<in> set (tl_columns announcements_table). cl_name c = ''asset_id'' \<or> has_column (cl_name c) t') \<and>
          (\<forall>c \<in> set ensured. \<not> has_column (cl_name c) t \<longrightarrow> (\<forall>row \<in> set (tl_rows t'). row (cl_name c) = cl_default c)))))"
proof (cases "r = Ok ()")
  case True
  then have "migrate_tx fault s = Ok s'" using assms by (auto simp: Migrate_def split: if_splits sum.splits)
  then obtain t t' where t: "create_missing announcements_table (sc_announcements s) = Some t"
    "ensure_all fault 7 ensured t = Ok t'" "sc_announcements s' = Some t'" "sc_version s' = Some currentSchemaVersion"
    "sc_assets s' = create_missing assets_table (sc_assets s)" by (rule migrate_tx_ok)
  have cols: "\<forall>c \<in> set (tl_columns announcements_table). cl_name c = ''asset_id'' \<or> has_column (cl_name c) t'"
    using ensure_all_ok [OF t(2)] by (simp add: ensured_def announcements_table_def col_def)
  have "\<forall>c \<in> set ensured. has_column (cl_name c) announcements_table" by (simp add: ensured_def announcements_table_def col_def)
  then have fresh: "t' = announcements_table" if "sc_announcements s = None"
    using that t(1) ensure_all_complete [OF t(2)] by (simp add: create_missing_def)
  have old: "u = t" if "sc_announcements s = Some u" for u using that t(1) by (simp add: create_missing_def)
  have dflt: "row (cl_name c) = cl_default c" if "c \<in> set ensured" "\<not> has_column (cl_name c) t" "row \<in> set (tl_rows t')" for c row
    using ensure_all_default [OF t(2) that(1) _ that(2,3)] by (simp add: ensured_def col_def)
  have assets: "sc_assets s' = Some (case sc_assets s of None \<Rightarrow> assets_table | Some t \<Rightarrow> t)"
    unfolding t(5) by (simp add: create_missing_def split: option.split)
  show ?thesis using True t(3,4) cols fresh old dflt assets ensure_all_ok [OF t(2)] by blast
next
  case False
  then show ?thesis using assms by (auto simp: Migrate_def split: if_splits sum.splits)
qed

text \<open>Migrating twice is migrating once: on the result of a successful migration another one succeeds and changes nothing.\<close>

theorem migrate_idempotent:
  assumes "Migrate fault s = (Ok (), s')"
  shows "Migrate (\<lambda>_. False) s' = (Ok (), s')"
proof -
  have "migrate_tx fault s = Ok s'" using assms by (auto simp: Migrate_def split: if_splits sum.splits)
  then obtain t t' where t: "indexable (Some t)" "ensure_all fault 7 ensured t = Ok t'" "sc_announcements s' = Some t'"
    "sc_version s' = Some currentSchemaVersion" "sc_assets s' = create_missing assets_table (sc_assets s)" by (rule migrate_tx_ok)
  have idx: "indexable (Some t')" using indexable_extends [OF t(2,1)] by (simp add: ensured_def col_def)
  have again: "ensure_all (\<lambda>_. False) 7 ensured t' = Ok t'" using ensure_all_ok [OF t(2)] by (intro ensure_all_id) simp
  have assets: "create_missing assets_table (sc_assets s') = sc_assets s'" unfolding t(5) by (simp add: create_missing_def split: option.split)
  have "migrate_tx (\<lambda>_. False) s' = Ok s'"
    using idx again assets t(3,4) by (simp add: migrate_tx_def andThen_def stmt_def create_missing_def [of announcements_table])
  then show ?thesis by (simp add: Migrate_def)
qed

text \<open>C35. A column that the migration adds without a default holds NULL in the rows that were there, and the program cannot read a NULL there:
  for every announcement of a database from before the column \<open>expires_at\<close>, reading it fails.\<close>

theorem migrated_rows_unreadable:
  assumes "Migrate fault s = (Ok (), s')" "sc_announcements s = Some t" "\<not> has_column ''expires_at'' t"
    and "sc_announcements s' = Some t'" "tb_announcements db = stored_announcements t'" "announcement db a \<noteq> None"
  shows "GetAnnouncement False a db = Err ''query announcement''"
proof -
  have "migrate_tx fault s = Ok s'" using assms(1) by (auto simp: Migrate_def split: if_splits sum.splits)
  then obtain u u' where u: "create_missing announcements_table (sc_announcements s) = Some u"
    "ensure_all fault 7 ensured u = Ok u'" "sc_announcements s' = Some u'" by (rule migrate_tx_ok)
  have e: "ensure_all fault 7 ensured t = Ok t'" using u assms(2,4) by (simp add: create_missing_def)
  have "r ''expires_at'' = None" if "r \<in> set (tl_rows t')" for r
    using ensure_all_default [OF e, of "col ''expires_at'' False None" r] assms(3) that by (simp add: ensured_def col_def)
  moreover obtain row where row: "announcement db a = Some row" using assms(6) by blast
  then have "(a, row) \<in> set (stored_announcements t')" unfolding assms(5) by (rule map_of_SomeD)
  ultimately have "nt_expires_at row = None" by (auto simp: stored_announcements_def Let_def)
  then show ?thesis using row by (simp add: GetAnnouncement_def split: option.split)
qed

section \<open>Witnesses\<close>

definition legacy_row :: "string \<Rightarrow> string option" where
  "legacy_row = (\<lambda>_. None)(''asset_id'' := Some ''a1'', ''status'' := Some ''ok'', ''created_at'' := Some [], ''updated_at'' := Some [])"

definition legacy_table :: sql_table where
  "legacy_table = \<lparr>tl_columns = [col ''asset_id'' False None, col ''status'' True None, col ''created_at'' True None,
     col ''updated_at'' True None], tl_rows = [legacy_row]\<rparr>"

definition legacy :: schema where
  "legacy = \<lparr>sc_version = Some 1, sc_assets = None, sc_announcements = Some legacy_table\<rparr>"

definition migrated_table :: sql_table where
  "migrated_table = add_column (col ''expires_at'' False None) (add_column (col ''last_announced_at'' False None) legacy_table)"

definition migrated :: schema where
  "migrated = \<lparr>sc_version = Some 1, sc_assets = Some assets_table, sc_announcements = Some migrated_table\<rparr>"

lemma demo_lower_names: "ToLower ''asset_id'' = ''asset_id''" "ToLower ''status'' = ''status''" "ToLower ''created_at'' = ''created_at''"
  "ToLower ''updated_at'' = ''updated_at''" "ToLower ''expires_at'' = ''expires_at''" "ToLower ''last_announced_at'' = ''last_announced_at''"
  by code_simp+

lemma legacy_migrates: "Migrate (\<lambda>_. False) legacy = (Ok (), migrated)"
  by (simp add: Migrate_def migrate_tx_def legacy_def legacy_table_def legacy_row_def migrated_def migrated_table_def andThen_def stmt_def
      create_missing_def indexable_def ensured_def col_def ensureAnnouncementColumn_def add_column_def currentSchemaVersion_def
      demo_lower_names del: ToLower.simps)

theorem migrate_upgrades_witness:
  "\<exists>t'. sc_announcements migrated = Some t' \<and> extends_table legacy_table t' \<and> (\<forall>row \<in> set (tl_rows t'). row ''expires_at'' = None)"
proof -
  obtain t' where t': "sc_announcements migrated = Some t'" "extends_table legacy_table t'"
    "\<forall>c \<in> set ensured. \<not> has_column (cl_name c) legacy_table \<longrightarrow> (\<forall>row \<in> set (tl_rows t'). row (cl_name c) = cl_default c)"
    using migrate_upgrades [OF legacy_migrates] by (auto simp: legacy_def)
  have "\<not> has_column ''expires_at'' legacy_table" by (simp add: legacy_table_def col_def)
  then have "\<forall>row \<in> set (tl_rows t'). row ''expires_at'' = None" using t'(3) by (simp add: ensured_def col_def)
  then show ?thesis using t'(1,2) by blast
qed

theorem migrate_idempotent_witness: "Migrate (\<lambda>_. False) migrated = (Ok (), migrated)"
  using legacy_migrates by (rule migrate_idempotent)

theorem migrated_rows_unreadable_witness:
  "GetAnnouncement False ''a1'' \<lparr>tb_assets = [], tb_announcements = stored_announcements migrated_table\<rparr> = Err ''query announcement''"
proof (rule migrated_rows_unreadable [OF legacy_migrates])
  show "sc_announcements legacy = Some legacy_table" by (simp add: legacy_def)
  show "\<not> has_column ''expires_at'' legacy_table" by (simp add: legacy_table_def col_def)
  show "sc_announcements migrated = Some migrated_table" by (simp add: migrated_def)
  show "announcement \<lparr>tb_assets = [], tb_announcements = stored_announcements migrated_table\<rparr> ''a1'' \<noteq> None"
    by (simp add: stored_announcements_def migrated_table_def add_column_def legacy_table_def legacy_row_def col_def)
qed simp

end
