(* ===== verification/Envcheck.thy ===== *)
theory Envcheck
  imports Config
begin

text \<open>
  Package \<open>envcheck\<close>: the check of the environment against a schema file before the program starts. Reading files, JSON and regular
  expressions are parameters (\<open>None\<close> is an error).
\<close>

record schemaKey =
  sk_Key :: string
  sk_RequiredInProd :: bool
  sk_Pattern :: string
  sk_Redact :: bool

record env_schema =
  es_Service :: string
  es_Keys :: "schemaKey list"

record envcheck_env =
  ev_readFile :: "string \<Rightarrow> string option"
  ev_unmarshal :: "string \<Rightarrow> env_schema option"
  ev_executable :: "string option"
  ev_match :: "string \<Rightarrow> string \<Rightarrow> bool option"

text \<open>The first of the candidate files that can be read decides.\<close>

fun first_readable :: "envcheck_env \<Rightarrow> string list \<Rightarrow> (string, env_schema) result" where
  "first_readable e [] = Err ''env schema not found''"
| "first_readable e (path # paths) =
     (case ev_readFile e path of
        None \<Rightarrow> first_readable e paths
      | Some raw \<Rightarrow> (case ev_unmarshal e raw of None \<Rightarrow> Err ''parse schema'' | Some cfg \<Rightarrow> Ok cfg))"

definition loadSchema :: "envcheck_env \<Rightarrow> (string, env_schema) result" where
  "loadSchema e =
     first_readable e
       ([''ops/env.schema.json'', Join [''..'', ''..'', ''ops'', ''env.schema.json'']] @
        (case ev_executable e of None \<Rightarrow> [] | Some exePath \<Rightarrow> [Join [Dir exePath, ''ops'', ''env.schema.json'']]))"

fun check_keys :: "envcheck_env \<Rightarrow> os_env \<Rightarrow> schemaKey list \<Rightarrow> (string, unit) result" where
  "check_keys e os [] = Ok ()"
| "check_keys e os (key # keys) =
     (if \<not> sk_RequiredInProd key then check_keys e os keys
      else case os (sk_Key key) of
        None \<Rightarrow> Err (''envcheck: missing required env: '' @ sk_Key key)
      | Some v \<Rightarrow>
          if TrimSpace v = [] then Err (''envcheck: missing required env: '' @ sk_Key key)
          else case ev_match e (sk_Pattern key) v of
            None \<Rightarrow> Err (''envcheck: invalid schema for env: '' @ sk_Key key)
          | Some matched \<Rightarrow> if \<not> matched then Err (''envcheck: invalid env: '' @ sk_Key key) else check_keys e os keys)"

definition Envcheck_Validate :: "envcheck_env \<Rightarrow> os_env \<Rightarrow> (string, unit) result" where
  "Envcheck_Validate e os =
     (let mode = TrimSpace (Getenv os ''AUDISTRO_ENV'')
      in if mode = [] then Ok ()
         else if mode \<noteq> ''prod'' \<and> mode \<noteq> ''dev'' \<and> mode \<noteq> ''test'' then Err ''envcheck: invalid env: AUDISTRO_ENV''
         else if mode \<noteq> ''prod'' then Ok ()
         else case loadSchema e of
           Inl err \<Rightarrow> Err (''envcheck: '' @ err)
         | Inr cfg \<Rightarrow> check_keys e os (es_Keys cfg))"

text \<open>\<open>MustValidate\<close> returns, or prints the message and ends the program.\<close>

definition MustValidate :: "envcheck_env \<Rightarrow> os_env \<Rightarrow> string option" where
  "MustValidate e os = (case Envcheck_Validate e os of Inl err \<Rightarrow> Some err | Inr _ \<Rightarrow> None)"

lemma MustValidate_None [simp]: "MustValidate e os = None \<longleftrightarrow> Envcheck_Validate e os = Ok ()"
  by (simp add: MustValidate_def split: sum.split)

section \<open>Properties\<close>

definition key_ok :: "envcheck_env \<Rightarrow> os_env \<Rightarrow> schemaKey \<Rightarrow> bool" where
  "key_ok e os k \<longleftrightarrow> sk_RequiredInProd k \<longrightarrow>
     (\<exists>v. os (sk_Key k) = Some v \<and> TrimSpace v \<noteq> [] \<and> ev_match e (sk_Pattern k) v = Some True)"

lemma check_keys_iff: "check_keys e os ks = Ok () \<longleftrightarrow> (\<forall>k \<in> set ks. key_ok e os k)"
  by (induction ks) (auto simp: key_ok_def split: option.split)

text \<open>In production the check passes exactly when a schema is found and every key it requires is set, not blank and matches its
  pattern. Without \<open>AUDISTRO_ENV\<close>, and in the other two modes, nothing is checked; any other mode is refused.\<close>

lemma envcheck_iff:
  "Envcheck_Validate e os = Ok () \<longleftrightarrow>
     TrimSpace (Getenv os ''AUDISTRO_ENV'') \<in> {[], ''dev'', ''test''} \<or>
     TrimSpace (Getenv os ''AUDISTRO_ENV'') = ''prod'' \<and> (\<exists>sc. loadSchema e = Ok sc \<and> (\<forall>k \<in> set (es_Keys sc). key_ok e os k))"
  by (cases "loadSchema e") (auto simp: Envcheck_Validate_def Let_def check_keys_iff)

text \<open>A schema that asks for two keys, one of them unset.\<close>

definition demo_schema :: env_schema where
  "demo_schema = \<lparr>es_Service = ''provider'', es_Keys =
     [\<lparr>sk_Key = ''A'', sk_RequiredInProd = True, sk_Pattern = ''.'', sk_Redact = False\<rparr>,
      \<lparr>sk_Key = ''B'', sk_RequiredInProd = False, sk_Pattern = [], sk_Redact = True\<rparr>]\<rparr>"

definition demo_envcheck_env :: envcheck_env where
  "demo_envcheck_env = \<lparr>ev_readFile = (\<lambda>p. if p = ''ops/env.schema.json'' then Some ''s'' else None),
     ev_unmarshal = (\<lambda>_. Some demo_schema), ev_executable = None, ev_match = (\<lambda>p v. Some (v = ''1''))\<rparr>"

lemma demo_envcheck_passes: "Envcheck_Validate demo_envcheck_env [''AUDISTRO_ENV'' \<mapsto> ''prod'', ''A'' \<mapsto> ''1''] = Ok ()"
proof -
  have t: "TrimSpace ''prod'' = ''prod''" "TrimSpace ''1'' = ''1''" by (rule TrimSpace_all_graphic, simp add: graphic_def)+
  have sc: "loadSchema demo_envcheck_env = Ok demo_schema" by (simp add: loadSchema_def demo_envcheck_env_def)
  have "key_ok demo_envcheck_env [''AUDISTRO_ENV'' \<mapsto> ''prod'', ''A'' \<mapsto> ''1''] k" if "k \<in> set (es_Keys demo_schema)" for k
    using that t(2) by (auto simp: key_ok_def demo_schema_def demo_envcheck_env_def)
  then show ?thesis
    unfolding envcheck_iff using sc t(1) by (simp add: Getenv_def)
qed

end
