(* ===== verification/Build_Info.thy ===== *)
theory Build_Info
  imports Go_Strings
begin

text \<open>
  Packages \<open>buildinfo\<close> and \<open>logging\<close>: the build metadata, which the linker may set, and the attributes that the logger adds to every record. The
  JSON output of the records is the library's.
\<close>

record BuildInfo =
  bi_Version :: string
  bi_Commit :: string
  bi_BuildTime :: string

text \<open>The package variables: their initial values, each replaced by what the linker was told.\<close>

definition link_vars :: "(string \<rightharpoonup> string) \<Rightarrow> BuildInfo" where
  "link_vars ldflags =
     (let var = (\<lambda>name initial. case ldflags name of None \<Rightarrow> initial | Some v \<Rightarrow> v)
      in \<lparr>bi_Version = var ''Version'' ''dev'', bi_Commit = var ''Commit'' ''none'', bi_BuildTime = var ''BuildTime'' ''unknown''\<rparr>)"

definition Info :: "BuildInfo \<Rightarrow> BuildInfo" where
  "Info vars = \<lparr>bi_Version = bi_Version vars, bi_Commit = bi_Commit vars, bi_BuildTime = bi_BuildTime vars\<rparr>"

definition logging_New :: "string \<Rightarrow> string \<Rightarrow> string \<Rightarrow> string \<Rightarrow> (string \<times> string) list" where
  "logging_New service version commit buildTime =
     [(''service'', service), (''version'', version), (''commit'', commit), (''build_time'', buildTime)]"

text \<open>The logger of \<open>main\<close>.\<close>

definition main_logger :: "BuildInfo \<Rightarrow> (string \<times> string) list" where
  "main_logger vars = (let info = Info vars in logging_New ''audistro-provider'' (bi_Version info) (bi_Commit info) (bi_BuildTime info))"

lemma main_logger_attributes:
  "map_of (main_logger (link_vars Map.empty)) = [''service'' \<mapsto> ''audistro-provider'', ''version'' \<mapsto> ''dev'', ''commit'' \<mapsto> ''none'', ''build_time'' \<mapsto> ''unknown'']"
  by (rule ext) (simp add: main_logger_def logging_New_def Info_def link_vars_def)

end
