(* ===== verification/Startup.thy ===== *)
theory Startup
  imports Server Db Envcheck Build_Info
begin

text \<open>
  Package \<open>main\<close>: how the program starts, what it wires together, the readiness check and the shutdown. Everything outside the
  program that \<open>main\<close> asks (environment, files, keys, database, catalog) is one record of parameters. An early \<open>os.Exit(1)\<close>
  is \<open>Exit\<close> with the message logged before it.
\<close>

section \<open>Pieces of main\<close>

definition allowlistedAssetName :: "string \<Rightarrow> bool" where
  "allowlistedAssetName name =
     (let lower = ToLower name; ext = ToLower (Ext lower)
      in if ext \<in> set [''.m3u8'', ''.ts'', ''.m4s''] then True
         else if ext = ''.mp4''
         then lower = ''init.mp4'' \<or> HasPrefix lower ''init-'' \<and> HasSuffix lower ''.mp4'' \<and> length ''init-.mp4'' < length lower
         else False)"

text \<open>
  The signer and whether origin authentication is ready. \<open>main\<close> keeps the signer in a pointer and passes it on as an interface: a nil
  pointer arrives as a non-nil interface.
\<close>

definition origin_signer :: "(string \<Rightarrow> string option) \<Rightarrow> nonce_source \<Rightarrow> Config \<Rightarrow> Identity \<Rightarrow> OriginSigner \<times> bool" where
  "origin_signer readFile crypto cfg i =
     (if ToLower (TrimSpace (cf_OriginAuthMode cfg)) \<noteq> ''hmac'' then (NilPointer, True)
      else case readFile (cf_OriginHMACSecretPath cfg) of
        None \<Rightarrow> (NilPointer, False)
      | Some secretBytes \<Rightarrow>
          (let secret = TrimRight secretBytes [CHR 0x0D, CHR 0x0A]
           in if length secret < 16 then (NilPointer, False)
              else (SomeSigner (NewHMACSigner (cf_OriginHMACKeyID cfg) secret (id_ProviderID i) (cf_OriginAuthIncludeQuery cfg) crypto), True)))"

definition start_catalog ::
  "(string \<Rightarrow> url_parts option) \<Rightarrow> catalog_net \<Rightarrow> (url_parts \<Rightarrow> string) \<Rightarrow> int \<Rightarrow> Config \<Rightarrow> Identity \<Rightarrow> metrics \<Rightarrow>
   Client option \<times> HealthState \<times> metrics" where
  "start_catalog urlParse net us el cfg i m =
     (let configured = (TrimSpace (cf_CatalogBaseURL cfg) \<noteq> []); health = NewHealthState configured
      in if \<not> configured then (None, health, m)
         else case NewClient urlParse (cf_CatalogBaseURL cfg) (seconds (cf_CatalogTimeoutSeconds cfg)) of
           Inl e \<Rightarrow> (None, HealthState_Set (Some e) health, m)
         | Inr c \<Rightarrow>
             (case EnsureProvider net us el c i cfg m of
                (Inl e, m') \<Rightarrow> (Some c, HealthState_Set (Some e) health, m')
              | (Inr _, m') \<Rightarrow> (Some c, HealthState_Set None health, m')))"

definition count_gauges :: "faults \<Rightarrow> faults \<Rightarrow> database \<Rightarrow> metrics \<Rightarrow> metrics" where
  "count_gauges fa fm db m =
     (let m1 = (case CountActive fa db of Inl _ \<Rightarrow> m | Inr n \<Rightarrow> SetActiveAssets n m)
      in case CountMissing fm db of Inl _ \<Rightarrow> m1 | Inr n \<Rightarrow> SetMissingAssets n m1)"

section \<open>Starting\<close>

record startup_env =
  xm_os :: os_env
  xm_envcheck :: envcheck_env
  xm_config :: config_env
  xm_mkdir :: "string \<Rightarrow> bool"
  xm_tree :: "(oserr, dnode) result"
  xm_lib :: key_lib
  xm_idReadFails :: bool
  xm_idFails :: "save_step \<Rightarrow> bool"
  xm_tmpPath :: string
  xm_written :: nat
  xm_keys :: key_gen
  xm_uuid :: string
  xm_idNow :: instant
  xm_idfs :: id_fs
  xm_readSecret :: "string \<Rightarrow> string option"
  xm_crypto :: nonce_source
  xm_open :: "open_step \<Rightarrow> bool"
  xm_migrate :: faults
  xm_schema :: schema
  xm_db :: database
  xm_scan :: scan_env
  xm_scanNow :: instant
  xm_scanFaults :: rescan_faults
  xm_active :: faults
  xm_missing :: faults
  xm_net :: catalog_net
  xm_urlString :: "url_parts \<Rightarrow> string"
  xm_elapsed :: int

record provider =
  pd_cfg :: Config
  pd_identity :: Identity
  pd_signer :: OriginSigner
  pd_originAuthReady :: bool
  pd_db :: database
  pd_client :: "Client option"
  pd_health :: HealthState
  pd_metrics :: metrics
  pd_schema :: schema
  pd_idfs :: id_fs
  pd_audit :: "(oserr, bool) result option"

text \<open>The result of the startup audit (\<open>pd_audit\<close>) is only logged.\<close>

datatype startup = Exit string | Started provider

definition assets_root :: "Config \<Rightarrow> string" where
  "assets_root cfg = Join [cf_DataPath cfg, cf_AssetsSubdir cfg]"

text \<open>The scan at the start: the database and metrics after it, or the failure that ends the program.\<close>

definition startup_scan :: "startup_env \<Rightarrow> Config \<Rightarrow> metrics \<Rightarrow> (string, database \<times> metrics) result" where
  "startup_scan x cfg m =
     (if \<not> cf_ScanOnStartup cfg then Ok (xm_db x, m)
      else case RunRescan (xm_scan x) (assets_root cfg) (xm_scanNow x) (xm_scanFaults x) (xm_db x) m of
        (Inl e, _) \<Rightarrow> Err e
      | (Inr res, db, m') \<Rightarrow>
          (let m1 = SetActiveAssets (rp_ActiveAssets res) m'
           in Ok (db, case CountMissing (xm_missing x) db of Inl _ \<Rightarrow> m1 | Inr n \<Rightarrow> SetMissingAssets n m1)))"

definition main_start :: "startup_env \<Rightarrow> startup" where
  "main_start x =
     (case MustValidate (xm_envcheck x) (xm_os x) of
        Some e \<Rightarrow> Exit e
      | None \<Rightarrow>
          (let cfg = Load (xm_os x)
           in case Validate (xm_config x) cfg of
                Inl e \<Rightarrow> Exit (''invalid configuration: '' @ e)
              | Inr _ \<Rightarrow>
                  (let m0 = SetDeferredAnnounces 0 (Some [])
                   in if \<not> xm_mkdir x (cf_DataPath cfg) then Exit ''failed to create data path''
                      else if \<not> xm_mkdir x (assets_root cfg) then Exit ''failed to create assets path''
                      else case LoadOrCreate (FileStore_Load (xm_lib x) False (xm_idReadFails x) (cf_IdentityPath cfg))
                          (FileStore_Save (xm_lib x) False (xm_idFails x) (xm_tmpPath x) (xm_written x) (cf_IdentityPath cfg))
                          (xm_keys x) (xm_uuid x) (xm_idNow x) (xm_idfs x) of
                        (Inl e, _) \<Rightarrow> Exit ''failed to load identity''
                      | (Inr (i, created), fs) \<Rightarrow>
                          (case origin_signer (xm_readSecret x) (xm_crypto x) cfg i of
                             (signer, ready) \<Rightarrow>
                               (case Open (xm_open x) cfg of
                                  (Inl _, _) \<Rightarrow> Exit ''failed to open db''
                                | (Inr _, _) \<Rightarrow>
                                    (case Migrate (xm_migrate x) (xm_schema x) of
                                       (Inl _, _) \<Rightarrow> Exit ''failed to migrate db''
                                     | (Inr _, schema) \<Rightarrow>
                                         (case startup_scan x cfg m0 of
                                            Inl _ \<Rightarrow> Exit ''startup scan failed''
                                          | Inr (db, m1) \<Rightarrow>
                                              (case start_catalog (ce_urlParse (xm_config x)) (xm_net x) (xm_urlString x) (xm_elapsed x) cfg i m1 of
                                                 (client, health, m2) \<Rightarrow>
                                                   Started \<lparr>pd_cfg = cfg, pd_identity = i, pd_signer = signer, pd_originAuthReady = ready,
                                                     pd_db = db, pd_client = client, pd_health = health,
                                                     pd_metrics = (if cf_ScanOnStartup cfg then m2 else count_gauges (xm_active x) (xm_missing x) db m2),
                                                     pd_schema = schema, pd_idfs = fs,
                                                     pd_audit = (if cf_EnforceNoSymlinks cfg then Some (AuditNoSymlinks (xm_tree x)) else None)\<rparr>))))))))"

section \<open>Serving\<close>

record ready_env =
  rd_ping :: bool
  rd_stat :: "bool option"
  rd_tree :: "(oserr, dnode) result"

definition readinessChecker :: "ready_env \<Rightarrow> provider \<Rightarrow> (string, unit) result" where
  "readinessChecker e p =
     (if \<not> rd_ping e then Err ''db_unavailable''
      else case rd_stat e of
        None \<Rightarrow> Err ''assets_root_unavailable''
      | Some isDir \<Rightarrow>
          if \<not> isDir then Err ''assets_root_not_directory''
          else
            (let auth = (if ToLower (TrimSpace (cf_OriginAuthMode (pd_cfg p))) = ''hmac'' \<and> \<not> pd_originAuthReady p
                         then Err ''origin_auth_not_ready'' else Ok ())
             in if cf_EnforceNoSymlinks (pd_cfg p) then
                  (case AuditNoSymlinks (rd_tree e) of
                     Inl _ \<Rightarrow> Err ''symlink_audit_failed''
                   | Inr found \<Rightarrow> if found then Err ''symlink_detected'' else auth)
                else auth))"

record request_env =
  rv_server :: server_env
  rv_ready :: ready_env
  rv_scan :: scan_env
  rv_scanNow :: instant
  rv_scanFaults :: rescan_faults
  rv_announce :: announce_env
  rv_body :: announce_body
  rv_announceNow :: instant
  rv_net :: catalog_net
  rv_urlString :: "url_parts \<Rightarrow> string"
  rv_elapsed :: int

text \<open>The internal handlers, behind the allowlist when the internal API is enabled.\<close>

definition guarded :: "Config \<Rightarrow> 's http_handler \<Rightarrow> 's http_handler" where
  "guarded cfg h = (if cf_InternalEnable cfg then ipAllowlistMiddleware cfg h else h)"

definition announce_deps :: "request_env \<Rightarrow> provider \<Rightarrow> announce_env" where
  "announce_deps e p = (rv_announce e)\<lparr>ae_client := map_option (api_client (rv_net e) (rv_urlString e) (rv_elapsed e)) (pd_client p)\<rparr>"

definition provider_mux :: "(string \<Rightarrow> url_parts option) \<Rightarrow> string \<Rightarrow> provider \<Rightarrow> request_env \<Rightarrow> app ctx_handler" where
  "provider_mux urlParse version p e =
     (let cfg = pd_cfg p;
          rescan = guarded cfg (rescanHandler (rv_scan e) (assets_root cfg) (rv_scanNow e) (rv_scanFaults e));
          announce = guarded cfg (announceHandler (announce_deps e p) (rv_body e) (rv_announceNow e) (pd_identity p) cfg)
      in server_mux ((rv_server e)\<lparr>sx_ready := Some (readinessChecker (rv_ready e) p)\<rparr>) cfg (pd_identity p) version
           (fst (NewHandler urlParse (assets_config cfg (pd_signer p)))) (Some rescan) (Some announce))"

definition provider_server :: "(string \<Rightarrow> url_parts option) \<Rightarrow> string \<Rightarrow> provider \<Rightarrow> request_env \<Rightarrow> app server http_handler" where
  "provider_server urlParse version p e =
     (let cfg = pd_cfg p;
          rescan = guarded cfg (rescanHandler (rv_scan e) (assets_root cfg) (rv_scanNow e) (rv_scanFaults e));
          announce = guarded cfg (announceHandler (announce_deps e p) (rv_body e) (rv_announceNow e) (pd_identity p) cfg)
      in NewWithDeps ((rv_server e)\<lparr>sx_ready := Some (readinessChecker (rv_ready e) p)\<rparr>) cfg (pd_identity p) version
           (fst (NewHandler urlParse (assets_config cfg (pd_signer p)))) (Some rescan) (Some announce))"

definition provider_state :: "(rat \<Rightarrow> rat) \<Rightarrow> provider \<Rightarrow> app server" where
  "provider_state fl p =
     \<lparr>sr_metrics = pd_metrics p, sr_log = [],
      sr_app = initial_app fl (pd_cfg p) (pd_db p) (pd_health p) (NewStatus (cf_EnableJobs (pd_cfg p)))\<rparr>"

definition provider_runner :: "clock \<Rightarrow> request_env \<Rightarrow> provider \<Rightarrow> Runner option" where
  "provider_runner realClock e p =
     (if cf_EnableJobs (pd_cfg p)
      then Some (NewRunner realClock (pd_cfg p) (pd_db p) (NewCatalogAnnouncer (rv_net e) (rv_urlString e) (rv_elapsed e) (pd_client p))
             (pd_identity p) (Some (NewStatus (cf_EnableJobs (pd_cfg p)))) (pd_metrics p))
      else None)"

section \<open>Shutting down\<close>

datatype stop_reason = Signalled | ServerFailed

datatype stop_action = CancelJobs | WaitJobs | ShutdownServer int | CloseServer

text \<open>What is done, in order, and the exit code. \<open>shutdownErr\<close>: the graceful shutdown failed.\<close>

definition main_stop :: "Config \<Rightarrow> stop_reason \<Rightarrow> bool \<Rightarrow> stop_action list \<times> int" where
  "main_stop cfg reason shutdownErr =
     (let acts = [CancelJobs] @ (if cf_EnableJobs cfg then [WaitJobs] else []) @ [ShutdownServer (seconds (cf_ShutdownTimeoutSeconds cfg))]
      in if shutdownErr then (acts @ [CloseServer], 1)
         else (acts, if reason = ServerFailed then 1 else 0))"

section \<open>Requests to the whole server\<close>

lemma provider_server_chain:
  "provider_server urlParse version p e = server_chain (sx_chain (rv_server e)) (provider_mux urlParse version p e) None"
  by (simp add: provider_server_def provider_mux_def NewWithDeps_def Let_def)

lemma guarded_well_behaved: "well_behaved fk (on_api h) \<Longrightarrow> well_behaved fk (on_api (guarded cfg h))"
  by (simp add: guarded_def allowlist_well_behaved)

lemma provider_mux_well_behaved: "well_behaved (ae_fk (rv_announce e)) (provider_mux urlParse version p e ctx)"
proof -
  have "well_behaved (ae_fk (announce_deps e p)) (on_api (announceHandler (announce_deps e p) b n i c))" for b n i c
    by (rule announce_well_behaved) (auto simp: announce_deps_def)
  then have a: "well_behaved (ae_fk (rv_announce e)) (on_api (announceHandler (announce_deps e p) b n i c))" for b n i c
    by (simp add: announce_deps_def)
  show ?thesis
    unfolding provider_mux_def Let_def
    by (rule server_mux_well_behaved) (auto intro: guarded_well_behaved rescan_well_behaved a)
qed

interpretation provider: inner_handler "provider_mux urlParse version p e" for urlParse version p e
  using provider_mux_well_behaved [of e urlParse version p]
  by unfold_locales (auto simp: well_behaved_def keeps_def)

text \<open>The database changes only behind the internal endpoints.\<close>

definition keeps_db :: "app server http_handler \<Rightarrow> bool" where
  "keeps_db h \<longleftrightarrow> (\<forall>r w s. pv_db (sr_app (snd (state_of (h r w s)))) = pv_db (sr_app s))"

lemma keeps_db_returning: "(\<And>r w s. \<exists>w'. h r w s = Returned (w', s)) \<Longrightarrow> keeps_db h"
  unfolding keeps_db_def by (metis snd_conv state_of.simps(1))

lemma plain_keep_db:
  "keeps_db (metrics_endpoint ex)" "keeps_db (DocsHandler pth)" "keeps_db (OpenAPIYAMLHandler y)" "keeps_db (OpenAPIJSONHandler sp)"
  "keeps_db (health_endpoint x cfg i v)" "keeps_db (ReadyHandler enc c)"
  by (rule keeps_db_returning; auto simp: metrics_endpoint_def DocsHandler_def OpenAPIYAMLHandler_def OpenAPIJSONHandler_def
      health_endpoint_def Health_Handler_def ReadyHandler_def serve_text_def split: sum.split prod.split)+

lemma limiter_keeps_db:
  assumes "keeps_db h"
  shows "keeps_db (on_limiter (rateLimitMiddleware fl now h))"
  unfolding keeps_db_def
proof (intro allI)
  fix r w s
  have "pv_db (sr_app (snd (state_of (h r w s)))) = pv_db (sr_app s)" using assms by (simp add: keeps_db_def)
  then show "pv_db (sr_app (snd (state_of (on_limiter (rateLimitMiddleware fl now h) r w s)))) = pv_db (sr_app s)"
    by (auto simp: on_limiter_def rateLimitMiddleware_def split: prod.split bool.split ended.split)
qed

lemma assets_keep_db: "keeps_db (assets_endpoint x cfg h)"
proof -
  have "keeps_db (on_assets env h)" for env by (simp add: keeps_db_def on_assets_def)
  then have "keeps_db (corsMiddleware c (on_assets env h))" for c env by (auto simp: keeps_db_def corsMiddleware_def Let_def)
  with \<open>\<And>env. keeps_db (on_assets env h)\<close> show ?thesis by (simp add: assets_endpoint_def Let_def limiter_keeps_db)
qed

text \<open>A peer the allowlist refuses: unknown address, or no trusted proxy and in none of the blocks.\<close>

definition refused_peer :: "Config \<Rightarrow> string \<Rightarrow> bool" where
  "refused_peer cfg remote =
     (case parseRemoteIP remote of
        None \<Rightarrow> True
      | Some ip \<Rightarrow>
          (\<not> cf_TrustProxyHeaders cfg \<or> \<not> ipInCIDRs ip (al_trustedProxyCIDRs (newAllowlist cfg))) \<and>
          \<not> ipInCIDRs ip (al_allowedCIDRs (newAllowlist cfg)))"

lemma refused_guard:
  assumes "cf_InternalEnable cfg" "refused_peer cfg (req_remote r)"
  shows "on_api (guarded cfg h) r w s = Returned (api_writeJSONError w 403 ''forbidden'', s)"
  using assms
  by (auto simp: guarded_def on_api_def ipAllowlistMiddleware_def allowlist_clientIP_def refused_peer_def Let_def map_ended_def newAllowlist_def
      split: option.splits)

lemma provider_mux_keeps_db:
  assumes "cf_InternalEnable (pd_cfg p) \<longrightarrow> refused_peer (pd_cfg p) (req_remote r)"
  shows "pv_db (sr_app (snd (state_of (provider_mux urlParse version p e ctx r w s)))) = pv_db (sr_app s)"
proof -
  let ?x = "(rv_server e)\<lparr>sx_ready := Some (readinessChecker (rv_ready e) p)\<rparr>"
  let ?en = "server_endpoints ?x (pd_cfg p) (pd_identity p) version (fst (NewHandler urlParse (assets_config (pd_cfg p) (pd_signer p))))
     (Some (guarded (pd_cfg p) (rescanHandler (rv_scan e) (assets_root (pd_cfg p)) (rv_scanNow e) (rv_scanFaults e))))
     (Some (guarded (pd_cfg p) (announceHandler (announce_deps e p) (rv_body e) (rv_announceNow e) (pd_identity p) (pd_cfg p))))"
  have mux: "provider_mux urlParse version p e ctx = mux_serve (sx_escaped ?x) (sx_redirect ?x) (mux_patterns (pd_cfg p) ?en)"
    by (simp add: provider_mux_def server_mux_def Let_def)
  have "pv_db (sr_app (snd (state_of (pa_handler q r w s)))) = pv_db (sr_app s)" if q: "q \<in> set (mux_patterns (pd_cfg p) ?en)" for q
  proof -
    consider "keeps_db (pa_handler q)" | h where "cf_InternalEnable (pd_cfg p)" "pa_handler q = on_api (guarded (pd_cfg p) h)"
      using mux_patterns_handlers [OF q] plain_keep_db assets_keep_db
      by (auto simp: server_endpoints_def dest!: sym [where s = "on_api g" for g])
    then show ?thesis
    proof cases
      case 1
      then show ?thesis by (simp add: keeps_db_def)
    next
      case (2 h)
      then show ?thesis using refused_guard [of "pd_cfg p" r h w s] assms by simp
    qed
  qed
  then show ?thesis unfolding mux using mux_serve_cases [of "sx_escaped ?x" "sx_redirect ?x" "mux_patterns (pd_cfg p) ?en" r w s] by auto
qed

end
