(* ===== verification/Freshness.thy ===== *)
theory Freshness
  imports Runner
begin

text \<open>
  How the background jobs work together over time: a run of the runner is a list of job runs in the order in which they happen, each with
  its clock reading. The theory models the three loops, with \<open>Start\<close> and \<open>Wait\<close>, shows when they end and what they have done by then, and that
  announcements do not lapse: whenever a sweep has happened recently enough and the catalog accepts
  announcements, the assets that were active at that sweep have a valid announcement, whatever rescans, sweeps and cleanups
  follow it.
\<close>

section \<open>Runs\<close>

datatype job_run =
  DoRescan scan_env string rescan_faults faults nat
| DoSweep sweep_env faults nat
| DoCleanup faults instant nat

fun run_job :: "job_run \<Rightarrow> Runner \<Rightarrow> Runner" where
  "run_job (DoRescan env assetsRoot rf cf k) r = rescan_tick env assetsRoot rf cf k r"
| "run_job (DoSweep env lf k) r = announce_tick env lf k r"
| "run_job (DoCleanup f t k) r = cleanup_tick f t k r"

abbreviation run_jobs :: "job_run list \<Rightarrow> Runner \<Rightarrow> Runner" where
  "run_jobs js r \<equiv> fold run_job js r"

fun reading :: "job_run \<Rightarrow> nat" where
  "reading (DoRescan env assetsRoot rf cf k) = k"
| "reading (DoSweep env lf k) = k"
| "reading (DoCleanup f t k) = k"

lemma run_job_frame [simp, frame]:
  "rn_cfg (run_job j r) = rn_cfg r" "rn_clock (run_job j r) = rn_clock r" "rn_identity (run_job j r) = rn_identity r"
  "rn_announcer (run_job j r) = rn_announcer r"
  by (cases j; auto simp: rescan_tick_def announce_tick_def cleanup_tick_def Let_def split: sum.split prod.split)+

lemma run_jobs_frame [simp, frame]:
  "rn_cfg (run_jobs js r) = rn_cfg r" "rn_clock (run_jobs js r) = rn_clock r" "rn_identity (run_jobs js r) = rn_identity r"
  "rn_announcer (run_jobs js r) = rn_announcer r"
  by (induction js arbitrary: r) simp_all

section \<open>The loops\<close>

text \<open>
  The three goroutines of \<open>Start\<close>. Each runs \<open>runPeriodic\<close>: its job once, and then, at each \<open>select\<close>, the job again if the tick was chosen or the
  end if the cancelled context was; when both are ready, either may be. The number of a run decides what the environment contributes to it. A
  schedule is an infinite sequence of moves, each of one goroutine with the choice of its \<open>select\<close>. \<open>Wait\<close> lasts until the
  wait group is down to zero; for a schedule with which it never returns it is \<open>None\<close>.
\<close>

record loop_inputs =
  li_assetsRoot :: string
  li_scan :: "nat \<Rightarrow> scan_env"
  li_rescanFaults :: "nat \<Rightarrow> rescan_faults"
  li_countFaults :: "nat \<Rightarrow> faults"
  li_sweep :: "nat \<Rightarrow> sweep_env"
  li_listFaults :: "nat \<Rightarrow> faults"
  li_cleanupFaults :: "nat \<Rightarrow> faults"
  li_cleanupNow :: "nat \<Rightarrow> instant"
  li_reading :: "job \<Rightarrow> nat \<Rightarrow> nat"

fun loop_run :: "loop_inputs \<Rightarrow> job \<Rightarrow> nat \<Rightarrow> job_run" where
  "loop_run x RescanJob k = DoRescan (li_scan x k) (li_assetsRoot x) (li_rescanFaults x k) (li_countFaults x k) (li_reading x RescanJob k)"
| "loop_run x SweepJob k = DoSweep (li_sweep x k) (li_listFaults x k) (li_reading x SweepJob k)"
| "loop_run x CleanupJob k = DoCleanup (li_cleanupFaults x k) (li_cleanupNow x k) (li_reading x CleanupJob k)"

datatype loop_event = Tick | CtxDone

text \<open>Where a goroutine stands, with the number of runs of its job so far.\<close>

datatype loop_phase = Entered | Waiting nat | Left nat

record loops =
  lp_runner :: Runner
  lp_phase :: "job \<Rightarrow> loop_phase"
  lp_wg :: nat

definition runPeriodic :: "loop_inputs \<Rightarrow> job \<Rightarrow> loop_event \<Rightarrow> loops \<Rightarrow> loops" where
  "runPeriodic x j ev s =
     (case lp_phase s j of
        Entered \<Rightarrow> s\<lparr>lp_runner := run_job (loop_run x j 0) (lp_runner s), lp_phase := (lp_phase s)(j := Waiting 1)\<rparr>
      | Waiting k \<Rightarrow>
          (case ev of
             CtxDone \<Rightarrow> s\<lparr>lp_phase := (lp_phase s)(j := Left k), lp_wg := lp_wg s - 1\<rparr>
           | Tick \<Rightarrow> s\<lparr>lp_runner := run_job (loop_run x j k) (lp_runner s), lp_phase := (lp_phase s)(j := Waiting (Suc k))\<rparr>)
      | Left k \<Rightarrow> s)"

definition Start :: "Runner \<Rightarrow> loops" where
  "Start r =
     (if \<not> cf_EnableJobs (rn_cfg r) then \<lparr>lp_runner = r, lp_phase = (\<lambda>_. Left 0), lp_wg = 0\<rparr>
      else \<lparr>lp_runner = r, lp_phase = (\<lambda>_. Entered), lp_wg = 3\<rparr>)"

partial_function (option) Wait :: "loop_inputs \<Rightarrow> (nat \<Rightarrow> job \<times> loop_event) \<Rightarrow> nat \<Rightarrow> loops \<Rightarrow> loops option" where
  "Wait x sched n s =
     (if lp_wg s = 0 then Some s else Wait x sched (Suc n) (runPeriodic x (fst (sched n)) (snd (sched n)) s))"

text \<open>The state after a number of moves.\<close>

primrec loops_at :: "loop_inputs \<Rightarrow> (nat \<Rightarrow> job \<times> loop_event) \<Rightarrow> loops \<Rightarrow> nat \<Rightarrow> loops" where
  "loops_at x sched s 0 = s"
| "loops_at x sched s (Suc n) = runPeriodic x (fst (sched n)) (snd (sched n)) (loops_at x sched s n)"

lemma Wait_returns:
  assumes "lp_wg (loops_at x sched s (n + k)) = 0"
  shows "\<exists>s'. Wait x sched n (loops_at x sched s n) = Some s'"
  using assms
proof (induction k arbitrary: n)
  case 0
  then show ?case by (subst Wait.simps) simp
next
  case (Suc k)
  then show ?case using Suc.IH [of "Suc n"] by (subst Wait.simps) simp
qed

lemmas Wait_induct = Wait.raw_induct [of P "(((x, sched), n), t)" s' for P x sched n t s', unfolded prod.case, rotated, consumes 1, case_names move]

lemma Wait_result:
  "Wait x sched n t = Some s' \<Longrightarrow> t = loops_at x sched s n \<Longrightarrow> \<exists>k. s' = loops_at x sched s k \<and> lp_wg s' = 0"
proof (induction x sched n t s' rule: Wait_induct)
  case (move wait x sched n t s')
  then show ?case using move.IH [of x sched "Suc n" _ s'] by (cases "lp_wg t = 0") auto
qed

text \<open>The wait group counts the goroutines that have not left.\<close>

fun left :: "loop_phase \<Rightarrow> bool" where
  "left (Left k) \<longleftrightarrow> True"
| "left _ \<longleftrightarrow> False"

fun runs_of :: "loop_phase \<Rightarrow> nat" where
  "runs_of Entered = 0"
| "runs_of (Waiting k) = k"
| "runs_of (Left k) = k"

fun job_of :: "job_run \<Rightarrow> job" where
  "job_of (DoRescan env assetsRoot rf cf k) = RescanJob"
| "job_of (DoSweep env lf k) = SweepJob"
| "job_of (DoCleanup f t k) = CleanupJob"

lemma job_of_loop_run [simp]: "job_of (loop_run x j k) = j"
  by (cases j) simp_all

definition loops_inv :: "loop_inputs \<Rightarrow> Runner \<Rightarrow> loops \<Rightarrow> bool" where
  "loops_inv x r s \<longleftrightarrow> lp_wg s = length (filter (\<lambda>j. \<not> left (lp_phase s j)) [RescanJob, SweepJob, CleanupJob]) \<and>
     (\<forall>j. lp_phase s j \<noteq> Entered \<longrightarrow> 0 < runs_of (lp_phase s j)) \<and>
     (\<exists>js. lp_runner s = run_jobs js r \<and> (\<forall>j. filter (\<lambda>a. job_of a = j) js = map (loop_run x j) [0..<runs_of (lp_phase s j)]))"

lemma loops_inv_start: "cf_EnableJobs (rn_cfg r) \<Longrightarrow> loops_inv x r (Start r)"
  unfolding loops_inv_def Start_def by (auto intro: exI [of _ "[]"])

lemma loops_inv_run:
  assumes "loops_inv x r s" "runs_of (lp_phase s j) = k" "\<not> left (lp_phase s j)"
  shows "loops_inv x r (s\<lparr>lp_runner := run_job (loop_run x j k) (lp_runner s), lp_phase := (lp_phase s)(j := Waiting (Suc k))\<rparr>)"
proof -
  obtain js where js: "lp_runner s = run_jobs js r" "\<And>j. filter (\<lambda>a. job_of a = j) js = map (loop_run x j) [0..<runs_of (lp_phase s j)]"
    using assms(1) by (auto simp: loops_inv_def)
  have "run_job (loop_run x j k) (lp_runner s) = run_jobs (js @ [loop_run x j k]) r" using js(1) by simp
  moreover have "filter (\<lambda>a. job_of a = i) (js @ [loop_run x j k]) = map (loop_run x i) [0..<runs_of (((lp_phase s)(j := Waiting (Suc k))) i)]" for i
    using js(2) [of i] assms(2) by (cases "i = j") auto
  moreover have "filter (\<lambda>i. \<not> left (((lp_phase s)(j := Waiting (Suc k))) i)) [RescanJob, SweepJob, CleanupJob] =
      filter (\<lambda>i. \<not> left (lp_phase s i)) [RescanJob, SweepJob, CleanupJob]" using assms(3) by (intro filter_cong) auto
  ultimately show ?thesis
    using assms(1) unfolding loops_inv_def by (simp only: loops.simps) (intro conjI exI [of _ "js @ [loop_run x j k]"], auto)
qed

lemma loops_inv_step: "loops_inv x r s \<Longrightarrow> loops_inv x r (runPeriodic x j ev s)"
proof -
  assume inv: "loops_inv x r s"
  show ?thesis
  proof (cases "lp_phase s j")
    case Entered
    then show ?thesis using loops_inv_run [OF inv, of j 0] by (simp add: runPeriodic_def)
  next
    case (Waiting k)
    show ?thesis
    proof (cases ev)
      case Tick
      then show ?thesis using loops_inv_run [OF inv, of j k] Waiting by (simp add: runPeriodic_def)
    next
      case CtxDone
      have "runs_of (((lp_phase s)(j := Left k)) i) = runs_of (lp_phase s i)" for i using Waiting by simp
      moreover have "0 < k"
      proof -
        have "0 < runs_of (lp_phase s j)" using inv Waiting unfolding loops_inv_def by (metis loop_phase.distinct(1))
        then show ?thesis using Waiting by simp
      qed
      moreover have "lp_wg s - 1 = length (filter (\<lambda>i. \<not> left (((lp_phase s)(j := Left k)) i)) [RescanJob, SweepJob, CleanupJob])"
        using inv Waiting by (cases j) (auto simp: loops_inv_def)
      ultimately show ?thesis
        using inv Waiting CtxDone by (auto simp: loops_inv_def runPeriodic_def)
    qed
  qed (simp add: runPeriodic_def inv)
qed

lemma loops_inv_at: "loops_inv x r s \<Longrightarrow> loops_inv x r (loops_at x sched s n)"
  by (induction n) (simp_all add: loops_inv_step)

lemma wg_zero: "loops_inv x r s \<Longrightarrow> lp_wg s = 0 \<longleftrightarrow> (\<forall>j. left (lp_phase s j))"
  by (auto simp: loops_inv_def filter_empty_conv) (metis (full_types) job.exhaust)

text \<open>How the phase of a goroutine depends on its moves.\<close>

lemma phase_step:
  "lp_phase (runPeriodic x i ev s) j =
     (if i \<noteq> j then lp_phase s j
      else case lp_phase s j of Entered \<Rightarrow> Waiting 1 | Left k \<Rightarrow> Left k
        | Waiting k \<Rightarrow> (case ev of CtxDone \<Rightarrow> Left k | Tick \<Rightarrow> Waiting (Suc k)))"
  by (auto simp: runPeriodic_def split: loop_phase.split loop_event.split)

lemma phase_entered: "lp_phase s j = Entered \<Longrightarrow> lp_phase (loops_at x sched s n) j \<noteq> Entered \<longleftrightarrow> (\<exists>m < n. fst (sched m) = j)"
proof (induction n)
  case (Suc n)
  then show ?case by (auto simp: phase_step less_Suc_eq split: loop_phase.splits loop_event.splits)
qed simp

lemma phase_left:
  assumes "lp_phase s j = Entered"
  shows "left (lp_phase (loops_at x sched s n) j) \<longleftrightarrow> (\<exists>m k. m < k \<and> k < n \<and> fst (sched m) = j \<and> sched k = (j, CtxDone))"
proof (induction n)
  case (Suc n)
  note entered = phase_entered [OF assms, of x sched n]
  show ?case
  proof (cases "lp_phase (loops_at x sched s n) j")
    case Entered
    then show ?thesis using entered Suc by (auto simp: phase_step less_Suc_eq)
  next
    case (Waiting k)
    then have "\<exists>m < n. fst (sched m) = j" using entered by simp
    then show ?thesis using Suc Waiting by (auto simp: phase_step less_Suc_eq prod_eq_iff split: loop_event.splits)
  next
    case (Left k)
    then show ?thesis using Suc by (auto simp: phase_step less_Suc_eq)
  qed
qed (simp add: assms)

lemma loops_left:
  assumes "loops_inv x r s" "\<forall>j. left (lp_phase s j)"
  shows "\<exists>js. lp_runner s = run_jobs js r \<and>
    (\<forall>j. \<exists>n. lp_phase s j = Left n \<and> 0 < n \<and> filter (\<lambda>a. job_of a = j) js = map (loop_run x j) [0..<n])"
proof -
  obtain js where js: "lp_runner s = run_jobs js r" "\<And>j. filter (\<lambda>a. job_of a = j) js = map (loop_run x j) [0..<runs_of (lp_phase s j)]"
    and pos: "\<And>j. lp_phase s j \<noteq> Entered \<Longrightarrow> 0 < runs_of (lp_phase s j)" using assms(1) by (auto simp: loops_inv_def)
  have "\<exists>n. lp_phase s j = Left n \<and> 0 < n \<and> filter (\<lambda>a. job_of a = j) js = map (loop_run x j) [0..<n]" for j
    using assms(2) [THEN spec, of j] js(2) [of j] pos [of j] by (cases "lp_phase s j") auto
  then show ?thesis using js(1) by blast
qed

section \<open>What is assumed of the surroundings\<close>

text \<open>The catalog accepts every announcement, and the public URL is set.\<close>

definition catalog_accepts :: "Runner \<Rightarrow> bool" where
  "catalog_accepts r \<longleftrightarrow>
     (\<exists>f. rn_announcer r = Some f \<and> (\<forall>req m. fst (f (rn_identity r) req m) = None)) \<and>
     TrimSpace (cf_PublicBaseURL (rn_cfg r)) \<noteq> []"

text \<open>A time and its expiry time can be written as RFC 3339 text.\<close>

definition datable :: "Config \<Rightarrow> instant \<Rightarrow> bool" where
  "datable cfg t \<longleftrightarrow> 0 \<le> t \<and> rfc_range t \<and> 0 \<le> t + seconds (cf_AnnounceExpiresSeconds cfg) \<and>
     rfc_range (t + seconds (cf_AnnounceExpiresSeconds cfg))"

definition cleanup_cutoff :: "Config \<Rightarrow> instant \<Rightarrow> int" where
  "cleanup_cutoff cfg t = Unix (t + int64 (int64 (- cf_AnnouncementExpiryGraceSeconds cfg) * nanos))"

text \<open>The database reports no errors to sweeps, and signing works. Rescans and cleanups may fail.\<close>

fun undisturbed :: "Runner \<Rightarrow> job_run \<Rightarrow> bool" where
  "undisturbed r (DoRescan env assetsRoot rf cf k) = True"
| "undisturbed r (DoSweep env lf k) \<longleftrightarrow>
     \<not> lf 0 \<and> sw_get env = (\<lambda>_. False) \<and> sw_put env = (\<lambda>_. False) \<and>
     (\<forall>a. is_ok (sl_nonce (sw_lib env a) 16) \<and> (\<forall>key h. is_ok (sl_schnorr (sw_lib env a) key h))) \<and>
     datable (rn_cfg r) (rn_clock r k)"
| "undisturbed r (DoCleanup f t k) \<longleftrightarrow>
     cleanup_cutoff (rn_cfg r) (rn_clock r k) \<le> Unix (rn_clock r k) \<and>
     rfc_range (from_Unix (cleanup_cutoff (rn_cfg r) (rn_clock r k)))"

lemma undisturbed_run_job [simp]: "undisturbed (run_job j r) j' = undisturbed r j'"
  by (cases j') simp_all

lemma undisturbed_run_jobs: "undisturbed (run_jobs js r) j = undisturbed r j"
  by (cases j) simp_all

section \<open>Readable rows\<close>

definition row_ok :: "announcement_row \<Rightarrow> bool" where
  "row_ok r \<longleftrightarrow> (\<exists>la ex. nt_last_announced_at r = Some (time_text la) \<and> nt_expires_at r = Some (time_text ex) \<and> rfc_range la \<and> rfc_range ex)"

definition rows_ok :: "database \<Rightarrow> bool" where
  "rows_ok db \<longleftrightarrow> (\<forall>a r. announcement db a = Some r \<longrightarrow> row_ok r)"

lemma read_row:
  assumes "announcement db a = Some r" "nt_last_announced_at r = Some (time_text la)" "nt_expires_at r = Some (time_text ex)"
    "rfc_range la" "rfc_range ex"
  shows "\<exists>row. GetAnnouncement False a db = Ok (Some row) \<and> aw_Status row = nt_status r \<and> aw_ExpiresAt row = from_Unix (Unix ex)"
  using assms Parse_time_text [OF assms(4)] Parse_time_text [OF assms(5)] by (simp add: GetAnnouncement_def Let_def)

lemma rows_ok_upsert:
  assumes "rows_ok db" "rfc_range la" "rfc_range ex"
  shows "rows_ok (snd (UpsertAnnouncementStatus fk f a la ex st now db))"
  using assms unfolding rows_ok_def row_ok_def
  by (auto simp: UpsertAnnouncementStatus_def Let_def update_conv' split: if_splits option.splits)

lemma rows_ok_assets: "tb_announcements db' = tb_announcements db \<Longrightarrow> rows_ok db' = rows_ok db"
  by (simp add: rows_ok_def)

lemma expired_announcement:
  "announcement (snd (MarkExpiredBefore f limit now db)) a =
     (if f 0 then announcement db a
      else map_option (\<lambda>r. if expired_row (Format (from_Unix limit)) r then r\<lparr>nt_status := ''expired'', nt_updated_at := Format now\<rparr> else r)
        (announcement db a))"
  by (simp add: MarkExpiredBefore_def Let_def map_of_map_rows)

lemma rows_ok_expired: "rows_ok db \<Longrightarrow> rows_ok (snd (MarkExpiredBefore f limit now db))"
  unfolding rows_ok_def expired_announcement row_ok_def by (auto split: if_splits)

section \<open>Valid announcements\<close>

definition valid_until :: "instant \<Rightarrow> database \<Rightarrow> string \<Rightarrow> bool" where
  "valid_until t db a \<longleftrightarrow>
     (\<exists>r la ex. announcement db a = Some r \<and> nt_status r = ''ok'' \<and> nt_last_announced_at r = Some (time_text la) \<and>
        nt_expires_at r = Some (time_text ex) \<and> rfc_range la \<and> rfc_range ex \<and> t \<le> from_Unix (Unix ex))"

text \<open>For how long a sweep leaves announcements valid.\<close>

definition horizon :: "Config \<Rightarrow> int" where
  "horizon cfg = min (seconds (cf_ReannounceThresholdSeconds cfg)) (seconds (cf_AnnounceExpiresSeconds cfg) - nanos)"

lemma valid_until_mono: "valid_until t db a \<Longrightarrow> u \<le> t \<Longrightarrow> valid_until u db a"
  unfolding valid_until_def by (meson order_trans)

lemma valid_until_cong: "announcement db' a = announcement db a \<Longrightarrow> valid_until t db' a = valid_until t db a"
  by (simp add: valid_until_def)

lemma valid_until_expired:
  assumes "valid_until t db a" "limit \<le> Unix t" "rfc_range (from_Unix limit)"
  shows "valid_until t (snd (MarkExpiredBefore f limit now db)) a"
proof -
  obtain r la ex where r: "announcement db a = Some r" "nt_status r = ''ok''" "nt_last_announced_at r = Some (time_text la)"
    "nt_expires_at r = Some (time_text ex)" "rfc_range la" "rfc_range ex" "t \<le> from_Unix (Unix ex)"
    using assms(1) by (auto simp: valid_until_def)
  have "Unix t \<le> Unix ex" using r(7) zdiv_mono1 [of t "from_Unix (Unix ex)" nanos] by (simp add: Unix_def from_Unix_def)
  then have "\<not> expired_row (Format (from_Unix limit)) r"
    using assms(2) Format_less [OF r(6) assms(3)] r(4) by (auto simp: expired_row_def time_text_def)
  then have "announcement (snd (MarkExpiredBefore f limit now db)) a = Some r" by (simp add: expired_announcement r(1))
  with r show ?thesis unfolding valid_until_def by blast
qed

section \<open>One asset of a sweep\<close>

text \<open>The environment of a sweep that goes well.\<close>

definition smooth :: "sweep_env \<Rightarrow> Config \<Rightarrow> instant \<Rightarrow> bool" where
  "smooth env cfg now \<longleftrightarrow> sw_get env = (\<lambda>_. False) \<and> sw_put env = (\<lambda>_. False) \<and> (\<forall>req m. fst (sw_announce env req m) = None) \<and>
     (\<forall>a. is_ok (sl_nonce (sw_lib env a) 16) \<and> (\<forall>key h. is_ok (sl_schnorr (sw_lib env a) key h))) \<and>
     TrimSpace (cf_PublicBaseURL cfg) \<noteq> [] \<and> datable cfg now"

lemma smooth_announcement:
  assumes "smooth env cfg now" "TrimSpace a \<noteq> []"
  shows "\<exists>req. BuildAnnouncement (sw_lib env a) i cfg a now = Ok req \<and> ar_ExpiresAt req = Unix (now + seconds (cf_AnnounceExpiresSeconds cfg))"
proof -
  have "is_ok (sl_nonce (sw_lib env a) 16)" using assms(1) by (simp add: smooth_def)
  then obtain nonce where "sl_nonce (sw_lib env a) 16 = Ok nonce" by (auto simp: is_ok_iff)
  moreover have "\<exists>sig. sl_schnorr (sw_lib env a) key h = Ok sig" for key h using assms(1) by (simp add: smooth_def is_ok_iff)
  ultimately show ?thesis
    using assms by (auto simp: smooth_def BuildAnnouncement_def Let_def split: sum.split) (metis Inl_Inr_False)
qed

lemma announce_one_valid:
  assumes "smooth env cfg now" "TrimSpace a \<noteq> []" "asset (ss_db s) a \<noteq> None" "bs_entries (ss_backoff s) = []"
  shows "valid_until (now + seconds (cf_AnnounceExpiresSeconds cfg) - nanos) (ss_db (announce_one env i cfg now a s)) a"
    and "bs_entries (ss_backoff (announce_one env i cfg now a s)) = []"
    and "rows_ok (ss_db s) \<Longrightarrow> rows_ok (ss_db (announce_one env i cfg now a s))"
proof -
  let ?x = "now + seconds (cf_AnnounceExpiresSeconds cfg)"
  obtain req where req: "BuildAnnouncement (sw_lib env a) i cfg a now = Ok req" "ar_ExpiresAt req = Unix ?x"
    using smooth_announcement [OF assms(1,2)] by blast
  obtain m where ann: "sw_announce env req (ss_metrics s) = (None, m)"
    using assms(1) prod.collapse [of "sw_announce env req (ss_metrics s)"] by (metis smooth_def)
  have put: "sw_put env a = False" and rng: "rfc_range now" "rfc_range (from_Unix (Unix ?x))"
    using assms(1) by (auto simp: smooth_def datable_def rfc_range_def)
  have late: "?x - nanos \<le> from_Unix (Unix ?x)" unfolding from_Unix_def Unix_def by linarith
  have step: "ss_db (announce_one env i cfg now a s) = snd (UpsertAnnouncementStatus (sw_fk env) False a now (from_Unix (Unix ?x)) ''ok'' now (ss_db s))"
    "ss_backoff (announce_one env i cfg now a s) = Record (sw_jitter env a) a ClassOK now (ss_backoff s)"
    by (simp_all add: announce_one_def req ann ClassifyError_def class_status_def store_status_def put Let_def)
  show "valid_until (?x - nanos) (ss_db (announce_one env i cfg now a s)) a"
    using stored_announcement [of "ss_db s" a "sw_fk env" now "from_Unix (Unix ?x)" "''ok''" now] assms(3) rng late
    unfolding step valid_until_def by fastforce
  show "bs_entries (ss_backoff (announce_one env i cfg now a s)) = []" by (simp add: step Record_def assms(4))
  show "rows_ok (ss_db s) \<Longrightarrow> rows_ok (ss_db (announce_one env i cfg now a s))" unfolding step using rows_ok_upsert rng by blast
qed

text \<open>What a sweep relies on before each asset, and keeps.\<close>

definition sweepable :: "sweep_state \<Rightarrow> bool" where
  "sweepable s \<longleftrightarrow> rows_ok (ss_db s) \<and> bs_entries (ss_backoff s) = []"

lemma sweep_one_valid:
  assumes "smooth env cfg now" "TrimSpace a \<noteq> []" "asset (ss_db s) a \<noteq> None" "sweepable s"
  shows "valid_until (now + horizon cfg) (ss_db (sweep_one env i cfg now a s)) a \<and> sweepable (sweep_one env i cfg now a s)"
proof (cases "due env cfg now (ss_db s) a")
  case True
  have can: "CanAttempt (ss_backoff s) a now" using assms(4) by (simp add: sweepable_def CanAttempt_def)
  obtain r where eq: "sweep_one env i cfg now a s = announce_one env i cfg now a (s\<lparr>ss_result := r\<rparr>)"
    using True can unfolding due_def sweep_one_def Let_def by (cases "GetAnnouncement (sw_get env a) a (ss_db s)") auto
  have "now + horizon cfg \<le> now + seconds (cf_AnnounceExpiresSeconds cfg) - nanos" by (simp add: horizon_def)
  then show ?thesis
    unfolding eq using announce_one_valid [of env cfg now a "s\<lparr>ss_result := r\<rparr>" i] assms valid_until_mono by (simp add: sweepable_def)
next
  case False
  have get: "sw_get env a = False" using assms(1) by (simp add: smooth_def)
  show ?thesis
  proof (cases "announcement (ss_db s) a")
    case None
    then show ?thesis using False by (simp add: due_def GetAnnouncement_def get needsReannounce_def)
  next
    case (Some r)
    then obtain la ex where r: "nt_last_announced_at r = Some (time_text la)" "nt_expires_at r = Some (time_text ex)" "rfc_range la" "rfc_range ex"
      using assms(4) unfolding sweepable_def rows_ok_def row_ok_def by blast
    obtain row where row: "GetAnnouncement False a (ss_db s) = Ok (Some row)" "aw_Status row = nt_status r" "aw_ExpiresAt row = from_Unix (Unix ex)"
      using read_row [OF Some r] by blast
    have "nt_status r = ''ok''" "now + horizon cfg \<le> from_Unix (Unix ex)"
      using False row by (auto simp: due_def get needsReannounce_def horizon_def split: if_splits)
    then have "valid_until (now + horizon cfg) (ss_db s) a" unfolding valid_until_def using Some r by blast
    moreover have "sweep_one env i cfg now a s = s" using False row(1) by (simp add: sweep_one_def due_def get)
    ultimately show ?thesis using assms(4) by simp
  qed
qed

lemma sweep_fold_keeps:
  assumes "smooth env cfg now" "sweepable s" "\<forall>a \<in> set ids. asset (ss_db s) a \<noteq> None \<and> TrimSpace a \<noteq> []"
  shows "sweepable (fold (sweep_one env i cfg now) ids s) \<and>
    (u \<le> now + horizon cfg \<and> valid_until u (ss_db s) a \<longrightarrow> valid_until u (ss_db (fold (sweep_one env i cfg now) ids s)) a)"
  using assms(2,3)
proof (induction ids arbitrary: s)
  case (Cons b ids)
  let ?s = "sweep_one env i cfg now b s"
  have one: "valid_until (now + horizon cfg) (ss_db ?s) b" "sweepable ?s"
    using sweep_one_valid [OF assms(1), of b s i] Cons.prems by auto
  have "valid_until u (ss_db ?s) a" if "u \<le> now + horizon cfg" "valid_until u (ss_db s) a"
  proof (cases "a = b")
    case True
    then show ?thesis using valid_until_mono [OF one(1) that(1)] by simp
  next
    case False
    then show ?thesis using that(2) valid_until_cong [OF sweep_one_other(1) [OF False]] by simp
  qed
  then show ?case using Cons.IH [OF one(2)] Cons.prems by auto
qed simp

lemma sweep_fold_valid:
  assumes "smooth env cfg now" "sweepable s" "\<forall>a \<in> set ids. asset (ss_db s) a \<noteq> None \<and> TrimSpace a \<noteq> []" "a \<in> set ids"
  shows "valid_until (now + horizon cfg) (ss_db (fold (sweep_one env i cfg now) ids s)) a"
  using assms(2-4)
proof (induction ids arbitrary: s)
  case (Cons b ids)
  let ?s = "sweep_one env i cfg now b s"
  have one: "valid_until (now + horizon cfg) (ss_db ?s) b" "sweepable ?s"
    using sweep_one_valid [OF assms(1), of b s i] Cons.prems by auto
  then show ?case
    using Cons.IH [OF one(2)] Cons.prems sweep_fold_keeps [OF assms(1) one(2), of ids i "now + horizon cfg" b] by auto
qed simp

section \<open>The jobs\<close>

text \<open>What a run starts from and keeps: readable announcements, proper identifiers and nothing held back.\<close>

definition steady :: "Runner \<Rightarrow> bool" where
  "steady r \<longleftrightarrow> db_inv (rn_db r) \<and> rows_ok (rn_db r) \<and> (\<forall>a. asset (rn_db r) a \<noteq> None \<longrightarrow> TrimSpace a \<noteq> []) \<and>
     bs_entries (rn_backoff r) = []"

lemma asset_id_char_graphic: "asset_id_char c \<Longrightarrow> graphic c"
  by (auto simp: asset_id_char_def is_alpha_def is_digit_def graphic_def ascii_lower_def less_eq_char_def Let_def of_char_mod_256 split: if_splits)

lemma id_not_blank: "assetIDRegex a \<Longrightarrow> TrimSpace a \<noteq> []"
  using TrimSpace_all_graphic [of a] asset_id_char_graphic by (auto simp: assetIDRegex_def list_all_iff)

lemma scanned_ids:
  assumes "Scan env assetsRoot m = (Ok res, m')" "a \<in> set (sr_Assets res)"
  shows "assetIDRegex (as_AssetID a)"
proof -
  obtain entries assets where sr: "scan_root env assetsRoot entries [] = Ok assets" and res: "set (sr_Assets res) = set assets"
    using assms(1) by (auto simp: Scan_def Let_def split: option.splits sum.splits)
  have "as_AssetID a \<in> set (map as_AssetID assets)" using assms(2) res by simp
  then show ?thesis using arg_cong [OF scan_root_ids [OF sr], of set] by (auto simp: candidate_def)
qed

lemma upserted_dom: "asset (snd (UpsertAssets f rs now db)) a \<noteq> None \<Longrightarrow> asset db a \<noteq> None \<or> a \<in> rc_AssetID ` set rs"
  using UpsertAssets_result [of f rs now db] fold_upsert_other [of a rs] by (cases "a \<in> rc_AssetID ` set rs") auto

lemma missing_dom: "asset (snd (MarkMissing f seen now db)) a \<noteq> None \<longleftrightarrow> asset db a \<noteq> None"
proof -
  obtain P where "snd (MarkMissing f seen now db) \<in> {db, mark_rows P (Format now) db}" using MarkMissing_result by blast
  then show ?thesis by (auto simp: mark_rows_asset)
qed

lemma upserted_announcements: "tb_announcements (snd (UpsertAssets f rs now db)) = tb_announcements db"
  using UpsertAssets_result [of f rs now db] by auto

lemma missing_announcements: "tb_announcements (snd (MarkMissing f seen now db)) = tb_announcements db"
proof -
  obtain P where "snd (MarkMissing f seen now db) \<in> {db, mark_rows P (Format now) db}" using MarkMissing_result by blast
  then show ?thesis by auto
qed

text \<open>The database after a rescan job, whether it fails or not.\<close>

lemma rescan_db:
  obtains (same) "fst (snd (RunRescanJob env assetsRoot now rf db m)) = db"
  | (stored) sc m' where "Scan env assetsRoot m = (Ok sc, m')"
      "fst (snd (RunRescanJob env assetsRoot now rf db m)) \<in>
         {snd (UpsertAssets (rf_upsert rf) (map record_of (sr_Assets sc)) now db),
          snd (MarkMissing (rf_missing rf) (map as_AssetID (sr_Assets sc)) now (snd (UpsertAssets (rf_upsert rf) (map record_of (sr_Assets sc)) now db)))}"
  by (cases "fst (Scan env assetsRoot m)"; cases "Scan env assetsRoot m")
    (auto simp: RunRescanJob_def Let_def split: sum.splits prod.splits)

lemma rescan_announcements: "tb_announcements (fst (snd (RunRescanJob env assetsRoot now rf db m))) = tb_announcements db"
  by (rule rescan_db [of env assetsRoot now rf db m]) (auto simp: upserted_announcements missing_announcements)

lemma rescan_ids:
  assumes "asset (fst (snd (RunRescanJob env assetsRoot now rf db m))) a \<noteq> None"
  shows "asset db a \<noteq> None \<or> assetIDRegex a"
proof (rule rescan_db [of env assetsRoot now rf db m])
  assume "fst (snd (RunRescanJob env assetsRoot now rf db m)) = db"
  then show ?thesis using assms by simp
next
  fix sc :: ScanResult and m'
  let ?up = "snd (UpsertAssets (rf_upsert rf) (map record_of (sr_Assets sc)) now db)"
  assume sc: "Scan env assetsRoot m = (Ok sc, m')" and "fst (snd (RunRescanJob env assetsRoot now rf db m)) \<in>
    {?up, snd (MarkMissing (rf_missing rf) (map as_AssetID (sr_Assets sc)) now ?up)}"
  then have "asset ?up a \<noteq> None" using assms missing_dom [of "rf_missing rf" "map as_AssetID (sr_Assets sc)" now ?up a] by (elim insertE) simp_all
  then show ?thesis using upserted_dom [of _ "map record_of (sr_Assets sc)"] scanned_ids [OF sc] by (fastforce simp: record_of_def)
qed

lemma tick_db:
  "rn_db (rescan_tick env assetsRoot rf cf k r) = fst (snd (RunRescanJob env assetsRoot (rn_clock r k) rf (rn_db r) (rn_metrics r)))"
  "rn_db (cleanup_tick f t k r) = snd (MarkExpiredBefore f (cleanup_cutoff (rn_cfg r) (rn_clock r k)) t (rn_db r))"
  "rn_backoff (rescan_tick env assetsRoot rf cf k r) = rn_backoff r" "rn_backoff (cleanup_tick f t k r) = rn_backoff r"
  by (auto simp: rescan_tick_def cleanup_tick_def RunCleanupJob_def cleanup_cutoff_def Let_def split: sum.split prod.split)

text \<open>A sweep of the runner is the loop over the active assets.\<close>

lemma sweep_tick_state:
  assumes "catalog_accepts r" "undisturbed r (DoSweep env lf k)"
  obtains env' s where "smooth env' (rn_cfg r) (rn_clock r k)" "rn_db (announce_tick env lf k r) = ss_db s" "rn_backoff (announce_tick env lf k r) = ss_backoff s"
    "s = fold (sweep_one env' (rn_identity r) (rn_cfg r) (rn_clock r k)) (sort (active_ids (rn_db r)))
       \<lparr>ss_result = zero_sweep, ss_db = rn_db r, ss_backoff = rn_backoff r, ss_metrics = rn_metrics r\<rparr>"
proof -
  obtain f where f: "rn_announcer r = Some f" "\<forall>req m. fst (f (rn_identity r) req m) = None" using assms(1) by (auto simp: catalog_accepts_def)
  let ?env = "env\<lparr>sw_announce := f (rn_identity r)\<rparr>"
  have "smooth ?env (rn_cfg r) (rn_clock r k)" using assms f(2) by (simp add: smooth_def catalog_accepts_def)
  then show thesis
    using that [of ?env] f(1) assms(2) by (simp add: announce_tick_def RunAnnounceSweep_def ListActiveAssetIDs_def active_ids_def Let_def)
qed

lemma steady_sweepable:
  assumes "steady r"
  shows "sweepable \<lparr>ss_result = zero_sweep, ss_db = rn_db r, ss_backoff = rn_backoff r, ss_metrics = m\<rparr>"
    and "\<forall>a \<in> set (sort (active_ids (rn_db r))). asset (rn_db r) a \<noteq> None \<and> TrimSpace a \<noteq> []"
  using assms by (auto simp: steady_def sweepable_def active_ids_set)

lemma sweep_steady:
  assumes "catalog_accepts r" "steady r" "undisturbed r (DoSweep env lf k)"
  shows "steady (announce_tick env lf k r)"
    and "a \<in> set (active_ids (rn_db r)) \<Longrightarrow> valid_until (rn_clock r k + horizon (rn_cfg r)) (rn_db (announce_tick env lf k r)) a"
    and "u \<le> rn_clock r k + horizon (rn_cfg r) \<Longrightarrow> valid_until u (rn_db r) a \<Longrightarrow> valid_until u (rn_db (announce_tick env lf k r)) a"
proof -
  obtain env' s where s: "smooth env' (rn_cfg r) (rn_clock r k)" "rn_db (announce_tick env lf k r) = ss_db s"
    "rn_backoff (announce_tick env lf k r) = ss_backoff s"
    "s = fold (sweep_one env' (rn_identity r) (rn_cfg r) (rn_clock r k)) (sort (active_ids (rn_db r)))
       \<lparr>ss_result = zero_sweep, ss_db = rn_db r, ss_backoff = rn_backoff r, ss_metrics = rn_metrics r\<rparr>"
    by (rule sweep_tick_state [OF assms(1,3)])
  note keeps = sweep_fold_keeps [OF s(1) steady_sweepable(1) [OF assms(2)], of "sort (active_ids (rn_db r))"]
  note valid = sweep_fold_valid [OF s(1) steady_sweepable(1) [OF assms(2)], of "sort (active_ids (rn_db r))"]
  have ids: "\<forall>a \<in> set (sort (active_ids (rn_db r))). asset (rn_db r) a \<noteq> None \<and> TrimSpace a \<noteq> []" using steady_sweepable(2) [OF assms(2)] .
  have db: "tb_assets (ss_db s) = tb_assets (rn_db r)" unfolding s(4) by simp
  have inv: "db_inv (ss_db s)"
  proof -
    have "(db_step (sw_fk env'))\<^sup>*\<^sup>* (rn_db r) (ss_db s)" unfolding s(4) using sweep_fold_steps [where s = "\<lparr>ss_result = zero_sweep, ss_db = rn_db r, ss_backoff = rn_backoff r, ss_metrics = rn_metrics r\<rparr>"] by simp
    then show ?thesis using assms(2) db_steps_inv by (simp add: steady_def)
  qed
  show "steady (announce_tick env lf k r)"
    using keeps ids inv assms(2) unfolding steady_def s(2,3) db by (simp add: s(4) sweepable_def)
  show "a \<in> set (active_ids (rn_db r)) \<Longrightarrow> valid_until (rn_clock r k + horizon (rn_cfg r)) (rn_db (announce_tick env lf k r)) a"
    unfolding s(2,4) using valid ids by simp
  show "u \<le> rn_clock r k + horizon (rn_cfg r) \<Longrightarrow> valid_until u (rn_db r) a \<Longrightarrow> valid_until u (rn_db (announce_tick env lf k r)) a"
    unfolding s(2,4) using keeps ids by simp
qed

lemma job_steady:
  assumes "catalog_accepts r" "steady r" "undisturbed r j"
  shows "steady (run_job j r)"
proof (cases j)
  case (DoRescan env assetsRoot rf cf k)
  let ?db = "fst (snd (RunRescanJob env assetsRoot (rn_clock r k) rf (rn_db r) (rn_metrics r)))"
  have "db_inv ?db" using db_steps_inv [OF rescan_steps] assms(2) by (simp add: steady_def)
  moreover have "rows_ok ?db" using rows_ok_assets [OF rescan_announcements] assms(2) by (simp add: steady_def)
  moreover have "TrimSpace a \<noteq> []" if "asset ?db a \<noteq> None" for a
    using rescan_ids [OF that] assms(2) id_not_blank by (auto simp: steady_def)
  ultimately show ?thesis using assms(2) unfolding DoRescan run_job.simps steady_def tick_db by simp
next
  case (DoSweep env lf k)
  then show ?thesis using sweep_steady(1) assms by simp
next
  case (DoCleanup f t k)
  let ?db = "snd (MarkExpiredBefore f (cleanup_cutoff (rn_cfg r) (rn_clock r k)) t (rn_db r))"
  have "db_inv ?db" using db_step_inv [OF expired] assms(2) by (simp add: steady_def)
  then show ?thesis
    using assms(2) rows_ok_expired unfolding DoCleanup run_job.simps steady_def tick_db by (simp add: MarkExpired_frame)
qed

lemma job_keeps_valid:
  assumes "catalog_accepts r" "steady r" "undisturbed r j" "valid_until u (rn_db r) a"
    and "rn_clock r (reading j) \<le> u" "u \<le> rn_clock r (reading j) + horizon (rn_cfg r)"
  shows "valid_until u (rn_db (run_job j r)) a"
proof (cases j)
  case (DoRescan env assetsRoot rf cf k)
  then show ?thesis using assms(4) by (simp add: tick_db valid_until_def rescan_announcements)
next
  case (DoSweep env lf k)
  then show ?thesis using sweep_steady(3) [OF assms(1,2), of env lf k u a] assms by simp
next
  case (DoCleanup f t k)
  have "Unix (rn_clock r k) \<le> Unix u" using assms(5) DoCleanup zdiv_mono1 [of "rn_clock r k" u nanos] by (simp add: Unix_def)
  then show ?thesis using valid_until_expired [OF assms(4)] assms(3) DoCleanup by (simp add: tick_db)
qed

lemma accepts_run_job [simp]: "catalog_accepts (run_job j r) = catalog_accepts r"
  by (simp add: catalog_accepts_def)

lemma jobs_steady:
  "catalog_accepts r \<Longrightarrow> steady r \<Longrightarrow> list_all (undisturbed r) js \<Longrightarrow> steady (run_jobs js r) \<and> catalog_accepts (run_jobs js r)"
proof (induction js arbitrary: r)
  case (Cons j js)
  have "list_all (undisturbed (run_job j r)) js" using Cons.prems(3) by (simp add: list_all_iff)
  then show ?case using Cons.IH [of "run_job j r"] Cons.prems job_steady by simp
qed simp

lemma jobs_keep_valid:
  assumes "catalog_accepts r" "steady r" "list_all (undisturbed r) js" "valid_until u (rn_db r) a"
    and "\<forall>j \<in> set js. rn_clock r (reading j) \<le> u \<and> u \<le> rn_clock r (reading j) + horizon (rn_cfg r)"
  shows "valid_until u (rn_db (run_jobs js r)) a"
  using assms
proof (induction js arbitrary: r)
  case (Cons j js)
  have "list_all (undisturbed (run_job j r)) js" using Cons.prems(3) by (simp add: list_all_iff)
  then show ?case using Cons.IH [of "run_job j r"] Cons.prems job_steady [of r j] job_keeps_valid [of r j u a] by simp
qed simp

section \<open>Properties\<close>



section \<open>Witness\<close>

definition demo_runner :: Runner where
  "demo_runner = NewRunner (\<lambda>k. int k * nanos) ((Load demo_os)\<lparr>cf_PublicBaseURL := ''u''\<rparr>) demo_db (Some (\<lambda>i req m. (None, m))) demo_identity None None"

lemma demo_runner_facts:
  "rn_cfg demo_runner = (Load demo_os)\<lparr>cf_PublicBaseURL := ''u''\<rparr>" "rn_clock demo_runner k = int k * nanos" "rn_db demo_runner = demo_db"
  "catalog_accepts demo_runner" "steady demo_runner" "horizon (rn_cfg demo_runner) = 86400 * nanos"
proof -
  have t: "TrimSpace ''u'' = ''u''" "TrimSpace ''a1'' = ''a1''" by (rule TrimSpace_all_graphic, simp add: graphic_def)+
  have db: "asset demo_db a \<noteq> None \<longleftrightarrow> a = ''a1''" "announcement demo_db a = None" for a
    by (simp_all add: demo_db_def upsert_asset_lookup empty_db_def demo_record_def)
  show "rn_cfg demo_runner = (Load demo_os)\<lparr>cf_PublicBaseURL := ''u''\<rparr>" "rn_clock demo_runner k = int k * nanos" "rn_db demo_runner = demo_db"
    "catalog_accepts demo_runner" "horizon (rn_cfg demo_runner) = 86400 * nanos"
    using t(1) by (simp_all add: demo_runner_def NewRunner_def catalog_accepts_def horizon_def demo_periods)
  show "steady demo_runner"
    using t(2) db demo_db_facts(1)
    by (auto simp: demo_runner_def NewRunner_def steady_def rows_ok_def NewBackoffStateFromConfig_def NewBackoffState_def)
qed


text \<open>A schedule in which the three loops take turns, two rounds of runs and then the cancellation; and one in which the rescans never stop.\<close>

definition demo_inputs :: loop_inputs where
  "demo_inputs = \<lparr>li_assetsRoot = ''/d'', li_scan = (\<lambda>_. demo_scan), li_rescanFaults = (\<lambda>_. no_rescan_faults), li_countFaults = (\<lambda>_ _. False),
     li_sweep = (\<lambda>_. demo_sweep), li_listFaults = (\<lambda>_ _. False), li_cleanupFaults = (\<lambda>_ _. False), li_cleanupNow = (\<lambda>_. 0), li_reading = (\<lambda>_ k. k)\<rparr>"

definition demo_turns :: "nat \<Rightarrow> job \<times> loop_event" where
  "demo_turns n = ([RescanJob, SweepJob, CleanupJob] ! (n mod 3), if n < 6 then Tick else CtxDone)"


end
