(* ===== verification/System.thy ===== *)
theory System
  imports Startup Freshness
begin

text \<open>
  The running program: requests and background jobs on the state they share. A step is one request or one run of a job, with whatever the
  environment contributes to it. The theory shows what holds in every state that a started program can reach. (How the single
  statements of overlapping requests and jobs interleave is the subject of \<open>db_step\<close>, \<open>guard_step\<close> and \<open>rescans_step\<close>.)
\<close>

section \<open>Steps\<close>

text \<open>The retry bookkeeping belongs to the runner; everything else is shared.\<close>

record system =
  sy_server :: "app server"
  sy_backoff :: BackoffState

definition booted :: "provider \<Rightarrow> system" where
  "booted p = \<lparr>sy_server = provider_state fl64 p, sy_backoff = NewBackoffStateFromConfig (pd_cfg p)\<rparr>"

definition runner_on :: "provider \<Rightarrow> clock \<Rightarrow> announcer option \<Rightarrow> system \<Rightarrow> Runner" where
  "runner_on p clk ann s =
     \<lparr>rn_cfg = pd_cfg p, rn_db = pv_db (sr_app (sy_server s)), rn_announcer = ann, rn_identity = pd_identity p, rn_clock = clk,
      rn_backoff = sy_backoff s, rn_status = pv_jobs (sr_app (sy_server s)), rn_metrics = sr_metrics (sy_server s)\<rparr>"

definition after_job :: "system \<Rightarrow> Runner \<Rightarrow> system" where
  "after_job s r =
     \<lparr>sy_server = (sy_server s)\<lparr>sr_metrics := rn_metrics r, sr_app := (sr_app (sy_server s))\<lparr>pv_db := rn_db r, pv_jobs := rn_status r\<rparr>\<rparr>,
      sy_backoff = rn_backoff r\<rparr>"

text \<open>The runner that \<open>main\<close> starts is the runner on the state that \<open>main\<close> built.\<close>

lemma started_runner:
  "provider_runner clk e p = Some r \<Longrightarrow> r = runner_on p clk (NewCatalogAnnouncer (rv_net e) (rv_urlString e) (rv_elapsed e) (pd_client p)) (booted p)"
  by (auto simp: provider_runner_def runner_on_def booted_def provider_state_def initial_app_def NewRunner_def split: if_splits)

text \<open>Whether the connection enforces foreign keys is the same for all users of the database.\<close>

fun job_fk :: "bool \<Rightarrow> job_run \<Rightarrow> bool" where
  "job_fk fk (DoSweep env lf k) \<longleftrightarrow> sw_fk env = fk"
| "job_fk fk _ \<longleftrightarrow> True"

inductive system_step :: "(string \<Rightarrow> url_parts option) \<Rightarrow> string \<Rightarrow> provider \<Rightarrow> bool \<Rightarrow> system \<Rightarrow> system \<Rightarrow> bool"
  for urlParse version p fk where
  request: "ae_fk (rv_announce e) = fk \<Longrightarrow> sx_fl (rv_server e) = fl64 \<Longrightarrow>
    system_step urlParse version p fk s (s\<lparr>sy_server := snd (state_of (provider_server urlParse version p e r w (sy_server s)))\<rparr>)"
| job: "cf_EnableJobs (pd_cfg p) \<Longrightarrow> job_fk fk j \<Longrightarrow>
    system_step urlParse version p fk s (after_job s (run_job j (runner_on p clk (NewCatalogAnnouncer net us el (pd_client p)) s)))"

inductive_cases system_stepE: "system_step urlParse version p fk s s'"

section \<open>The invariant\<close>

definition system_inv :: "provider \<Rightarrow> bool \<Rightarrow> system \<Rightarrow> bool" where
  "system_inv p fk s \<longleftrightarrow>
     (let sv = sy_server s; app = sr_app sv
      in db_good fk (pv_db app) \<and> keeps_assets (pd_db p) (pv_db app) \<and>
         pv_sem app = NewSemaphore (cf_ProxyMaxUpstreamConcurrency (pd_cfg p)) \<and>
         sr_metrics sv \<noteq> None \<and> (\<forall>q. http_inflight q (sr_metrics sv) = 0) \<and>
         limiter_inv fl64 (pv_limiter app) \<and>
         rl_burst (pv_limiter app) = fl64 (of_int (max_int 1 (cf_RateLimitBurst (pd_cfg p)))) \<and>
         st_jobsEnabled (pv_jobs app) = cf_EnableJobs (pd_cfg p) \<and>
         backoff_inv (sy_backoff s) \<and> bs_cfg (sy_backoff s) = bs_cfg (NewBackoffStateFromConfig (pd_cfg p)))"

subsection \<open>Jobs and the request gauge\<close>

text \<open>Metrics calls that leave the gauge of open requests alone.\<close>

definition quiet :: "metrics \<Rightarrow> metrics \<Rightarrow> bool" where
  "quiet m m' \<longleftrightarrow> (\<forall>q. http_inflight q m' = http_inflight q m) \<and> (m' = None \<longleftrightarrow> m = None)"

lemma quiet_refl [simp]: "quiet m m"
  by (simp add: quiet_def)

lemma quiet_trans: "quiet m m1 \<Longrightarrow> quiet m1 m2 \<Longrightarrow> quiet m m2"
  by (simp add: quiet_def)

lemma quiet_emit: "(\<And>q. http_inflight q (Some es) = 0) \<Longrightarrow> quiet m (emit es m)"
  by (simp add: quiet_def http_inflight_emit) (simp add: emit_def http_inflight_def)

lemma quiet_ops:
  "quiet m (ObserveScan res d m)" "quiet m (ObserveCatalog ep res2 st d2 m)" "quiet m (ObserveAnnounce res3 m)"
  "quiet m (ObserveAnnounceSweep res4 m)" "quiet m (SetActiveAssets n m)" "quiet m (SetMissingAssets n2 m)" "quiet m (SetDeferredAnnounces n3 m)"
  unfolding metrics_ops by (rule quiet_emit; simp add: http_inflight_def event_def)+

lemmas quiet_chain = quiet_trans [OF _ quiet_ops(1)] quiet_trans [OF _ quiet_ops(2)] quiet_trans [OF _ quiet_ops(3)] quiet_trans [OF _ quiet_ops(4)]
  quiet_trans [OF _ quiet_ops(5)] quiet_trans [OF _ quiet_ops(6)] quiet_trans [OF _ quiet_ops(7)]

lemma rescan_job_quiet: "quiet m (snd (snd (RunRescanJob env assetsRoot now rf db m)))"
proof -
  obtain res where "snd (snd (RunRescan env assetsRoot now rf db m)) = ObserveScan res (se_elapsed env) m" using RunRescan_metrics by blast
  then have "snd (snd (RunRescanJob env assetsRoot now rf db m)) = ObserveScan res (se_elapsed env) m"
    by (auto simp: RunRescan_job split: prod.splits sum.splits)
  then show ?thesis by (simp add: quiet_ops)
qed

lemma sweep_one_quiet:
  assumes "\<And>req m. quiet m (snd (sw_announce env req m))"
  shows "quiet (ss_metrics s) (ss_metrics (sweep_one env i cfg now a s))"
  using assms [THEN quiet_chain(3)]
  by (auto simp: sweep_one_def announce_one_def quiet_ops Let_def split: sum.split prod.split) (metis snd_conv)

lemma sweep_fold_quiet:
  assumes "\<And>req m. quiet m (snd (sw_announce env req m))"
  shows "quiet (ss_metrics s) (ss_metrics (fold (sweep_one env i cfg now) ids s))"
proof (induction ids arbitrary: s)
  case (Cons a ids)
  show ?case using quiet_trans [OF sweep_one_quiet [OF assms] Cons.IH] by simp
qed simp

lemma adapter_quiet: "quiet m (snd (catalogAnnouncerAdapter_Announce net us el c i req m))"
proof -
  obtain res st where "snd (Announce net us el c i req m) = ObserveCatalog ''providers_announce'' res st el m" using Announce_metrics by blast
  then have "snd (catalogAnnouncerAdapter_Announce net us el c i req m) = ObserveCatalog ''providers_announce'' res st el m"
    by (auto simp: catalogAnnouncerAdapter_Announce_def split: prod.split)
  then show ?thesis by (simp add: quiet_ops)
qed

lemma sweep_fold_backoff:
  "backoff_inv (ss_backoff s) \<Longrightarrow> backoff_inv (ss_backoff (fold (sweep_one env i cfg now) ids s)) \<and>
     bs_cfg (ss_backoff (fold (sweep_one env i cfg now) ids s)) = bs_cfg (ss_backoff s)"
proof (induction ids arbitrary: s)
  case (Cons a ids)
  have "backoff_inv (ss_backoff (sweep_one env i cfg now a s))" "bs_cfg (ss_backoff (sweep_one env i cfg now a s)) = bs_cfg (ss_backoff s)"
    using Cons.prems by (auto simp: sweep_one_def announce_one_def Let_def split: sum.split prod.split intro: Record_inv)
  then show ?case using Cons.IH by simp
qed simp

subsection \<open>One job\<close>

lemma rescan_job_kept:
  "quiet (rn_metrics r) (rn_metrics (rescan_tick env assetsRoot rf cf k r))"
  "rn_backoff (rescan_tick env assetsRoot rf cf k r) = rn_backoff r"
  "st_jobsEnabled (rn_status (rescan_tick env assetsRoot rf cf k r)) = st_jobsEnabled (rn_status r)"
proof -
  obtain res db m where run: "RunRescanJob env assetsRoot (rn_clock r k) rf (rn_db r) (rn_metrics r) = (res, db, m)" by (metis prod_cases3)
  then have m: "quiet (rn_metrics r) m" using rescan_job_quiet [of "rn_metrics r" env assetsRoot "rn_clock r k" rf "rn_db r"] by simp
  show "quiet (rn_metrics r) (rn_metrics (rescan_tick env assetsRoot rf cf k r))"
    using m quiet_chain(5,6) quiet_chain(6) [OF quiet_chain(5)] by (auto simp: rescan_tick_def run Let_def split: sum.split)
  show "rn_backoff (rescan_tick env assetsRoot rf cf k r) = rn_backoff r"
    "st_jobsEnabled (rn_status (rescan_tick env assetsRoot rf cf k r)) = st_jobsEnabled (rn_status r)"
    by (auto simp: rescan_tick_def run setLastRescanAt_def Let_def split: sum.split)
qed

lemma sweep_job_kept:
  assumes "rn_announcer r = NewCatalogAnnouncer net us el client" "backoff_inv (rn_backoff r)"
  shows "quiet (rn_metrics r) (rn_metrics (announce_tick env lf k r))"
    "backoff_inv (rn_backoff (announce_tick env lf k r)) \<and> bs_cfg (rn_backoff (announce_tick env lf k r)) = bs_cfg (rn_backoff r)"
    "st_jobsEnabled (rn_status (announce_tick env lf k r)) = st_jobsEnabled (rn_status r)"
proof -
  obtain res db b m where run: "RunAnnounceSweep (map_option (\<lambda>a. env\<lparr>sw_announce := a (rn_identity r)\<rparr>) (rn_announcer r)) lf (rn_identity r)
      (rn_cfg r) (rn_clock r k) (rn_db r) (rn_backoff r) (rn_metrics r) = (res, db, b, m)" by (metis prod_cases4)
  have "quiet (rn_metrics r) m \<and> backoff_inv b \<and> bs_cfg b = bs_cfg (rn_backoff r)"
  proof (cases client)
    case (Some c)
    let ?env = "env\<lparr>sw_announce := catalogAnnouncerAdapter_Announce net us el c (rn_identity r)\<rparr>"
      and ?s = "\<lparr>ss_result = zero_sweep, ss_db = rn_db r, ss_backoff = rn_backoff r, ss_metrics = rn_metrics r\<rparr>"
    have "\<And>req m. quiet m (snd (sw_announce ?env req m))" by (simp add: adapter_quiet)
    note sweep_fold_quiet [OF this, of ?s] sweep_fold_backoff [of ?s ?env]
    then show ?thesis
      using run assms Some by (auto simp: RunAnnounceSweep_def NewCatalogAnnouncer_def Let_def split: sum.splits)
  qed (use run assms in \<open>auto simp: RunAnnounceSweep_def NewCatalogAnnouncer_def\<close>)
  then show "quiet (rn_metrics r) (rn_metrics (announce_tick env lf k r))"
    "backoff_inv (rn_backoff (announce_tick env lf k r)) \<and> bs_cfg (rn_backoff (announce_tick env lf k r)) = bs_cfg (rn_backoff r)"
    "st_jobsEnabled (rn_status (announce_tick env lf k r)) = st_jobsEnabled (rn_status r)"
    using quiet_chain(4) quiet_chain(4) [OF quiet_chain(7)]
    by (auto simp: announce_tick_def run setLastAnnounceSweep_def Let_def split: sum.split)
qed

lemma job_keeps:
  assumes "rn_announcer r = NewCatalogAnnouncer net us el client" "backoff_inv (rn_backoff r)" "job_fk fk j"
  shows "quiet (rn_metrics r) (rn_metrics (run_job j r)) \<and> backoff_inv (rn_backoff (run_job j r)) \<and>
    bs_cfg (rn_backoff (run_job j r)) = bs_cfg (rn_backoff r) \<and> st_jobsEnabled (rn_status (run_job j r)) = st_jobsEnabled (rn_status r) \<and>
    (db_step fk)\<^sup>*\<^sup>* (rn_db r) (rn_db (run_job j r))"
proof (cases j)
  case (DoSweep env lf k)
  then show ?thesis using sweep_job_kept [OF assms(1,2)] announce_tick_steps [of env r lf k] assms(3) by simp
next
  case (DoRescan env assetsRoot rf cf k)
  then show ?thesis using rescan_job_kept rescan_tick_steps assms(2) by simp
next
  case (DoCleanup f t k)
  then have "rn_metrics (run_job j r) = rn_metrics r \<and> rn_backoff (run_job j r) = rn_backoff r \<and> rn_status (run_job j r) = rn_status r"
    by (simp add: cleanup_tick_def split: prod.split)
  then show ?thesis using DoCleanup cleanup_tick_steps assms(2) by simp
qed

subsection \<open>One request\<close>

text \<open>Limiter and job status: only the asset endpoint touches the former, and no endpoint the latter.\<close>

definition limits_kept :: "app \<Rightarrow> app \<Rightarrow> bool" where
  "limits_kept a a' \<longleftrightarrow> pv_jobs a' = pv_jobs a \<and> rl_burst (pv_limiter a') = rl_burst (pv_limiter a) \<and>
     (limiter_inv fl64 (pv_limiter a) \<longrightarrow> limiter_inv fl64 (pv_limiter a'))"

definition keeps_limits :: "app server http_handler \<Rightarrow> bool" where
  "keeps_limits h \<longleftrightarrow> (\<forall>r w s. limits_kept (sr_app s) (sr_app (snd (state_of (h r w s)))))"

lemma limits_kept_refl [simp]: "limits_kept a a"
  by (simp add: limits_kept_def)

lemma keeps_limits_returning: "(\<And>r w s. \<exists>w'. h r w s = Returned (w', s)) \<Longrightarrow> keeps_limits h"
  unfolding keeps_limits_def by (metis limits_kept_refl snd_conv state_of.simps(1))

lemma keeps_limits_api: "keeps_limits (on_api h)"
  by (auto simp: keeps_limits_def on_api_def limits_kept_def split: prod.split)

lemma keeps_limits_limiter:
  assumes "\<And>r w s. pv_jobs (sr_app (snd (state_of (h r w s)))) = pv_jobs (sr_app s)"
  shows "keeps_limits (on_limiter (rateLimitMiddleware fl64 now h))"
  unfolding keeps_limits_def
proof (intro allI)
  fix r :: request and w and s :: "app server"
  obtain ok l where a: "allow fl64 (pv_limiter (sr_app s)) (clientIP (req_remote r)) now = (ok, l)" by fastforce
  have "rl_burst l = rl_burst (pv_limiter (sr_app s))" "limiter_inv fl64 (pv_limiter (sr_app s)) \<longrightarrow> limiter_inv fl64 l"
    using allow_config(2) [of fl64 "pv_limiter (sr_app s)" "clientIP (req_remote r)" now]
      f64.allow_inv [of "pv_limiter (sr_app s)" "clientIP (req_remote r)" now] a by simp_all
  then show "limits_kept (sr_app s) (sr_app (snd (state_of (on_limiter (rateLimitMiddleware fl64 now h) r w s))))"
    using assms [of r w s] a by (cases "h r w s") (auto simp: limits_kept_def on_limiter_def rateLimitMiddleware_def split: bool.split)
qed

lemma keeps_limits_assets: "sx_fl x = fl64 \<Longrightarrow> keeps_limits (assets_endpoint x cfg h)"
  by (auto simp: assets_endpoint_def Let_def corsMiddleware_def on_assets_def intro!: keeps_limits_limiter)

lemma provider_mux_limits:
  assumes "sx_fl (rv_server e) = fl64"
  shows "keeps_limits (provider_mux urlParse version p e ctx)"
  unfolding keeps_limits_def
proof (intro allI)
  fix r w and s :: "app server"
  let ?x = "(rv_server e)\<lparr>sx_ready := Some (readinessChecker (rv_ready e) p)\<rparr>"
  let ?en = "server_endpoints ?x (pd_cfg p) (pd_identity p) version (fst (NewHandler urlParse (assets_config (pd_cfg p) (pd_signer p))))
     (Some (guarded (pd_cfg p) (rescanHandler (rv_scan e) (assets_root (pd_cfg p)) (rv_scanNow e) (rv_scanFaults e))))
     (Some (guarded (pd_cfg p) (announceHandler (announce_deps e p) (rv_body e) (rv_announceNow e) (pd_identity p) (pd_cfg p))))"
  have plain: "keeps_limits (metrics_endpoint ex)" "keeps_limits (DocsHandler pth)" "keeps_limits (OpenAPIYAMLHandler y)" "keeps_limits (OpenAPIJSONHandler sp)"
    "keeps_limits (health_endpoint x cfg i v)" "keeps_limits (ReadyHandler enc c)" for ex pth y sp x cfg i v enc c
    by (rule keeps_limits_returning; auto simp: metrics_endpoint_def DocsHandler_def OpenAPIYAMLHandler_def OpenAPIJSONHandler_def
        health_endpoint_def Health_Handler_def ReadyHandler_def serve_text_def split: sum.split prod.split)+
  have "keeps_limits (assets_endpoint ?x cfg h)" for cfg h using assms by (intro keeps_limits_assets) simp
  then have "keeps_limits (pa_handler q)" if "q \<in> set (mux_patterns (pd_cfg p) ?en)" for q
    using mux_patterns_handlers [OF that] plain keeps_limits_api by (auto simp: server_endpoints_def dest!: sym [where s = "on_api g" for g])
  then have "limits_kept (sr_app s) (sr_app (snd (state_of (mux_serve (sx_escaped ?x) (sx_redirect ?x) (mux_patterns (pd_cfg p) ?en) r w s))))"
    using mux_serve_cases [of "sx_escaped ?x" "sx_redirect ?x" "mux_patterns (pd_cfg p) ?en" r w s] by (auto simp: keeps_limits_def)
  then show "limits_kept (sr_app s) (sr_app (snd (state_of (provider_mux urlParse version p e ctx r w s))))"
    by (simp add: provider_mux_def server_mux_def Let_def)
qed

context inner_handler
begin

lemma metrics_survive: "sr_metrics (snd (state_of (server_chain e mux ctx r w s))) = None \<longleftrightarrow> sr_metrics s = None"
proof -
  let ?s = "s\<lparr>sr_metrics := IncInFlight (routeLabel (req_path r)) (sr_metrics s)\<rparr>"
  let ?n = "AccessLog (ce_latency e) (Recover (OpenAPIValidation (ce_openapi e) (RequestID (ce_uuid e) mux)))"
  have none: "IncInFlight route m = None \<longleftrightarrow> m = None" "IncInFlight_done route m = None \<longleftrightarrow> m = None"
    "ObserveHTTPRequest a b c d f m = None \<longleftrightarrow> m = None" for route m a b c d f
    by (cases m; simp add: IncInFlight_def IncInFlight_done_def ObserveHTTPRequest_def)+
  note kept = logged_kept [of "[]" "ce_latency e" "ce_openapi e" "ce_uuid e" ctx r "w\<lparr>wr_fields := None\<rparr>" ?s]
  show ?thesis
    unfolding server_chain_unfold HTTPMetrics_def Let_def
    using kept by (cases "?n ctx r (w\<lparr>wr_fields := None\<rparr>) ?s") (auto simp: none split: prod.splits)
qed

end

lemma request_keeps:
  assumes "sx_fl (rv_server e) = fl64" "ae_fk (rv_announce e) = fk" "s' = snd (state_of (provider_server urlParse version p e r w s))"
  shows "http_inflight q (sr_metrics s') = http_inflight q (sr_metrics s)" "sr_metrics s' = None \<longleftrightarrow> sr_metrics s = None"
    "pv_sem (sr_app s') = pv_sem (sr_app s)" "limits_kept (sr_app s) (sr_app s')" "(db_step fk)\<^sup>*\<^sup>* (pv_db (sr_app s)) (pv_db (sr_app s'))"
proof -
  let ?c = "sx_chain (rv_server e)" and ?mux = "provider_mux urlParse version p e"
  let ?in = "s\<lparr>sr_metrics := IncInFlight (routeLabel (req_path r)) (sr_metrics s)\<rparr>"
  let ?i = "snd (state_of (inner_run ?c ?mux r w s))"
  have s': "s' = snd (state_of (server_chain ?c ?mux None r w s))" using assms(3) by (simp add: provider_server_chain)
  show "http_inflight q (sr_metrics s') = http_inflight q (sr_metrics s)" unfolding s' by (rule provider.gauge_balanced)
  show "sr_metrics s' = None \<longleftrightarrow> sr_metrics s = None" unfolding s' by (rule provider.metrics_survive)
  have k: "keeps fk ?in ?i" "limits_kept (sr_app ?in) (sr_app ?i)"
    using provider_mux_well_behaved [of e urlParse version p] provider_mux_limits [OF assms(1)] assms(2)
    unfolding inner_run_def well_behaved_def keeps_limits_def by blast+
  have app: "sr_app s' \<in> {sr_app s, sr_app ?i}" unfolding s' by (rule chain_app)
  then show "pv_sem (sr_app s') = pv_sem (sr_app s)" "(db_step fk)\<^sup>*\<^sup>* (pv_db (sr_app s)) (pv_db (sr_app s'))"
    using k(1) by (auto simp: keeps_def)
  show "limits_kept (sr_app s) (sr_app s')" using app k(2) by auto
qed

subsection \<open>Start and step\<close>

lemma count_gauges_quiet: "quiet m (count_gauges fa fm db m)"
  using quiet_ops(5,6) quiet_chain(6) [OF quiet_ops(5)] by (auto simp: count_gauges_def Let_def split: sum.split)

lemma start_catalog_quiet: "quiet m (snd (snd (start_catalog up net us el cfg i m)))"
proof -
  have "quiet m (snd (EnsureProvider net us el c i cfg m))" for c
    by (auto simp: EnsureProvider_def quiet_ops Let_def split: sum.split)
  then have "EnsureProvider net us el c i cfg m = (r, m') \<Longrightarrow> quiet m m'" for c r m' by (metis snd_conv)
  then show ?thesis by (auto simp: start_catalog_def Let_def split: sum.split prod.split)
qed

lemma startup_scan_keeps:
  assumes "startup_scan x cfg m = Ok (db, m')"
  shows "quiet m m'" "(db_step fk)\<^sup>*\<^sup>* (xm_db x) db"
proof -
  obtain res db1 m1 where run: "RunRescan (xm_scan x) (assets_root cfg) (xm_scanNow x) (xm_scanFaults x) (xm_db x) m = (res, db1, m1)" by (metis prod_cases3)
  have q: "quiet m m1" using RunRescan_metrics [of "xm_scan x" "assets_root cfg" "xm_scanNow x" "xm_scanFaults x" "xm_db x" m] run quiet_ops(1) by force
  have d: "(db_step fk)\<^sup>*\<^sup>* (xm_db x) db1"
    using rescan_steps [of fk "xm_db x" "xm_scan x" "assets_root cfg" "xm_scanNow x" "xm_scanFaults x" m] run
    by (auto simp: RunRescan_job split: prod.splits sum.splits)
  show "quiet m m'" "(db_step fk)\<^sup>*\<^sup>* (xm_db x) db"
    using assms q d quiet_chain(5) [OF q] quiet_chain(6) [OF quiet_chain(5) [OF q]]
    by (auto simp: startup_scan_def run Let_def split: if_splits sum.splits)
qed

lemma started_parts:
  assumes "main_start x = Started p"
  shows "quiet (Some []) (pd_metrics p)" "(db_step fk)\<^sup>*\<^sup>* (xm_db x) (pd_db p)"
proof -
  obtain i m1 client health m2 where sc: "startup_scan x (pd_cfg p) (SetDeferredAnnounces 0 (Some [])) = Ok (pd_db p, m1)"
    and cat: "start_catalog (ce_urlParse (xm_config x)) (xm_net x) (xm_urlString x) (xm_elapsed x) (pd_cfg p) i m1 = (client, health, m2)"
    and m: "pd_metrics p \<in> {m2, count_gauges (xm_active x) (xm_missing x) (pd_db p) m2}"
    using assms by (fastforce simp: main_start_def Let_def split: option.splits sum.splits prod.splits if_splits)
  show "(db_step fk)\<^sup>*\<^sup>* (xm_db x) (pd_db p)" using startup_scan_keeps(2) [OF sc] .
  have "quiet m1 m2" using start_catalog_quiet [where m = m1] cat by (metis snd_conv)
  then have "quiet (Some []) m2" using quiet_trans [OF quiet_trans [OF quiet_ops(7) startup_scan_keeps(1) [OF sc]]] by blast
  then show "quiet (Some []) (pd_metrics p)" using m quiet_trans [OF _ count_gauges_quiet] by auto
qed

lemma booted_inv:
  assumes "main_start x = Started p" "db_good fk (xm_db x)"
  shows "system_inv p fk (booted p)"
proof -
  have "db_good fk (pd_db p)" using db_steps_good [OF started_parts(2) [OF assms(1)] assms(2)] by blast
  moreover have "pd_metrics p \<noteq> None" "http_inflight q (pd_metrics p) = 0" for q
    using started_parts(1) [OF assms(1)] by (simp_all add: quiet_def http_inflight_def)
  moreover have "limiter_inv fl64 (newLimiter fl64 rps b)" for rps b by (rule f64.newLimiter_inv) simp
  ultimately show ?thesis
    by (simp add: system_inv_def booted_def provider_state_def initial_app_def NewStatus_def newLimiter_def NewBackoffStateFromConfig_def
        NewBackoffState_inv Let_def)
qed

lemma system_step_inv:
  assumes "system_step urlParse version p fk s s'" "system_inv p fk s"
  shows "system_inv p fk s'"
  using assms(1)
proof cases
  case (request e r w)
  note k = request_keeps [OF request(3,2) refl, where urlParse = urlParse and version = version and p = p and r = r and w = w and s = "sy_server s"]
  have "db_good fk (pv_db (sr_app (sy_server s)))" using assms(2) by (simp add: system_inv_def Let_def)
  note db = db_steps_good [OF k(5) this]
  show ?thesis
    using assms(2) k(1-4) db keeps_assets_trans unfolding system_inv_def request(1) by (auto simp: Let_def limits_kept_def)
next
  case (job j clk net us el)
  let ?r = "runner_on p clk (NewCatalogAnnouncer net us el (pd_client p)) s"
  have inv: "backoff_inv (rn_backoff ?r)" "db_good fk (rn_db ?r)" using assms(2) by (simp_all add: system_inv_def runner_on_def Let_def)
  have "rn_announcer ?r = NewCatalogAnnouncer net us el (pd_client p)" by (simp add: runner_on_def)
  note k = job_keeps [OF this inv(1) job(3)]
  note db = db_steps_good [OF k [THEN conjunct2, THEN conjunct2, THEN conjunct2, THEN conjunct2] inv(2)]
  have same: "rn_db ?r = pv_db (sr_app (sy_server s))" "rn_metrics ?r = sr_metrics (sy_server s)" "rn_backoff ?r = sy_backoff s"
    "rn_status ?r = pv_jobs (sr_app (sy_server s))" by (simp_all add: runner_on_def)
  show ?thesis
    using assms(2) k db keeps_assets_trans unfolding system_inv_def job(1) same by (auto simp: Let_def after_job_def quiet_def)
qed

section \<open>A concrete environment of a request\<close>

definition demo_request_env :: request_env where
  "demo_request_env = \<lparr>rv_server = demo_server_env, rv_ready = \<lparr>rd_ping = True, rd_stat = Some True, rd_tree = Err NotExist\<rparr>,
     rv_scan = demo_scan, rv_scanNow = 0, rv_scanFaults = no_rescan_faults, rv_announce = demo_announce_env, rv_body = NoBody,
     rv_announceNow = 0, rv_net = (\<lambda>_. Err ''down''), rv_urlString = url_path, rv_elapsed = 0\<rparr>"

end
