(* ===== verification/Published.thy ===== *)
theory Published
  imports Scanner Assets_Handler
begin

text \<open>
  What the scanner publishes against what the handler serves. Both look at the same directories through different system calls:
  \<open>same_disk\<close> says that a snapshot of the file system shows what the scan was shown, and the theory composes \<open>scanner.go\<close> with the local
  branch of \<open>handler.go\<close> over such snapshots.
\<close>

section \<open>One disk, two readers\<close>

text \<open>Below the directory \<open>d\<close>: the entries of the listing are there with the type and the information of the listing, regular ones can be
  opened, and there is nothing else. Only a directory, or a link to one, can be listed.\<close>

definition same_disk :: "scan_env \<Rightarrow> string \<Rightarrow> fs \<Rightarrow> bool" where
  "same_disk env d fs \<longleftrightarrow> fs_lstat fs d = se_lstat env d \<and>
     (\<forall>es i. se_readDir env d = Ok es \<longrightarrow> fs_lstat fs d = Ok i \<longrightarrow> fi_mode i \<in> {Directory, Symlink}) \<and>
     (\<forall>es. se_readDir env d = Ok es \<longrightarrow>
        (\<forall>e \<in> set es. \<exists>i. fs_lstat fs (Join [d, de_name e]) = Ok i \<and> fi_mode i = de_type e \<and> (\<forall>i'. de_info e = Ok i' \<longrightarrow> i' = i) \<and>
           (de_type e = Regular \<longrightarrow> (\<exists>f. fs_open fs (Join [d, de_name e]) = Ok f \<and> fl_stat f = Ok i))) \<and>
        (\<forall>n. plain_name n \<longrightarrow> n \<notin> de_name ` set es \<longrightarrow> fs_lstat fs (Join [d, n]) = Err NotExist))"

lemma same_disk_present:
  assumes "same_disk env d fs" "se_readDir env d = Ok es" "e \<in> set es"
  shows "\<exists>i. fs_lstat fs (Join [d, de_name e]) = Ok i \<and> fi_mode i = de_type e \<and> (\<forall>i'. de_info e = Ok i' \<longrightarrow> i' = i) \<and>
    (de_type e = Regular \<longrightarrow> (\<exists>f. fs_open fs (Join [d, de_name e]) = Ok f \<and> fl_stat f = Ok i))"
  using assms unfolding same_disk_def by blast

lemma same_disk_absent:
  "same_disk env d fs \<Longrightarrow> se_readDir env d = Ok es \<Longrightarrow> plain_name n \<Longrightarrow> n \<notin> de_name ` set es \<Longrightarrow> fs_lstat fs (Join [d, n]) = Err NotExist"
  unfolding same_disk_def by blast

section \<open>What a published asset tells\<close>

lemma scanAssetDir_fields:
  "scanAssetDir env assetsRoot a = Ok (Some x) \<Longrightarrow> as_AssetID x = a \<and> as_MasterPlaylistPath x = Join [a, ''master.m3u8'']"
  by (auto simp: scanAssetDir_def Let_def split: sum.splits if_splits option.splits)

lemma scan_root_member:
  "scan_root env assetsRoot es acc = Ok xs \<Longrightarrow> x \<in> set xs \<Longrightarrow> x \<notin> set acc \<Longrightarrow>
     \<exists>e \<in> set es. de_type e = Directory \<and> assetIDRegex (de_name e) \<and> scanAssetDir env assetsRoot (de_name e) = Ok (Some x)"
  by (induction es arbitrary: acc) (fastforce split: if_splits sum.splits option.splits)+

lemma scanned_asset:
  assumes "Scan env assetsRoot m = (Ok res, m')" "x \<in> set (sr_Assets res)"
  shows "assetIDRegex (as_AssetID x)" "scanAssetDir env assetsRoot (as_AssetID x) = Ok (Some x)"
    "as_MasterPlaylistPath x = Join [as_AssetID x, ''master.m3u8'']" "publishable env assetsRoot (as_AssetID x)"
proof -
  obtain es xs where xs: "scan_root env assetsRoot es [] = Ok xs" "set (sr_Assets res) = set xs"
    using assms(1) by (auto simp: Scan_def Let_def split: option.splits sum.splits)
  obtain e :: dir_entry where e: "assetIDRegex (de_name e)" "scanAssetDir env assetsRoot (de_name e) = Ok (Some x)"
    using scan_root_member [OF xs(1), of x] assms(2) xs(2) by auto
  then show "assetIDRegex (as_AssetID x)" "scanAssetDir env assetsRoot (as_AssetID x) = Ok (Some x)"
    "as_MasterPlaylistPath x = Join [as_AssetID x, ''master.m3u8'']" "publishable env assetsRoot (as_AssetID x)"
    using scanAssetDir_fields [OF e(2)] scanAssetDir_Some [OF e(2)] by simp_all
qed

text \<open>Every file that was counted was read without error; the directory is a real one when the listing worked.\<close>

lemma scan_entries_info:
  "scan_entries a es acc = Ok (Some acc') \<Longrightarrow> e \<in> set es \<Longrightarrow> media e \<Longrightarrow> \<exists>i. de_info e = Ok i"
  by (induction es arbitrary: acc) (fastforce simp: Let_def media_def split: if_splits sum.splits)+

lemma scanned_directory:
  assumes "scanAssetDir env assetsRoot a = Ok (Some x)"
  obtains info es where "se_lstat env (Join [assetsRoot, a]) = Ok info" "fi_mode info \<noteq> Symlink" "se_readDir env (Join [assetsRoot, a]) = Ok es"
    "\<And>e. e \<in> set es \<Longrightarrow> de_type e \<noteq> Symlink" "\<And>e. e \<in> set es \<Longrightarrow> media e \<Longrightarrow> \<exists>i. de_info e = Ok i"
  using assms scan_entries_info scan_entries_Some
  by (fastforce simp: scanAssetDir_def IsSymlink_def Let_def split: sum.splits if_splits option.splits)

section \<open>Opening\<close>

lemma plain_Join: "plain_name a \<Longrightarrow> plain_name f \<Longrightarrow> Join [a, f] = a @ CHR ''/'' # f"
proof -
  assume p: "plain_name a" "plain_name f"
  have "Clean a = a" using p(1) path_elems_plain [OF p(1)] by (cases a) (auto simp: Clean_def render_def IsAbs_def plain_name_def HasPrefix_def)
  then show ?thesis using Join2_Join2 [OF p, of "[]"] by (simp add: Join2 [OF p(1)])
qed

lemma open_present:
  assumes "plain_name n" "CHR 0x5C \<notin> set n"
    and "fs_lstat fs0 d = Ok info" "fi_mode info = Directory"
    and "fs_lstat fs1 (Join [d, n]) = Ok i" "fi_mode i = Regular" "fs_open fs2 (Join [d, n]) = Ok f" "fl_stat f = Ok i'"
    and "fi_mode i' = Regular" "fi_id i = fi_id i'"
  shows "OpenFileNoSymlinks fs0 fs1 fs2 d n = Ok (f, i')"
  using assms by (simp add: OpenFileNoSymlinks_def IsSymlink_def SameFile_def Base_plain plain_name_def Let_def)

lemma open_absent:
  assumes "plain_name n" "CHR 0x5C \<notin> set n" "fs_lstat fs0 d = Ok info" "fi_mode info = Directory" "fs_lstat fs1 (Join [d, n]) = Err e"
  shows "OpenFileNoSymlinks fs0 fs1 fs2 d n = Err (OsErr e)"
  using assms by (simp add: OpenFileNoSymlinks_def IsSymlink_def SameFile_def Base_plain plain_name_def Let_def)

lemma open_irregular:
  assumes "plain_name n" "CHR 0x5C \<notin> set n" "fs_lstat fs0 d = Ok info" "fi_mode info = Directory"
    and "fs_lstat fs1 (Join [d, n]) = Ok i" "fi_mode i \<noteq> Regular"
  shows "OpenFileNoSymlinks fs0 fs1 fs2 d n \<in> {Err ErrSymlink, Err ErrNotRegular}"
  using assms by (simp add: OpenFileNoSymlinks_def IsSymlink_def SameFile_def Base_plain plain_name_def Let_def)

section \<open>Serving\<close>

text \<open>The answer of the handler in filesystem mode, and in hybrid mode when the file is there.\<close>

lemma request_for:
  assumes "assetIDRegex a" "filenameRegex n" "\<not> Contains n ''..''" "validateExtension n = Ok ext" "req_path r = ''/assets/'' @ a @ ''/'' @ n"
  shows "parseRequest (Some wd) assetsRoot (req_path r) =
    Ok \<lparr>rq_assetID = a, rq_filename = n, rq_ext = ext, rq_root = Join [assetsRoot, a], rq_target = Join [Join [assetsRoot, a], n]\<rparr>"
proof -
  have v: "validateFilename n = Ok ()" using assms(2,3) by (simp add: validateFilename_ok)
  then have "ensureWithinRoot (Some wd) (Join [assetsRoot, a]) (Join [Join [assetsRoot, a], n]) = Ok ()"
    using ensureWithinRoot_valid(1) [OF assetID_plain [OF assms(1)] validateFilename_plain [OF v assms(4)]] Abs_with_cwd by blast
  then show ?thesis using assms v by (auto simp: parseRequest_Ok_iff)
qed

lemma served_locally:
  assumes "req_method r \<in> {''GET'', ''HEAD''}" "parseRequest (wd_getwd w) (hc_AssetsRoot (hd_cfg h)) (req_path r) = Ok req"
    and "hd_mode h \<noteq> ''proxy''" "TryServeLocal w h (setAccessLogField (sv_writer st) ''mode'' (FStr (hd_mode h))) r req = (True, status, err, w')"
  shows "serveHTTP w h r st = Returned (st\<lparr>sv_writer := w'\<rparr>)"
  using assms by (auto simp: serveHTTP_def Let_def)

lemma refused_locally:
  assumes "req_method r \<in> {''GET'', ''HEAD''}" "parseRequest (wd_getwd w) (hc_AssetsRoot (hd_cfg h)) (req_path r) = Ok req"
    and "hd_mode h = ''filesystem''"
    and "OpenFileNoSymlinks (wd_fs0 w) (wd_fs1 w) (wd_fs2 w) (rq_root req) (rq_filename req) \<in> {Err (OsErr NotExist), Err ErrSymlink, Err ErrNotRegular}"
  shows "serveHTTP w h r st = Returned (st\<lparr>sv_writer := writeErrorStatus (setAccessLogField (sv_writer st) ''mode'' (FStr (hd_mode h))) 404\<rparr>)"
  using assms by (auto simp: serveHTTP_def TryServeLocal_def Let_def)

lemma open_listed:
  assumes "same_disk env d fs0" "same_disk env d fs1" "same_disk env d fs2"
    and "se_readDir env d = Ok es" "se_lstat env d = Ok info" "fi_mode info \<noteq> Symlink" "e \<in> set es" "de_type e = Regular"
    and "plain_name (de_name e)" "CHR 0x5C \<notin> set (de_name e)" "de_info e = Ok i"
  shows "\<exists>f. fs_open fs2 (Join [d, de_name e]) = Ok f \<and> fl_stat f = Ok i \<and> OpenFileNoSymlinks fs0 fs1 fs2 d (de_name e) = Ok (f, i)"
proof -
  have dir: "fs_lstat fs0 d = Ok info" "fi_mode info = Directory" using assms(1,4-6) by (auto simp: same_disk_def)
  have l: "fs_lstat fs1 (Join [d, de_name e]) = Ok i" "fi_mode i = Regular" using same_disk_present [OF assms(2,4,7)] assms(8,11) by auto
  obtain f where f: "fs_open fs2 (Join [d, de_name e]) = Ok f" "fl_stat f = Ok i" using same_disk_present [OF assms(3,4,7)] assms(8,11) by auto
  show ?thesis using open_present [OF assms(9,10) dir l f l(2) refl] f by blast
qed

text \<open>A name that is no regular entry of the listing cannot be opened.\<close>

lemma open_unlisted:
  assumes "same_disk env d fs0" "same_disk env d fs1" "se_readDir env d = Ok es" "se_lstat env d = Ok info" "fi_mode info \<noteq> Symlink"
    and "\<not> (\<exists>e \<in> set es. de_name e = n \<and> de_type e = Regular)" "plain_name n" "CHR 0x5C \<notin> set n"
  shows "OpenFileNoSymlinks fs0 fs1 fs2 d n \<in> {Err (OsErr NotExist), Err ErrSymlink, Err ErrNotRegular}"
proof -
  have dir: "fs_lstat fs0 d = Ok info" "fi_mode info = Directory" using assms(1,3-5) by (auto simp: same_disk_def)
  show ?thesis
  proof (cases "n \<in> de_name ` set es")
    case True
    then obtain e where e: "e \<in> set es" "de_name e = n" by force
    then obtain i where "fs_lstat fs1 (Join [d, n]) = Ok i" "fi_mode i \<noteq> Regular"
      using same_disk_present [OF assms(2,3) e(1)] assms(6) by metis
    from open_irregular [OF assms(7,8) dir this] show ?thesis by blast
  next
    case False
    from open_absent [OF assms(7,8) dir same_disk_absent [OF assms(2,3,7) this]] show ?thesis by simp
  qed
qed

section \<open>Properties\<close>

text \<open>What is published is served: while the disk is as the scanner saw it, a GET or HEAD for any counted regular file of a published asset,
  with a name the patterns allow and within the size limit, is answered from that file outside proxy mode, in hybrid mode without asking the
  origin.\<close>

theorem published_is_served:
  assumes "Scan env assetsRoot m = (Ok res, m')" "x \<in> set (sr_Assets res)"
    and "d = Join [assetsRoot, as_AssetID x]" "same_disk env d (wd_fs0 w)" "same_disk env d (wd_fs1 w)" "same_disk env d (wd_fs2 w)"
    and "se_readDir env d = Ok es" "e \<in> set es" "media e" "de_type e = Regular" "filenameRegex (de_name e)" "\<not> Contains (de_name e) ''..''"
    and "hd_mode h \<noteq> ''proxy''" "hc_AssetsRoot (hd_cfg h) = assetsRoot" "wd_getwd w = Some wd"
    and "req_method r \<in> {''GET'', ''HEAD''}" "req_path r = ''/assets/'' @ as_AssetID x @ ''/'' @ de_name e"
  shows "\<exists>i. de_info e = Ok i \<and> (fi_size i \<le> hc_MaxSegmentBytes (hd_cfg h) \<longrightarrow>
    (\<exists>f ext. fs_open (wd_fs2 w) (Join [d, de_name e]) = Ok f \<and> fl_stat f = Ok i \<and> validateExtension (de_name e) = Ok ext \<and>
       serveHTTP w h r st = Returned (st\<lparr>sv_writer := wd_serveContent w
         (setContentHeaders (setAccessLogField (sv_writer st) ''mode'' (FStr (hd_mode h))) ext) r (de_name e) (fi_modtime i) f\<rparr>)))"
proof -
  note sc = scanned_asset [OF assms(1,2)]
  obtain info where dir: "se_lstat env d = Ok info" "fi_mode info \<noteq> Symlink" and i: "\<exists>i. de_info e = Ok i"
    using scanned_directory [OF sc(2)] assms(3,7-9) by (metis sum.inject(2))
  then obtain i where i: "de_info e = Ok i" by blast
  have names: "de_name e \<noteq> []" "CHR ''/'' \<notin> set (de_name e)" "CHR 0x5C \<notin> set (de_name e)"
    using assms(11) filename_regex_no_slash by (auto simp: filenameRegex_def)
  obtain ext where ext: "validateExtension (de_name e) = Ok ext"
    using scanner_handler_agree [OF names(1,2)] assms(9) by (auto simp: media_def is_ok_iff)
  have pl: "plain_name (de_name e)" using validateFilename_plain [OF _ ext] assms(11,12) by (simp add: validateFilename_ok)
  obtain f where f: "fs_open (wd_fs2 w) (Join [d, de_name e]) = Ok f" "fl_stat f = Ok i"
    "OpenFileNoSymlinks (wd_fs0 w) (wd_fs1 w) (wd_fs2 w) d (de_name e) = Ok (f, i)"
    using open_listed [OF assms(4-7) dir assms(8,10) pl names(3) i] by blast
  note req = request_for [OF sc(1) assms(11,12) ext assms(17), of wd assetsRoot]
  have "serveHTTP w h r st = Returned (st\<lparr>sv_writer := wd_serveContent w
      (setContentHeaders (setAccessLogField (sv_writer st) ''mode'' (FStr (hd_mode h))) ext) r (de_name e) (fi_modtime i) f\<rparr>)"
    if "fi_size i \<le> hc_MaxSegmentBytes (hd_cfg h)"
    using that f assms(3) Base_plain [OF names(1,2)]
    by (intro served_locally [OF assms(16) req [folded assms(14,15)] assms(13)]) (simp add: TryServeLocal_def assms(14))
  then show ?thesis using i f ext by blast
qed

text \<open>C21. In filesystem mode, and while the disk is as it was scanned, the recorded playlist path of a published asset is served exactly when the
  directory has a regular file named \<open>master.m3u8\<close> in this spelling, and answers 404 otherwise. The scanner accepts the name in any case, so an asset with \<open>MASTER.M3U8\<close> only is recorded, announced, and its playlist answers 404.\<close>

theorem master_playlist_served:
  assumes "Scan env assetsRoot m = (Ok res, m')" "x \<in> set (sr_Assets res)"
    and "d = Join [assetsRoot, as_AssetID x]" "same_disk env d (wd_fs0 w)" "same_disk env d (wd_fs1 w)" "same_disk env d (wd_fs2 w)"
    and "se_readDir env d = Ok es"
    and "hd_mode h = ''filesystem''" "hc_AssetsRoot (hd_cfg h) = assetsRoot" "wd_getwd w = Some wd"
    and "req_method r \<in> {''GET'', ''HEAD''}" "req_path r = ''/assets/'' @ as_MasterPlaylistPath x"
  shows "if \<exists>e \<in> set es. de_name e = ''master.m3u8'' \<and> de_type e = Regular
    then \<exists>f i. fs_open (wd_fs2 w) (Join [d, ''master.m3u8'']) = Ok f \<and> fl_stat f = Ok i \<and>
      serveHTTP w h r st = Returned (st\<lparr>sv_writer := wd_serveContent w
        (setContentHeaders (setAccessLogField (sv_writer st) ''mode'' (FStr ''filesystem'')) ''.m3u8'') r ''master.m3u8'' (fi_modtime i) f\<rparr>)
    else serveHTTP w h r st = Returned (st\<lparr>sv_writer := writeErrorStatus (setAccessLogField (sv_writer st) ''mode'' (FStr ''filesystem'')) 404\<rparr>)"
proof -
  note sc = scanned_asset [OF assms(1,2)]
  have n: "filenameRegex ''master.m3u8''" "\<not> Contains ''master.m3u8'' ''..''" "validateExtension ''master.m3u8'' = Ok ''.m3u8''"
    "plain_name ''master.m3u8''" "CHR 0x5C \<notin> set ''master.m3u8''" "Base ''master.m3u8'' = ''master.m3u8''"
    "isAllowedFile ''master.m3u8'' (ToLower (Ext ''master.m3u8''))" by code_simp+
  have path: "req_path r = ''/assets/'' @ as_AssetID x @ ''/'' @ ''master.m3u8''"
    using assms(12) plain_Join [OF assetID_plain [OF sc(1)] n(4)] sc(3) by simp
  note req = request_for [OF sc(1) n(1-3) path, of wd assetsRoot, folded assms(9,10)]
  obtain info where dir: "se_lstat env d = Ok info" "fi_mode info \<noteq> Symlink" and counted: "\<And>e. e \<in> set es \<Longrightarrow> media e \<Longrightarrow> \<exists>i. de_info e = Ok i"
    using scanned_directory [OF sc(2)] assms(3,7) by (metis sum.inject(2))
  show ?thesis
  proof (cases "\<exists>e \<in> set es. de_name e = ''master.m3u8'' \<and> de_type e = Regular")
    case True
    then obtain e where e: "e \<in> set es" "de_name e = ''master.m3u8''" "de_type e = Regular" by blast
    then obtain i where i: "de_info e = Ok i" using counted [of e] n(7) by (auto simp: media_def simp del: ToLower.simps)
    obtain f where f: "fs_open (wd_fs2 w) (Join [d, ''master.m3u8'']) = Ok f" "fl_stat f = Ok i"
      "OpenFileNoSymlinks (wd_fs0 w) (wd_fs1 w) (wd_fs2 w) d ''master.m3u8'' = Ok (f, i)"
      using open_listed [OF assms(4-7) dir e(1,3) _ _ i] n(4,5) e(2) by (metis (lifting))
    have "serveHTTP w h r st = Returned (st\<lparr>sv_writer := wd_serveContent w
        (setContentHeaders (setAccessLogField (sv_writer st) ''mode'' (FStr ''filesystem'')) ''.m3u8'') r ''master.m3u8'' (fi_modtime i) f\<rparr>)"
      using f(3) assms(3,8,9) n(6) by (intro served_locally [OF assms(11) req]) (simp_all add: TryServeLocal_def isSegmentLike_def)
    then show ?thesis using True f by auto
  next
    case False
    have "OpenFileNoSymlinks (wd_fs0 w) (wd_fs1 w) (wd_fs2 w) d ''master.m3u8'' \<in> {Err (OsErr NotExist), Err ErrSymlink, Err ErrNotRegular}"
      using open_unlisted [OF assms(4,5,7) dir False n(4,5)] .
    then have "serveHTTP w h r st = Returned (st\<lparr>sv_writer := writeErrorStatus (setAccessLogField (sv_writer st) ''mode'' (FStr (hd_mode h))) 404\<rparr>)"
      using assms(3,9) by (intro refused_locally [OF assms(11) req assms(8)]) simp
    then show ?thesis unfolding if_not_P [OF False] by (simp only: assms(8))
  qed
qed

section \<open>A concrete disk\<close>

text \<open>The asset directory \<open>/d/a1\<close> with some regular files, as the scanner lists it and as the handler finds it.\<close>

definition demo_listing :: "string list \<Rightarrow> scan_env" where
  "demo_listing names = demo_scan\<lparr>se_root := Ok [\<lparr>de_name = ''a1'', de_type = Directory, de_info = Err NotExist\<rparr>],
     se_readDir := \<lambda>p. Ok (map demo_entry names)\<rparr>"

definition demo_disk :: "string list \<Rightarrow> fs" where
  "demo_disk names =
     \<lparr>fs_lstat = (\<lambda>p. if p = ''/d/a1'' then Ok (demo_info\<lparr>fi_mode := Directory\<rparr>)
                     else if p \<in> set (map ((@) ''/d/a1/'') names) then Ok demo_info else Err NotExist),
      fs_open = (\<lambda>p. if p \<in> set (map ((@) ''/d/a1/'') names) then Ok \<lparr>fl_stat = Ok demo_info, fl_content = ''abc''\<rparr> else Err NotExist)\<rparr>"

lemma demo_same_disk:
  assumes "list_all plain_name names"
  shows "same_disk (demo_listing names) ''/d/a1'' (demo_disk names)"
proof -
  have "Join [''/d'', ''a1''] = ''/d/a1''" "plain_name ''a1''" by code_simp+
  then have j: "Join [''/d/a1'', n] = ''/d/a1/'' @ n" if "plain_name n" for n using Join2_Join2 [of "''a1''" n "''/d''"] that by simp
  have l: "se_lstat (demo_listing names) = (\<lambda>p. Ok (demo_info\<lparr>fi_mode := Directory\<rparr>))" by (simp add: demo_listing_def demo_scan_def)
  show ?thesis
    using assms unfolding same_disk_def list_all_iff l
    by (auto simp: demo_listing_def demo_disk_def demo_entry_def demo_info_def j image_image)
qed

definition demo_disk_world :: "string list \<Rightarrow> world" where
  "demo_disk_world names = demo_world\<lparr>wd_fs0 := demo_disk names, wd_fs1 := demo_disk names, wd_fs2 := demo_disk names\<rparr>"

lemma demo_listing_scan:
  assumes "list_all (\<lambda>n. isAllowedFile n (ToLower (Ext n))) names" "list_ex (\<lambda>n. EqualFold n ''master.m3u8'') names" "''s.ts'' \<in> set names"
  shows "\<exists>res x. Scan (demo_listing names) ''/d'' None = (Ok res, None) \<and> sr_Assets res = [x] \<and> as_AssetID x = ''a1'' \<and>
    as_MasterPlaylistPath x = ''a1/master.m3u8''"
proof -
  have c: "Join [''/d'', ''a1''] = ''/d/a1''" "Join [''a1'', ''master.m3u8''] = ''a1/master.m3u8''" "assetIDRegex ''a1''" by code_simp+
  have ts: "ToLower (Ext ''s.ts'') = ''.ts''" by code_simp
  have m: "media (demo_entry n) \<longleftrightarrow> isAllowedFile n (ToLower (Ext n))" for n by (simp add: media_def demo_entry_def)
  have "\<exists>acc'. scan_entries ''a1'' (map demo_entry names) acc = Ok (Some acc')" for acc
    using assms(1) by (induction names arbitrary: acc) (simp_all add: demo_entry_def Let_def)
  then obtain acc' where acc: "scan_entries ''a1'' (map demo_entry names) \<lparr>da_hasMaster = False, da_hasPlayable = False, da_files = [], da_totalSize = 0\<rparr> = Ok (Some acc')"
    by blast
  have "playable (demo_entry ''s.ts'')" by (simp only: playable_def demo_entry_def dir_entry.simps ts) simp
  then have "da_hasMaster acc'" "da_hasPlayable acc'"
    using scan_entries_Some [OF acc] assms m by (auto simp: list_ex_iff list_all_iff demo_entry_def)
  then show ?thesis using acc c by (simp add: Scan_def demo_listing_def demo_scan_def scanAssetDir_def demo_info_def IsSymlink_def ObserveScan_def Let_def)
qed

theorem published_is_served_witness:
  "\<exists>w'. serveHTTP (demo_disk_world [''master.m3u8'', ''s.ts'']) demo_handler demo_local_get demo_state = Returned (demo_state\<lparr>sv_writer := w'\<rparr>) \<and>
     wr_body w' = ''abc''"
proof -
  let ?names = "[''master.m3u8'', ''s.ts'']"
  have n: "list_all (\<lambda>n. isAllowedFile n (ToLower (Ext n))) ?names" "list_ex (\<lambda>n. EqualFold n ''master.m3u8'') ?names" "list_all plain_name ?names"
    "isAllowedFile ''s.ts'' (ToLower (Ext ''s.ts''))" "filenameRegex ''s.ts''" "\<not> Contains ''s.ts'' ''..''" "Join [''/d'', ''a1''] = ''/d/a1''"
    "plain_name ''s.ts''" by code_simp+
  obtain res x where sc: "Scan (demo_listing ?names) ''/d'' None = (Ok res, None)" "x \<in> set (sr_Assets res)" "as_AssetID x = ''a1''"
    using demo_listing_scan [OF n(1,2)] by (metis list.set_intros)
  have dirs: "''/d/a1'' = Join [''/d'', as_AssetID x]" using sc(3) n(7) by simp
  have disk: "same_disk (demo_listing ?names) ''/d/a1'' (wd_fs0 (demo_disk_world ?names))" "same_disk (demo_listing ?names) ''/d/a1'' (wd_fs1 (demo_disk_world ?names))"
    "same_disk (demo_listing ?names) ''/d/a1'' (wd_fs2 (demo_disk_world ?names))"
    using demo_same_disk [OF n(3)] by (simp_all add: demo_disk_world_def)
  have rd: "se_readDir (demo_listing ?names) ''/d/a1'' = Ok (map demo_entry ?names)" by (simp add: demo_listing_def)
  have mem: "demo_entry ''s.ts'' \<in> set (map demo_entry ?names)" by simp
  have e: "media (demo_entry ''s.ts'')" "de_type (demo_entry ''s.ts'') = Regular" "filenameRegex (de_name (demo_entry ''s.ts''))"
    "\<not> Contains (de_name (demo_entry ''s.ts'')) ''..''"
    using n(4-6) by (simp_all add: media_def demo_entry_def del: ToLower.simps)
  have h: "hd_mode demo_handler \<noteq> ''proxy''" "hc_AssetsRoot (hd_cfg demo_handler) = ''/d''" "wd_getwd (demo_disk_world ?names) = Some ''/srv''"
    "req_method demo_local_get \<in> {''GET'', ''HEAD''}" "req_path demo_local_get = ''/assets/'' @ as_AssetID x @ ''/'' @ de_name (demo_entry ''s.ts'')"
    by (simp_all add: demo_handler_def demo_cfg_def demo_disk_world_def demo_world_def demo_local_get_def demo_get_def sc(3) demo_entry_def)
  have "Join [''/d/a1'', ''s.ts''] = ''/d/a1/s.ts''" by code_simp
  then have "fs_open (wd_fs2 (demo_disk_world ?names)) (Join [''/d/a1'', de_name (demo_entry ''s.ts'')]) = Ok \<lparr>fl_stat = Ok demo_info, fl_content = ''abc''\<rparr>"
    by (simp add: demo_disk_world_def demo_disk_def demo_entry_def)
  then show ?thesis
    using published_is_served [OF sc(1,2) dirs disk rd mem e h, of demo_state]
    by (auto simp: demo_entry_def demo_info_def demo_handler_def demo_cfg_def demo_disk_world_def demo_world_def demo_state_def setContentHeaders_def
        setAccessLogField_def fresh_writer_def)
qed

theorem master_playlist_served_witness:
  "\<exists>res x. Scan (demo_listing [''MASTER.M3U8'', ''s.ts'']) ''/d'' None = (Ok res, None) \<and> sr_Assets res = [x] \<and>
     as_MasterPlaylistPath x = ''a1/master.m3u8'' \<and>
     serveHTTP (demo_disk_world [''MASTER.M3U8'', ''s.ts'']) (demo_handler\<lparr>hd_mode := ''filesystem''\<rparr>)
       (demo_get\<lparr>req_path := ''/assets/a1/master.m3u8''\<rparr>) demo_state =
       Returned (demo_state\<lparr>sv_writer := writeJSONError (setAccessLogField fresh_writer ''mode'' (FStr ''filesystem'')) 404 ''not_found''\<rparr>)"
proof -
  let ?names = "[''MASTER.M3U8'', ''s.ts'']"
  have n: "list_all (\<lambda>n. isAllowedFile n (ToLower (Ext n))) ?names" "list_ex (\<lambda>n. EqualFold n ''master.m3u8'') ?names" "list_all plain_name ?names"
    "Join [''/d'', ''a1''] = ''/d/a1''" by code_simp+
  obtain res x where sc: "Scan (demo_listing ?names) ''/d'' None = (Ok res, None)" "sr_Assets res = [x]" "as_AssetID x = ''a1''"
    "as_MasterPlaylistPath x = ''a1/master.m3u8''" using demo_listing_scan [OF n(1,2)] by (metis list.set_intros)
  have mem: "x \<in> set (sr_Assets res)" using sc(2) by simp
  have dirs: "''/d/a1'' = Join [''/d'', as_AssetID x]" using sc(3) n(4) by simp
  have disk: "same_disk (demo_listing ?names) ''/d/a1'' (wd_fs0 (demo_disk_world ?names))" "same_disk (demo_listing ?names) ''/d/a1'' (wd_fs1 (demo_disk_world ?names))"
    "same_disk (demo_listing ?names) ''/d/a1'' (wd_fs2 (demo_disk_world ?names))"
    using demo_same_disk [OF n(3)] by (simp_all add: demo_disk_world_def)
  have rd: "se_readDir (demo_listing ?names) ''/d/a1'' = Ok (map demo_entry ?names)" by (simp add: demo_listing_def)
  have no: "\<not> (\<exists>e \<in> set (map demo_entry ?names). de_name e = ''master.m3u8'' \<and> de_type e = Regular)" by (simp add: demo_entry_def)
  let ?h = "demo_handler\<lparr>hd_mode := ''filesystem''\<rparr>" and ?r = "demo_get\<lparr>req_path := ''/assets/a1/master.m3u8''\<rparr>"
  have h: "hd_mode ?h = ''filesystem''" "hc_AssetsRoot (hd_cfg ?h) = ''/d''" "wd_getwd (demo_disk_world ?names) = Some ''/srv''"
    "req_method ?r \<in> {''GET'', ''HEAD''}" "req_path ?r = ''/assets/'' @ as_MasterPlaylistPath x"
    by (simp_all add: demo_handler_def demo_cfg_def demo_disk_world_def demo_world_def demo_get_def sc(4))
  show ?thesis
    using sc master_playlist_served [OF sc(1) mem dirs disk rd h, of demo_state, unfolded if_not_P [OF no]]
    by (simp add: writeErrorStatus_def demo_state_def)
qed

end
