(* ===== verification/Delivery.thy ===== *)
theory Delivery
  imports System Published
begin

text \<open>
  From the announcement to the bytes: an asset that was scanned and announced, a client that appends a file name to the announced URL, and the whole
  server, from the middleware chain through routing, rate limit and CORS to the file on disk.
\<close>

section \<open>Paths of assets\<close>

lemma name_chars:
  assumes "assetIDRegex a \<or> filenameRegex a" "c \<in> set a"
  shows "\<not> shouldEscape c" "c \<noteq> CHR ''%''"
  using assms by (auto simp: assetIDRegex_def filenameRegex_def list_all_iff asset_id_char_def shouldEscape_def unreserved_def is_alpha_def is_digit_def
      ascii_lower_def less_eq_char_def Let_def split: if_splits)

lemma path_escape_same: "(\<And>c. c \<in> set p \<Longrightarrow> \<not> shouldEscape c) \<Longrightarrow> path_escape p = p"
  by (induction p) auto

lemma asset_path_clean:
  assumes "plain_name a" "plain_name n"
  shows "Clean (''/assets/'' @ a @ ''/'' @ n) = ''/assets/'' @ a @ ''/'' @ n"
proof -
  have c: "Clean ''/assets'' = ''/assets''" "path_elems ''/assets'' = [''assets'']" by code_simp+
  have one: "Clean (''/assets'' @ CHR ''/'' # a) = ''/assets'' @ CHR ''/'' # a" using Clean_snoc_plain [of "''/assets''" a] c assms(1) by simp
  have "path_elems (''/assets'' @ CHR ''/'' # a) \<noteq> []" using path_elems_snoc_plain [of "''/assets''" a] assms(1) by simp
  then have "Clean ((''/assets'' @ CHR ''/'' # a) @ CHR ''/'' # n) = (''/assets'' @ CHR ''/'' # a) @ CHR ''/'' # n"
    using Clean_snoc_plain [of "''/assets'' @ CHR ''/'' # a" n] one assms(2) by simp
  then show ?thesis by simp
qed

section \<open>Through the server\<close>

lemma asset_path_segments:
  assumes "plain_name a" "plain_name n" "CHR ''%'' \<notin> set a" "CHR ''%'' \<notin> set n" "p = ''/assets/'' @ a @ ''/'' @ n"
  shows "cleanPath p = p" "segments p = [''assets'', a, n]" "segments (p @ ''/'') = [''assets'', a, n, []]" "List.last p \<noteq> CHR ''/''"
proof -
  have n: "n \<noteq> []" "CHR ''/'' \<notin> set n" using assms(2) by (simp_all add: plain_name_def)
  then have "List.last p = List.last n" using assms(5) by simp
  then show l: "List.last p \<noteq> CHR ''/''" using last_in_set [OF n(1)] n(2) by metis
  have "Clean p = p" "p \<noteq> []" "hd p = CHR ''/''" using asset_path_clean [OF assms(1,2)] by (simp_all only: assms(5)) simp_all
  then show "cleanPath p = p" using l by (simp add: cleanPath_def)
  have p: "p = [] @ CHR ''/'' # ''assets'' @ CHR ''/'' # a @ CHR ''/'' # n" using assms(5) by simp
  have sp: "Split a CHR ''/'' = [a]" "Split n CHR ''/'' = [n]" "Split ''assets'' CHR ''/'' = [''assets'']" "Split [] CHR ''/'' = [[]]"
    using assms(1,2) by (simp_all add: plain_name_def)
  have un: "path_unescape a = Some a" "path_unescape n = Some n" "path_unescape ''assets'' = Some ''assets''" "path_unescape [] = Some []"
    using assms(3,4) by (simp_all add: path_unescape_id)
  show "segments p = [''assets'', a, n]" unfolding segments_def p Split_append_sep sp by (simp add: un)
  have p': "p @ ''/'' = [] @ CHR ''/'' # ''assets'' @ CHR ''/'' # a @ CHR ''/'' # n @ CHR ''/'' # []" using assms(5) by simp
  show "segments (p @ ''/'') = [''assets'', a, n, []]" unfolding segments_def p' Split_append_sep sp by (simp add: un)
qed

lemma asset_routed:
  assumes "plain_name a" "plain_name n" "CHR ''%'' \<notin> set a" "CHR ''%'' \<notin> set n" "escaped r = ''/assets/'' @ a @ ''/'' @ n"
  shows "mux_serve escaped redirect (mux_patterns cfg en) r w s = en_assets en r w s"
proof -
  note p = asset_path_segments [OF assms]
  have "find_pattern (mux_patterns cfg en) m (''assets'' # a # segs) = Some (pat [] [''assets''] True (en_assets en))" if "segs \<noteq> []" for m segs
    using that by (auto simp: find_pattern_def mux_patterns_def path_matches_def method_matches_def pat_def split: option.split)
  then show ?thesis by (simp add: mux_serve_def p Let_def pat_def)
qed

lemma provider_routes_assets:
  assumes "assetIDRegex a" "filenameRegex n" "plain_name n" "req_path r = ''/assets/'' @ a @ ''/'' @ n" "sx_escaped (rv_server q) r = EscapedPath (req_path r) []"
  shows "provider_mux urlParse version p q ctx r w s =
    assets_endpoint ((rv_server q)\<lparr>sx_ready := Some (readinessChecker (rv_ready q) p)\<rparr>) (pd_cfg p)
      (fst (NewHandler urlParse (assets_config (pd_cfg p) (pd_signer p)))) r w s"
proof -
  have pct: "CHR ''%'' \<notin> set a" "CHR ''%'' \<notin> set n" using name_chars(2) assms(1,2) by blast+
  have "list_all (\<lambda>c. \<not> shouldEscape c) ''/assets/''" "list_all (\<lambda>c. \<not> shouldEscape c) ''/''" by code_simp+
  then have fixed: "c \<in> set ''/assets/'' \<Longrightarrow> \<not> shouldEscape c" "c \<in> set ''/'' \<Longrightarrow> \<not> shouldEscape c" for c unfolding list_all_iff by blast+
  have "\<not> shouldEscape c" if "c \<in> set (req_path r)" for c
    using that unfolding assms(4) set_append Un_iff by (elim disjE) (use fixed name_chars(1) assms(1,2) in blast)+
  then have "path_escape (req_path r) = req_path r" by (rule path_escape_same)
  then have "EscapedPath (req_path r) [] = req_path r" using assms(4) by (simp add: EscapedPath_def)
  then have esc: "sx_escaped (rv_server q) r = ''/assets/'' @ a @ ''/'' @ n" using assms(4,5) by simp
  show ?thesis
    by (simp add: provider_mux_def server_mux_def server_endpoints_def Let_def 
        asset_routed [where escaped = "sx_escaped (rv_server q)", OF assetID_plain [OF assms(1)] assms(3) pct esc])
qed

text \<open>Validation leaves asset requests alone, and the outer middlewares hand the answer on.\<close>

lemma chain_passes:
  assumes "req_path r = ''/assets/'' @ rest" "inner_run c mux r w s = Returned (w1, s1)"
  shows "\<exists>s'. server_chain c mux None r w s = Returned (w1\<lparr>wr_fields := wr_fields w\<rparr>, s')"
proof -
  have "\<not> shouldValidateOpenAPIRequest (req_path r)"
    by (auto simp: assms(1) shouldValidateOpenAPIRequest_def HasPrefix_def)
  then have "OpenAPIValidation oa h ctx r w0 s0 = h ctx r w0 s0" for oa and h :: "'a ctx_handler" and ctx w0 s0 by (simp add: OpenAPIValidation_def)
  then show ?thesis
    using assms(2) by (simp add: server_chain_unfold HTTPMetrics_def AccessLog_def Recover_def RequestID_def inner_run_def Let_def)
qed

text \<open>An admitted GET or HEAD reaches the asset handler, with at most some headers set.\<close>

definition untouched :: "writer \<Rightarrow> writer \<Rightarrow> bool" where
  "untouched w w' \<longleftrightarrow> wr_status w' = wr_status w \<and> wr_body w' = wr_body w"

lemma untouched_trans: "untouched w w1 \<Longrightarrow> untouched w1 w2 \<Longrightarrow> untouched w w2"
  by (simp add: untouched_def)

lemma endpoint_passes:
  assumes "req_method r \<in> {''GET'', ''HEAD''}" "fst (allow (sx_fl x) (pv_limiter (sr_app s)) (clientIP (req_remote r)) (sx_now x))"
    and "\<And>w0. untouched w w0 \<Longrightarrow> \<exists>w1 s1. on_assets (sx_world x) h r w0 s = Returned (w1, s1) \<and> P w1"
  shows "\<exists>w1 s1. assets_endpoint x cfg h r w s = Returned (w1, s1) \<and> P w1"
proof -
  obtain l where l: "allow (sx_fl x) (pv_limiter (sr_app s)) (clientIP (req_remote r)) (sx_now x) = (True, l)"
    using assms(2) by (cases "allow (sx_fl x) (pv_limiter (sr_app s)) (clientIP (req_remote r)) (sx_now x)") auto
  have u: "untouched w (setCORSHeaders w o1 c m hs ex)" "untouched w w" for o1 c m hs ex by (simp_all add: untouched_def setCORSHeaders_def Let_def)
  have "\<exists>w1 s1. corsMiddleware c (on_assets (sx_world x) h) r w s = Returned (w1, s1) \<and> P w1" for c
    using assms(1) assms(3) [OF u(1)] assms(3) [OF u(2)] by (auto simp: corsMiddleware_def Let_def)
  then have "\<exists>w1 s1. (if cf_EnableCORS cfg then corsMiddleware \<lparr>cc_AllowedOrigins = ParseAllowedOrigins (cf_CORSAllowedOrigins cfg),
      cc_AllowCredentials = cf_CORSAllowCredentials cfg\<rparr> (on_assets (sx_world x) h) else on_assets (sx_world x) h) r w s = Returned (w1, s1) \<and> P w1"
    using assms(3) [OF u(2)] by simp
  then show ?thesis using l by (auto simp: assets_endpoint_def on_limiter_def rateLimitMiddleware_def map_ended_def Let_def split del: if_split)
qed

section \<open>Properties\<close>

text \<open>A file that the scanner counted and whose name the patterns of the handler allow.\<close>

definition servable :: "scan_env \<Rightarrow> string \<Rightarrow> dir_entry \<Rightarrow> FileInfo \<Rightarrow> bool" where
  "servable env d e i \<longleftrightarrow> (case se_readDir env d of Inl _ \<Rightarrow> False | Inr es \<Rightarrow> e \<in> set es) \<and> media e \<and> de_type e = Regular \<and> de_info e = Ok i \<and>
     filenameRegex (de_name e) \<and> \<not> Contains (de_name e) ''..''"

lemma servable_name:
  assumes "servable env d e i"
  shows "filenameRegex (de_name e)" "plain_name (de_name e)"
proof -
  show f: "filenameRegex (de_name e)" using assms by (simp add: servable_def)
  have "de_name e \<noteq> []" "CHR ''/'' \<notin> set (de_name e)" using f filename_regex_no_slash by (auto simp: filenameRegex_def)
  then obtain ext where "validateExtension (de_name e) = Ok ext"
    using scanner_handler_agree [of "de_name e"] assms by (auto simp: servable_def media_def is_ok_iff)
  then show "plain_name (de_name e)" using validateFilename_plain assms by (auto simp: servable_def validateFilename_ok)
qed

text \<open>The disk shows the request what it showed the scanner.\<close>

definition disk_as_scanned :: "scan_env \<Rightarrow> string \<Rightarrow> world \<Rightarrow> bool" where
  "disk_as_scanned env d w \<longleftrightarrow> same_disk env d (wd_fs0 w) \<and> same_disk env d (wd_fs1 w) \<and> same_disk env d (wd_fs2 w)"

lemma servable_served:
  assumes "Scan env assetsRoot m = (Ok res, m')" "x \<in> set (sr_Assets res)" "d = Join [assetsRoot, as_AssetID x]"
    and "disk_as_scanned env d w" "servable env d e i" "fi_size i \<le> hc_MaxSegmentBytes (hd_cfg h)"
    and "hd_mode h \<noteq> ''proxy''" "hc_AssetsRoot (hd_cfg h) = assetsRoot" "wd_getwd w = Some wd"
    and "req_method r \<in> {''GET'', ''HEAD''}" "req_path r = ''/assets/'' @ as_AssetID x @ ''/'' @ de_name e" "untouched w1 w0"
  shows "\<exists>f w2 s'. fs_open (wd_fs2 w) (Join [d, de_name e]) = Ok f \<and> fl_stat f = Ok i \<and> untouched w1 w2 \<and>
    on_assets w h r w0 s = Returned (wd_serveContent w w2 r (de_name e) (fi_modtime i) f, s')"
proof -
  obtain es where es: "se_readDir env d = Ok es" "e \<in> set es" "media e" "de_type e = Regular" "filenameRegex (de_name e)" "\<not> Contains (de_name e) ''..''"
    and i: "de_info e = Ok i" using assms(5) by (auto simp: servable_def split: sum.splits)
  note disk = assms(4) [unfolded disk_as_scanned_def, THEN conjunct1] assms(4) [unfolded disk_as_scanned_def, THEN conjunct2, THEN conjunct1]
    assms(4) [unfolded disk_as_scanned_def, THEN conjunct2, THEN conjunct2]
  obtain f ext where f: "fs_open (wd_fs2 w) (Join [d, de_name e]) = Ok f" "fl_stat f = Ok i"
    "serveHTTP w h r \<lparr>sv_writer = w0, sv_sem = pv_sem (sr_app s), sv_metrics = sr_metrics s\<rparr> =
       Returned (\<lparr>sv_writer = wd_serveContent w (setContentHeaders (setAccessLogField w0 ''mode'' (FStr (hd_mode h))) ext) r (de_name e) (fi_modtime i) f,
         sv_sem = pv_sem (sr_app s), sv_metrics = sr_metrics s\<rparr>)"
    using published_is_served [OF assms(1-3) disk es assms(7-11), of "\<lparr>sv_writer = w0, sv_sem = pv_sem (sr_app s), sv_metrics = sr_metrics s\<rparr>"] i assms(6)
    by auto
  have "untouched w1 (setContentHeaders (setAccessLogField w0 ''mode'' (FStr (hd_mode h))) ext)"
    using assms(12) by (simp add: untouched_def setContentHeaders_def setAccessLogField_def)
  then show ?thesis using f by (auto simp: on_assets_def map_ended_def)
qed

text \<open>C6. What is announced is served: for an asset that a scan found, take the base URL of its announcement, append a slash and the name of a counted
  file; let the file be regular, no larger than the segment limit, and its name of the characters that the handler takes, without two dots in a row. While the
  disk is as it was scanned and the storage is not proxy-only, a GET or HEAD for the path of that URL that the rate limit admits passes the
  middlewares, the router and CORS and is answered from that very file, in full, with nothing written before it. The scanner checks neither
  the size nor the characters: a counted file that fails these conditions makes its asset publishable all the same and is refused by the handler.\<close>

theorem announced_is_served:
  assumes "Scan env (assets_root (pd_cfg p)) m = (Ok res, m')" "x \<in> set (sr_Assets res)" "d = Join [assets_root (pd_cfg p), as_AssetID x]"
    and "BuildAnnouncement lib (pd_identity p) (pd_cfg p) (as_AssetID x) now = Ok ann"
    and "TrimRight (cf_PublicBaseURL (pd_cfg p)) ''/'' @ req_path r = ar_BaseURL ann @ ''/'' @ de_name e"
    and "disk_as_scanned env d (sx_world (rv_server q))" "servable env d e i" "fi_size i \<le> cf_MaxSegmentBytes (pd_cfg p)"
    and "normalizeStorageMode (cf_StorageMode (pd_cfg p)) \<noteq> ''proxy''" "wd_getwd (sx_world (rv_server q)) = Some wd"
    and "req_method r \<in> {''GET'', ''HEAD''}" "sx_escaped (rv_server q) r = EscapedPath (req_path r) []"
    and "fst (allow (sx_fl (rv_server q)) (pv_limiter (sr_app s)) (clientIP (req_remote r)) (sx_now (rv_server q)))"
  shows "\<exists>f w0 s'. fs_open (wd_fs2 (sx_world (rv_server q))) (Join [d, de_name e]) = Ok f \<and> fl_stat f = Ok i \<and> untouched w w0 \<and>
    provider_server urlParse version p q r w s =
      Returned ((wd_serveContent (sx_world (rv_server q)) w0 r (de_name e) (fi_modtime i) f)\<lparr>wr_fields := wr_fields w\<rparr>, s')"
proof -
  define x1 where "x1 = (rv_server q)\<lparr>sx_ready := Some (readinessChecker (rv_ready q) p)\<rparr>"
  define h where "h = fst (NewHandler urlParse (assets_config (pd_cfg p) (pd_signer p)))"
  define c where "c = sx_chain (rv_server q)"
  define P where "P = (\<lambda>w'. \<exists>f w0. fs_open (wd_fs2 (sx_world (rv_server q))) (Join [d, de_name e]) = Ok f \<and> fl_stat f = Ok i \<and> untouched w w0 \<and>
    w' = wd_serveContent (sx_world (rv_server q)) w0 r (de_name e) (fi_modtime i) f)"
  let ?w = "set_header (w\<lparr>wr_fields := Some Map.empty\<rparr>) ''X-Request-Id'' (ce_uuid c)"
    and ?s = "s\<lparr>sr_metrics := IncInFlight (routeLabel (req_path r)) (sr_metrics s)\<rparr>"
  note sc = scanned_asset [OF assms(1,2)]
  have path: "req_path r = ''/assets/'' @ as_AssetID x @ ''/'' @ de_name e" using assms(4,5) by (auto simp: BuildAnnouncement_def Let_def split: if_splits sum.splits)
  have name: "filenameRegex (de_name e)" "plain_name (de_name e)" using servable_name [OF assms(7)] by simp_all
  have h: "hd_mode h = normalizeStorageMode (cf_StorageMode (pd_cfg p))" "hd_cfg h = assets_config (pd_cfg p) (pd_signer p)"
    by (auto simp: h_def NewHandler_def initProxy_def assets_config_def Let_def split: option.split)
  have inner: "\<exists>w1 s1. on_assets (sx_world x1) h r w0 ?s = Returned (w1, s1) \<and> P w1" if "untouched ?w w0" for w0
  proof -
    have "untouched w w0" using that by (simp add: untouched_def set_header_def)
    then show ?thesis
      using servable_served [OF assms(1-3,6,7) _ _ _ assms(10,11) path, of h w w0 ?s] assms(8,9) h
      by (simp add: P_def x1_def assets_config_def assets_root_def) blast
  qed
  have "\<exists>w1 s1. assets_endpoint x1 (pd_cfg p) h r ?w ?s = Returned (w1, s1) \<and> P w1"
    by (rule endpoint_passes [OF assms(11)]) (use assms(13) inner in \<open>simp_all add: x1_def\<close>)
  moreover have "provider_mux urlParse version p q ctx r ?w ?s = assets_endpoint x1 (pd_cfg p) h r ?w ?s" for ctx
    unfolding x1_def h_def using provider_routes_assets [OF sc(1) name(1,2) path assms(12)] .
  ultimately obtain w1 s1 where run: "inner_run c (provider_mux urlParse version p q) r w s = Returned (w1, s1)" "P w1" by (auto simp: inner_run_def)
  obtain s' where "provider_server urlParse version p q r w s = Returned (w1\<lparr>wr_fields := wr_fields w\<rparr>, s')"
    using chain_passes [OF path run(1)] by (auto simp: provider_server_chain c_def)
  then show ?thesis using run(2) by (auto simp: P_def)
qed

section \<open>A concrete site\<close>

definition demo_site :: provider where
  "demo_site = \<lparr>pd_cfg = (Load Map.empty)\<lparr>cf_DataPath := ''/'', cf_AssetsSubdir := ''d'', cf_PublicBaseURL := ''https://p/'',
       cf_StorageMode := ''filesystem'', cf_MaxSegmentBytes := 10\<rparr>,
     pd_identity = demo_identity, pd_signer = NilPointer, pd_originAuthReady = True, pd_db = empty_db, pd_client = None,
     pd_health = NewHealthState False, pd_metrics = Some [], pd_schema = legacy, pd_idfs = Map.empty, pd_audit = None\<rparr>"

definition demo_delivery_env :: request_env where
  "demo_delivery_env = demo_request_env\<lparr>rv_server := demo_server_env\<lparr>sx_world := demo_disk_world [''master.m3u8'', ''s.ts''],
     sx_escaped := \<lambda>r. EscapedPath (req_path r) []\<rparr>\<rparr>"

lemma demo_site_facts:
  "assets_root (pd_cfg demo_site) = ''/d''" "normalizeStorageMode (cf_StorageMode (pd_cfg demo_site)) \<noteq> ''proxy''"
  "cf_PublicBaseURL (pd_cfg demo_site) = ''https://p/''" "cf_MaxSegmentBytes (pd_cfg demo_site) = 10"
proof -
  have "Join [''/'', ''d''] = ''/d''" by code_simp
  then show "assets_root (pd_cfg demo_site) = ''/d''" by (simp add: assets_root_def demo_site_def)
  have "TrimSpace ''filesystem'' = ''filesystem''" by (rule TrimSpace_all_graphic) (simp add: graphic_def)
  moreover have "ToLower ''filesystem'' = ''filesystem''" by code_simp
  ultimately show "normalizeStorageMode (cf_StorageMode (pd_cfg demo_site)) \<noteq> ''proxy''"
    by (simp add: normalizeStorageMode_def demo_site_def Let_def del: ToLower.simps)
qed (simp_all add: demo_site_def)

lemma demo_site_announced:
  "\<exists>ann. BuildAnnouncement (sw_lib demo_sweep a) (pd_identity demo_site) (pd_cfg demo_site) ''a1'' 0 = Ok ann \<and> ar_BaseURL ann = ''https://p/assets/a1''"
proof -
  have t: "TrimSpace ''https://p/'' = ''https://p/''" "TrimSpace ''a1'' = ''a1''" by (rule TrimSpace_all_graphic, simp add: graphic_def)+
  have "TrimRight ''https://p/'' ''/'' = ''https://p''" by code_simp
  then show ?thesis by (simp add: BuildAnnouncement_def demo_site_facts t demo_sweep_def Let_def)
qed

theorem announced_is_served_witness:
  "\<exists>w' s'. provider_server (\<lambda>_. None) ''v1'' demo_site demo_delivery_env demo_local_get fresh_writer (provider_state id demo_site) = Returned (w', s') \<and>
     wr_body w' = ''abc''"
proof -
  let ?names = "[''master.m3u8'', ''s.ts'']"
  have n: "list_all (\<lambda>n. isAllowedFile n (ToLower (Ext n))) ?names" "list_ex (\<lambda>n. EqualFold n ''master.m3u8'') ?names" "list_all plain_name ?names"
    "isAllowedFile ''s.ts'' (ToLower (Ext ''s.ts''))" "filenameRegex ''s.ts''" "\<not> Contains ''s.ts'' ''..''" "Join [''/d'', ''a1''] = ''/d/a1''"
    "Join [''/d/a1'', ''s.ts''] = ''/d/a1/s.ts''" "TrimRight ''https://p/'' ''/'' = ''https://p''" by code_simp+
  obtain res x where sc: "Scan (demo_listing ?names) ''/d'' None = (Ok res, None)" "x \<in> set (sr_Assets res)" "as_AssetID x = ''a1''"
    using demo_listing_scan [OF n(1,2)] by (metis list.set_intros)
  obtain ann where ann: "BuildAnnouncement (sw_lib demo_sweep []) (pd_identity demo_site) (pd_cfg demo_site) (as_AssetID x) 0 = Ok ann" "ar_BaseURL ann = ''https://p/assets/a1''"
    using demo_site_announced sc(3) by metis
  have q: "sx_world (rv_server demo_delivery_env) = demo_disk_world ?names" by (simp add: demo_delivery_env_def)
  have d: "''/d/a1'' = Join [assets_root (pd_cfg demo_site), as_AssetID x]" by (simp add: demo_site_facts sc(3) n(7))
  have disk: "disk_as_scanned (demo_listing ?names) ''/d/a1'' (sx_world (rv_server demo_delivery_env))"
    using demo_same_disk [OF n(3)] by (simp add: disk_as_scanned_def q demo_disk_world_def)
  have sv: "servable (demo_listing ?names) ''/d/a1'' (demo_entry ''s.ts'') demo_info"
    using n(4-6) by (simp add: servable_def demo_listing_def media_def demo_entry_def del: ToLower.simps)
  have url: "TrimRight (cf_PublicBaseURL (pd_cfg demo_site)) ''/'' @ req_path demo_local_get = ar_BaseURL ann @ ''/'' @ de_name (demo_entry ''s.ts'')"
    by (simp add: demo_site_facts n(9) ann(2) demo_local_get_def demo_entry_def)
  have rest: "fi_size demo_info \<le> cf_MaxSegmentBytes (pd_cfg demo_site)" "wd_getwd (sx_world (rv_server demo_delivery_env)) = Some ''/srv''"
    "req_method demo_local_get \<in> {''GET'', ''HEAD''}" "sx_escaped (rv_server demo_delivery_env) demo_local_get = EscapedPath (req_path demo_local_get) []"
    "fst (allow (sx_fl (rv_server demo_delivery_env)) (pv_limiter (sr_app (provider_state id demo_site))) (clientIP (req_remote demo_local_get)) (sx_now (rv_server demo_delivery_env)))"
    by (simp_all add: demo_info_def demo_site_facts q demo_disk_world_def demo_world_def demo_local_get_def demo_get_def demo_delivery_env_def
        provider_state_def initial_app_def newLimiter_def allow_def)
  have "fs_open (wd_fs2 (demo_disk_world ?names)) ''/d/a1/s.ts'' = Ok \<lparr>fl_stat = Ok demo_info, fl_content = ''abc''\<rparr>"
    by (simp add: demo_disk_world_def demo_disk_def)
  then show ?thesis
    using announced_is_served [OF _ sc(2) d ann(1) url disk sv rest(1) demo_site_facts(2) rest(2-5), of None None fresh_writer "\<lambda>_. None" "''v1''"] sc(1)
    by (auto simp: demo_site_facts q demo_entry_def n(8) untouched_def demo_disk_world_def demo_world_def fresh_writer_def)
qed

end
