(* ===== verification/Rescan_Race.thy ===== *)
theory Rescan_Race
  imports Internal_Api
begin

text \<open>
  Rescans that overlap. The periodic job (\<open>jobs/runner.go\<close>) and the internal endpoint (\<open>internalapi/rescan_handler.go\<close>) run the same
  sequence of a scan, an upsert, a marking and a count, and nothing keeps two of them apart. Here a rescan is a thread that does one of these
  four per move; the database is shared. The theory shows that overlapping rescans are harmless when their scans agree, and what they can do when
  they do not.
\<close>

section \<open>Threads\<close>

record rescan_input =
  ri_scan :: scan_env
  ri_root :: string
  ri_now :: instant
  ri_faults :: rescan_faults

text \<open>Where a thread stands, with what it has computed so far.\<close>

datatype rescan_thread =
  Scanning
| Upserting ScanResult
| Marking ScanResult
| Counting ScanResult int
| Ended "(string, RescanResult) result"

fun rescan_move :: "rescan_input \<Rightarrow> rescan_thread \<Rightarrow> database \<Rightarrow> metrics \<Rightarrow> rescan_thread \<times> database \<times> metrics" where
  "rescan_move i Scanning db m =
     (case Scan (ri_scan i) (ri_root i) m of
        (Inl _, m') \<Rightarrow> (Ended (Err ''scan''), db, m')
      | (Inr sc, m') \<Rightarrow> (Upserting sc, db, m'))"
| "rescan_move i (Upserting sc) db m =
     (case UpsertAssets (rf_upsert (ri_faults i)) (map record_of (sr_Assets sc)) (ri_now i) db of
        (Inl e, db') \<Rightarrow> (Ended (Err e), db', m)
      | (Inr _, db') \<Rightarrow> (Marking sc, db', m))"
| "rescan_move i (Marking sc) db m =
     (case MarkMissing (rf_missing (ri_faults i)) (map as_AssetID (sr_Assets sc)) (ri_now i) db of
        (Inl e, db') \<Rightarrow> (Ended (Err e), db', m)
      | (Inr missing, db') \<Rightarrow> (Counting sc missing, db', m))"
| "rescan_move i (Counting sc missing) db m =
     (case CountActive (rf_count (ri_faults i)) db of
        Inl e \<Rightarrow> (Ended (Err e), db, m)
      | Inr active \<Rightarrow>
          (Ended (Ok \<lparr>rr_ScannedAssets = sr_ScannedAssets sc, rr_ActiveAssets = active, rr_MissingAssets = missing\<rparr>), db, m))"
| "rescan_move i (Ended r) db m = (Ended r, db, m)"

fun rescan_moves :: "nat \<Rightarrow> rescan_input \<Rightarrow> rescan_thread \<Rightarrow> database \<Rightarrow> metrics \<Rightarrow> rescan_thread \<times> database \<times> metrics" where
  "rescan_moves 0 i t db m = (t, db, m)"
| "rescan_moves (Suc n) i t db m = (case rescan_move i t db m of (t', db', m') \<Rightarrow> rescan_moves n i t' db' m')"

text \<open>A thread that is not disturbed does what the job does.\<close>

lemma undisturbed_thread:
  "rescan_moves 4 i Scanning db m = (case RunRescanJob (ri_scan i) (ri_root i) (ri_now i) (ri_faults i) db m of (r, rest) \<Rightarrow> (Ended r, rest))"
  by (auto simp: numeral_eq_Suc RunRescanJob_def Let_def split: prod.split sum.split)

section \<open>Interleavings\<close>

record rescans =
  rs_threads :: "(rescan_input \<times> rescan_thread) list"
  rs_db :: database
  rs_metrics :: metrics

inductive rescans_step :: "rescans \<Rightarrow> rescans \<Rightarrow> bool" where
  move: "k < length (rs_threads s) \<Longrightarrow> rs_threads s ! k = (i, t) \<Longrightarrow> rescan_move i t (rs_db s) (rs_metrics s) = (t', db', m') \<Longrightarrow>
    rescans_step s \<lparr>rs_threads = (rs_threads s)[k := (i, t')], rs_db = db', rs_metrics = m'\<rparr>"

inductive_cases rescans_stepE: "rescans_step s s'"

lemma rescan_move_steps: "rescan_move i t db m = (t', db', m') \<Longrightarrow> (db_step fk)\<^sup>*\<^sup>* db db'"
proof (cases t)
  case (Upserting sc)
  assume "rescan_move i t db m = (t', db', m')"
  then have "db' = snd (UpsertAssets (rf_upsert (ri_faults i)) (map record_of (sr_Assets sc)) (ri_now i) db)"
    using Upserting by (auto split: prod.splits sum.splits)
  then show ?thesis using step_chain [OF upserted] by simp
next
  case (Marking sc)
  assume "rescan_move i t db m = (t', db', m')"
  then have "db' = snd (MarkMissing (rf_missing (ri_faults i)) (map as_AssetID (sr_Assets sc)) (ri_now i) db)"
    using Marking by (auto split: prod.splits sum.splits)
  then show ?thesis using step_chain [OF missed] by simp
qed (auto split: prod.splits sum.splits)

lemma rescans_db_steps: "rescans_step\<^sup>*\<^sup>* s s' \<Longrightarrow> (db_step fk)\<^sup>*\<^sup>* (rs_db s) (rs_db s')"
proof (induction rule: rtranclp_induct)
  case (step s1 s2)
  from step.hyps(2) have "(db_step fk)\<^sup>*\<^sup>* (rs_db s1) (rs_db s2)" by (cases rule: rescans_step.cases) (auto dest: rescan_move_steps)
  then show ?case by (rule rtranclp_trans [OF step.IH])
qed simp

text \<open>A thread that moves several times in a row.\<close>

lemma thread_run:
  assumes "k < length ts" "ts ! k = (i, t)" "rescan_moves n i t db m = (t', db', m')"
  shows "rescans_step\<^sup>*\<^sup>* \<lparr>rs_threads = ts, rs_db = db, rs_metrics = m\<rparr> \<lparr>rs_threads = ts[k := (i, t')], rs_db = db', rs_metrics = m'\<rparr>"
  using assms
proof (induction n arbitrary: ts t db m)
  case 0
  then show ?case using list_update_id [of ts k] by simp
next
  case (Suc n)
  obtain t1 db1 m1 where one: "rescan_move i t db m = (t1, db1, m1)" by (metis prod_cases3)
  have "rescans_step \<lparr>rs_threads = ts, rs_db = db, rs_metrics = m\<rparr> \<lparr>rs_threads = ts[k := (i, t1)], rs_db = db1, rs_metrics = m1\<rparr>"
    using rescans_step.move [of k "\<lparr>rs_threads = ts, rs_db = db, rs_metrics = m\<rparr>" i t t1 db1 m1] Suc.prems one by simp
  moreover have "rescans_step\<^sup>*\<^sup>* \<lparr>rs_threads = ts[k := (i, t1)], rs_db = db1, rs_metrics = m1\<rparr>
      \<lparr>rs_threads = ts[k := (i, t')], rs_db = db', rs_metrics = m'\<rparr>"
    using Suc.IH [of "ts[k := (i, t1)]" t1 db1 m1] Suc.prems one by simp
  ultimately show ?case by (rule converse_rtranclp_into_rtranclp)
qed

section \<open>Without database errors\<close>

definition flawless :: "rescan_input \<Rightarrow> bool" where
  "flawless i \<longleftrightarrow> ri_faults i = no_rescan_faults"

lemma scan_metrics: "fst (Scan env assetsRoot m) = fst (Scan env assetsRoot m')"
  by (simp add: Scan_def Let_def)

lemma flawless_rest:
  assumes "flawless i"
  shows "\<exists>res. rescan_moves 3 i (Upserting sc) db m =
    (Ended (Ok res), mark_rows (\<lambda>a r. at_status r \<noteq> ''missing'' \<and> a \<notin> as_AssetID ` set (sr_Assets sc)) (Format (ri_now i))
       (fold (upsert_asset (Format (ri_now i))) (map record_of (sr_Assets sc)) db), m)"
  using assms
  by (cases "sr_Assets sc = []")
    (auto simp: flawless_def no_rescan_faults_def numeral_eq_Suc UpsertAssets_def upsert_loop_no_fault MarkMissing_def CountActive_def Let_def)

lemma flawless_thread:
  assumes "flawless i" "fst (Scan (ri_scan i) (ri_root i) None) = Ok sc"
  shows "\<exists>m'. rescan_move i Scanning db m = (Upserting sc, db, m')"
  using assms scan_metrics [of "ri_scan i" "ri_root i" m None] by (cases "Scan (ri_scan i) (ri_root i) m") simp

lemma fold_upsert_known: "asset db a \<noteq> None \<or> a \<in> rc_AssetID ` set rs \<Longrightarrow> asset (fold (upsert_asset n) rs db) a \<noteq> None"
  by (induction rs arbitrary: db) (auto simp: upsert_asset_lookup)

lemma mark_rows_known: "asset (mark_rows P n db) a \<noteq> None \<longleftrightarrow> asset db a \<noteq> None"
  by (simp add: mark_rows_asset)

lemma unseen_marked:
  assumes "asset db a \<noteq> None" "a \<notin> seen"
  shows "lifecycle_of (mark_rows (\<lambda>a r. at_status r \<noteq> ''missing'' \<and> a \<notin> seen) n db) a = Some Missing"
proof -
  from assms(1) obtain r where "asset db a = Some r" by blast
  then show ?thesis using assms(2) by (cases "at_status r = ''missing''") (simp_all add: lifecycle_of_def mark_rows_asset class_status_def)
qed

section \<open>Rescans that found the same\<close>

lemma fold_upsert_active: "a \<in> rc_AssetID ` set rs \<Longrightarrow> lifecycle_of (fold (upsert_asset n) rs db) a = Some Active"
proof (induction rs arbitrary: db)
  case (Cons x rs)
  show ?case
  proof (cases "a \<in> rc_AssetID ` set rs")
    case False
    then show ?thesis using Cons.prems fold_upsert_other [OF False] by (auto simp: lifecycle_of_def upsert_asset_lookup row_for_def)
  qed (simp add: Cons.IH)
qed simp

lemma upserted_lifecycle:
  assumes "UpsertAssets f (map record_of as) now db = (r, db')"
  shows "lifecycle_of db' a = (if is_ok r \<and> a \<in> as_AssetID ` set as then Some Active else lifecycle_of db a)"
proof (cases "is_ok r")
  case True
  have ids: "rc_AssetID ` set (map record_of as) = as_AssetID ` set as" by (simp add: record_of_def image_image)
  have db': "db' = fold (upsert_asset (Format now)) (map record_of as) db"
    using assms True by (auto simp: UpsertAssets_def split: if_splits sum.splits dest: upsert_loop_Ok)
  show ?thesis
  proof (cases "a \<in> as_AssetID ` set as")
    case found: True
    then show ?thesis using True fold_upsert_active [of a "map record_of as" "Format now" db] ids by (simp add: db')
  next
    case False
    then have "asset db' a = asset db a" unfolding db' by (intro fold_upsert_other) (use ids in simp)
    then show ?thesis using False by (simp add: lifecycle_of_def)
  qed
next
  case False
  then have "db' = db" using assms by (auto simp: UpsertAssets_def split: if_splits sum.splits)
  then show ?thesis using False by simp
qed

lemma marked_lifecycle:
  assumes "MarkMissing f seen now db = (r, db')"
  shows "db' = db \<and> \<not> is_ok r \<or>
    (\<forall>a. lifecycle_of db' a = (if a \<in> set seen then lifecycle_of db a else map_option (\<lambda>_. Missing) (lifecycle_of db a)))"
proof (cases "f 0")
  case False
  then have "db' = mark_rows (\<lambda>a r. at_status r \<noteq> ''missing'' \<and> a \<notin> set seen) (Format now) db"
    using assms by (cases "seen = []") (auto simp: MarkMissing_def Let_def split: if_splits)
  then have "lifecycle_of db' a = (if a \<in> set seen then lifecycle_of db a else map_option (\<lambda>_. Missing) (lifecycle_of db a))" for a
    by (cases "asset db a") (simp_all add: lifecycle_of_def mark_rows_asset)
  then show ?thesis by blast
qed (use assms in \<open>auto simp: MarkMissing_def Let_def\<close>)

text \<open>What a thread has computed agrees with the set \<open>found\<close>; and how far it has brought the database.\<close>

fun agrees :: "string set \<Rightarrow> rescan_thread \<Rightarrow> bool" where
  "agrees found (Upserting sc) \<longleftrightarrow> as_AssetID ` set (sr_Assets sc) = found"
| "agrees found (Marking sc) \<longleftrightarrow> as_AssetID ` set (sr_Assets sc) = found"
| "agrees found (Counting sc n) \<longleftrightarrow> as_AssetID ` set (sr_Assets sc) = found"
| "agrees found _ \<longleftrightarrow> True"

fun has_upserted :: "rescan_thread \<Rightarrow> bool" where
  "has_upserted (Marking sc) \<longleftrightarrow> True"
| "has_upserted (Counting sc n) \<longleftrightarrow> True"
| "has_upserted (Ended r) \<longleftrightarrow> is_ok r"
| "has_upserted _ \<longleftrightarrow> False"

fun has_marked :: "rescan_thread \<Rightarrow> bool" where
  "has_marked (Counting sc n) \<longleftrightarrow> True"
| "has_marked (Ended r) \<longleftrightarrow> is_ok r"
| "has_marked _ \<longleftrightarrow> False"

text \<open>The state of an asset on the way from \<open>L\<close> to the reconciled one.\<close>

definition on_the_way :: "string set \<Rightarrow> (string \<Rightarrow> lifecycle option) \<Rightarrow> bool \<Rightarrow> bool \<Rightarrow> (string \<Rightarrow> lifecycle option) \<Rightarrow> bool" where
  "on_the_way found L upserted marked M \<longleftrightarrow>
     (\<forall>a. M a = reconcile found L a \<or> M a = L a \<and> (if a \<in> found then \<not> upserted else \<not> marked))"

definition rescans_agree :: "string set \<Rightarrow> (string \<Rightarrow> lifecycle option) \<Rightarrow> rescans \<Rightarrow> bool" where
  "rescans_agree found L s \<longleftrightarrow>
     (\<forall>(i, t) \<in> set (rs_threads s). agrees found t \<and>
        (\<forall>sc. fst (Scan (ri_scan i) (ri_root i) None) = Ok sc \<longrightarrow> as_AssetID ` set (sr_Assets sc) = found) \<and>
        on_the_way found L (has_upserted t) (has_marked t) (lifecycle_of (rs_db s)))"

lemma on_the_way_closer:
  "on_the_way found L u k M \<Longrightarrow> (\<And>a. M' a = M a \<or> M' a = reconcile found L a) \<Longrightarrow> on_the_way found L u k M'"
  unfolding on_the_way_def by metis

lemma on_the_way_marked:
  "on_the_way found L u k M \<Longrightarrow> a \<notin> found \<Longrightarrow> map_option (\<lambda>_. Missing) (M a) = reconcile found L a"
proof -
  assume way: "on_the_way found L u k M" and "a \<notin> found"
  then have "M a = map_option (\<lambda>_. Missing) (L a) \<or> M a = L a" using way [unfolded on_the_way_def, THEN spec [of _ a]] by (auto simp: reconcile_def)
  then show ?thesis using \<open>a \<notin> found\<close> by (cases "L a") (auto simp: reconcile_def)
qed

lemma on_the_way_weaken: "on_the_way found L u k M \<Longrightarrow> on_the_way found L False False M"
  by (auto simp: on_the_way_def)

lemma move_agrees:
  assumes "rescan_move i t db m = (t', db', m')" "agrees found t"
    and "\<And>sc. fst (Scan (ri_scan i) (ri_root i) None) = Ok sc \<Longrightarrow> as_AssetID ` set (sr_Assets sc) = found"
    and "on_the_way found L (has_upserted t) (has_marked t) (lifecycle_of db)"
  shows "agrees found t' \<and> on_the_way found L (has_upserted t') (has_marked t') (lifecycle_of db') \<and>
    (\<forall>a. lifecycle_of db' a = lifecycle_of db a \<or> lifecycle_of db' a = reconcile found L a)"
proof (cases t)
  case Scanning
  then show ?thesis
    using assms(1,3,4) scan_metrics [of "ri_scan i" "ri_root i" m None] by (auto split: prod.splits sum.splits)
next
  case (Upserting sc)
  let ?up = "UpsertAssets (rf_upsert (ri_faults i)) (map record_of (sr_Assets sc)) (ri_now i) db"
  obtain r db1 where up: "?up = (r, db1)" by (cases ?up)
  have db': "db' = db1" and t': "t' = (case r of Inl e \<Rightarrow> Ended (Err e) | Inr _ \<Rightarrow> Marking sc)"
    using assms(1) Upserting up by (auto split: sum.splits)
  have found: "as_AssetID ` set (sr_Assets sc) = found" using assms(2) Upserting by simp
  note lc = upserted_lifecycle [OF up, unfolded found]
  have near: "lifecycle_of db' a = lifecycle_of db a \<or> lifecycle_of db' a = reconcile found L a" for a
    unfolding db' lc by (simp add: reconcile_def)
  have way: "on_the_way found L False False (lifecycle_of db')" using on_the_way_closer [OF assms(4)] near Upserting by simp
  show ?thesis
  proof (cases r)
    case (Inr u)
    then have "on_the_way found L True False (lifecycle_of db')"
      using way unfolding on_the_way_def db' lc by (simp add: reconcile_def) metis
    then show ?thesis using near t' found Inr by simp
  qed (use way near t' in simp)
next
  case (Marking sc)
  let ?mk = "MarkMissing (rf_missing (ri_faults i)) (map as_AssetID (sr_Assets sc)) (ri_now i) db"
  obtain r db1 where mk: "?mk = (r, db1)" by (cases ?mk)
  have db': "db' = db1" and t': "t' = (case r of Inl e \<Rightarrow> Ended (Err e) | Inr n \<Rightarrow> Counting sc n)"
    using assms(1) Marking mk by (auto split: sum.splits)
  have found: "set (map as_AssetID (sr_Assets sc)) = found" using assms(2) Marking by simp
  have lc: "db' = db \<and> \<not> is_ok r \<or> (\<forall>a. lifecycle_of db' a = (if a \<in> found then lifecycle_of db a else reconcile found L a))"
    using marked_lifecycle [OF mk] on_the_way_marked [OF assms(4)] unfolding found db' by metis
  then have near: "lifecycle_of db' a = lifecycle_of db a \<or> lifecycle_of db' a = reconcile found L a" for a by metis
  have way: "on_the_way found L True False (lifecycle_of db')" using on_the_way_closer [OF assms(4)] near Marking by simp
  show ?thesis
  proof (cases r)
    case (Inr n)
    then have "on_the_way found L True True (lifecycle_of db')" using way lc unfolding on_the_way_def by (metis is_ok_def sum.simps)
    then show ?thesis using near t' found Inr by simp
  next
    case (Inl e)
    then show ?thesis using on_the_way_weaken [OF way] near t' by simp
  qed
next
  case (Counting sc n)
  then show ?thesis using assms(1,2,4) on_the_way_weaken by (auto split: sum.splits)
qed (use assms in auto)

lemma rescans_agree_step:
  assumes "rescans_step s s'" "rescans_agree found L s"
  shows "rescans_agree found L s'"
  using assms(1)
proof (cases rule: rescans_step.cases)
  case (move k i t t' db' m')
  have mem: "(i, t) \<in> set (rs_threads s)" using move(2,3) by (metis nth_mem)
  then have old: "agrees found t" "\<And>sc. fst (Scan (ri_scan i) (ri_root i) None) = Ok sc \<Longrightarrow> as_AssetID ` set (sr_Assets sc) = found"
    "on_the_way found L (has_upserted t) (has_marked t) (lifecycle_of (rs_db s))"
    using assms(2) [unfolded rescans_agree_def, rule_format, OF mem] by simp_all
  note new = move_agrees [OF move(4) old]
  have "on_the_way found L u l (lifecycle_of db')" if "on_the_way found L u l (lifecycle_of (rs_db s))" for u l
    using on_the_way_closer [OF that] new by blast
  moreover have "x = (i, t') \<or> x \<in> set (rs_threads s)" if "x \<in> set (rs_threads s')" for x
    using that move(1) set_update_subset_insert by fastforce
  ultimately show ?thesis using assms(2) old(2) new unfolding rescans_agree_def move(1) by fastforce
qed

section \<open>Properties\<close>

text \<open>C19. Overlapping rescans that see the same disk do no harm: let any number of rescans run interleaved, one scan or statement at a time, any of
  them failing anywhere, and let the scans that succeed agree on the set of assets. As soon as one of the rescans has succeeded, and
  whatever the others do then, the database is reconciled with that set: what was found is active, what else was recorded is missing,
  nothing else has appeared, exactly as after a single rescan.\<close>

theorem agreeing_rescans:
  assumes "rescans_step\<^sup>*\<^sup>* \<lparr>rs_threads = map (\<lambda>i. (i, Scanning)) inputs, rs_db = db, rs_metrics = m\<rparr> s"
    and "\<And>i sc. i \<in> set inputs \<Longrightarrow> fst (Scan (ri_scan i) (ri_root i) None) = Ok sc \<Longrightarrow> as_AssetID ` set (sr_Assets sc) = found"
    and "(i, Ended (Ok res)) \<in> set (rs_threads s)"
  shows "lifecycle_of (rs_db s) = reconcile found (lifecycle_of db)"
proof -
  have "rescans_agree found (lifecycle_of db) \<lparr>rs_threads = map (\<lambda>i. (i, Scanning)) inputs, rs_db = db, rs_metrics = m\<rparr>"
    using assms(2) by (auto simp: rescans_agree_def on_the_way_def)
  with assms(1) have "rescans_agree found (lifecycle_of db) s"
    by (induction rule: rtranclp_induct) (auto intro: rescans_agree_step)
  then have "on_the_way found (lifecycle_of db) True True (lifecycle_of (rs_db s))" using assms(3) by (auto simp: rescans_agree_def)
  then show ?thesis by (auto simp: on_the_way_def split: if_splits)
qed

text \<open>C20. Overlapping rescans lose assets: when one rescan has read the directory before an asset appeared and another has read it after, both
  can succeed and leave the asset recorded as missing, although it was there for the whole of the second rescan and is still there.\<close>

theorem racing_rescans:
  assumes "flawless early" "flawless late"
    and "fst (Scan (ri_scan early) (ri_root early) None) = Ok sc" "fst (Scan (ri_scan late) (ri_root late) None) = Ok sc'"
    and "a \<notin> as_AssetID ` set (sr_Assets sc)" "a \<in> as_AssetID ` set (sr_Assets sc')"
  shows "\<exists>s res res'. rescans_step\<^sup>*\<^sup>* \<lparr>rs_threads = [(early, Scanning), (late, Scanning)], rs_db = db, rs_metrics = m\<rparr> s \<and>
    rs_threads s = [(early, Ended (Ok res)), (late, Ended (Ok res'))] \<and> lifecycle_of (rs_db s) a = Some Missing"
proof -
  obtain m1 where m1: "rescan_move early Scanning db m = (Upserting sc, db, m1)" using flawless_thread [OF assms(1,3)] by blast
  obtain m2 where m2: "rescan_move late Scanning db m1 = (Upserting sc', db, m2)" using flawless_thread [OF assms(2,4)] by blast
  obtain res' db1 where late: "rescan_moves 3 late (Upserting sc') db m2 = (Ended (Ok res'), db1, m2)"
    and db1: "db1 = mark_rows (\<lambda>a r. at_status r \<noteq> ''missing'' \<and> a \<notin> as_AssetID ` set (sr_Assets sc')) (Format (ri_now late))
       (fold (upsert_asset (Format (ri_now late))) (map record_of (sr_Assets sc')) db)"
    using flawless_rest [OF assms(2)] by blast
  obtain res db2 where early: "rescan_moves 3 early (Upserting sc) db1 m2 = (Ended (Ok res), db2, m2)"
    and db2: "db2 = mark_rows (\<lambda>a r. at_status r \<noteq> ''missing'' \<and> a \<notin> as_AssetID ` set (sr_Assets sc)) (Format (ri_now early))
       (fold (upsert_asset (Format (ri_now early))) (map record_of (sr_Assets sc)) db1)"
    using flawless_rest [OF assms(1)] by blast
  have ids: "a \<in> rc_AssetID ` set (map record_of (sr_Assets sc'))" using assms(6) by (auto simp: record_of_def image_image)
  have "asset db1 a \<noteq> None" unfolding db1 mark_rows_known by (rule fold_upsert_known) (use ids in simp)
  then have "asset (fold (upsert_asset (Format (ri_now early))) (map record_of (sr_Assets sc)) db1) a \<noteq> None" by (intro fold_upsert_known) simp
  then have lost: "lifecycle_of db2 a = Some Missing" unfolding db2 by (rule unseen_marked) (rule assms(5))
  let ?st = "\<lambda>t t' db m. \<lparr>rs_threads = [(early, t), (late, t')], rs_db = db, rs_metrics = m\<rparr>"
  have a: "rescans_step\<^sup>*\<^sup>* (?st Scanning Scanning db m) (?st (Upserting sc) Scanning db m1)"
    using thread_run [of 0 "[(early, Scanning), (late, Scanning)]" early Scanning 1 db m] m1 by simp
  have b: "rescans_step\<^sup>*\<^sup>* (?st (Upserting sc) Scanning db m1) (?st (Upserting sc) (Upserting sc') db m2)"
    using thread_run [of 1 "[(early, Upserting sc), (late, Scanning)]" late Scanning 1 db m1] m2 by simp
  have c: "rescans_step\<^sup>*\<^sup>* (?st (Upserting sc) (Upserting sc') db m2) (?st (Upserting sc) (Ended (Ok res')) db1 m2)"
    using thread_run [of 1 "[(early, Upserting sc), (late, Upserting sc')]" late "Upserting sc'" 3 db m2] late by simp
  have d: "rescans_step\<^sup>*\<^sup>* (?st (Upserting sc) (Ended (Ok res')) db1 m2) (?st (Ended (Ok res)) (Ended (Ok res')) db2 m2)"
    using thread_run [of 0 "[(early, Upserting sc), (late, Ended (Ok res'))]" early "Upserting sc" 3 db1 m2] early by simp
  show ?thesis
    using rtranclp_trans [OF rtranclp_trans [OF a b] rtranclp_trans [OF c d]] lost
    by (intro exI [of _ "?st (Ended (Ok res)) (Ended (Ok res')) db2 m2"] exI [of _ res] exI [of _ res']) simp
qed

section \<open>Two concrete rescans\<close>

definition demo_early :: rescan_input where
  "demo_early = \<lparr>ri_scan = demo_scan\<lparr>se_root := Ok []\<rparr>, ri_root = ''/d'', ri_now = 0, ri_faults = no_rescan_faults\<rparr>"

definition demo_late :: rescan_input where
  "demo_late = \<lparr>ri_scan = demo_scan, ri_root = ''/d'', ri_now = 0, ri_faults = no_rescan_faults\<rparr>"

theorem racing_rescans_witness:
  "\<exists>s res res'. rescans_step\<^sup>*\<^sup>* \<lparr>rs_threads = [(demo_early, Scanning), (demo_late, Scanning)], rs_db = empty_db, rs_metrics = None\<rparr> s \<and>
    rs_threads s = [(demo_early, Ended (Ok res)), (demo_late, Ended (Ok res'))] \<and> lifecycle_of (rs_db s) ''a1'' = Some Missing"
proof -
  obtain sc where sc: "Scan demo_scan ''/d'' None = (Ok sc, None)" "map as_AssetID (sr_Assets sc) = [''a1'']"
    using demo_scan_result by (elim exE conjE)
  have found: "''a1'' \<in> as_AssetID ` set (sr_Assets sc)" using sc(2) by (metis list.set_intros(1) list.set_map)
  have early: "fst (Scan (ri_scan demo_early) (ri_root demo_early) None) = Ok \<lparr>sr_Assets = [], sr_ScannedAssets = 0, sr_Duration = 0\<rparr>"
    by (simp add: demo_early_def demo_scan_def Scan_def Let_def)
  have late: "fst (Scan (ri_scan demo_late) (ri_root demo_late) None) = Ok sc" by (simp add: demo_late_def sc(1))
  show ?thesis
    by (rule racing_rescans [OF _ _ early late _ found]) (simp_all add: flawless_def demo_early_def demo_late_def)
qed

text \<open>Two rescans of the same disk, moving in turns: both scan, both store, then the second one marks before the first.\<close>

lemma flawless_moves:
  assumes "flawless i"
  shows "\<exists>db'. rescan_move i (Upserting sc) db m = (Marking sc, db', m)"
    and "\<exists>n db'. rescan_move i (Marking sc) db m = (Counting sc n, db', m)"
    and "\<exists>res. rescan_move i (Counting sc n) db m = (Ended (Ok res), db, m)"
  using assms
  by (auto simp: flawless_def no_rescan_faults_def UpsertAssets_def upsert_loop_no_fault MarkMissing_def CountActive_def Let_def)

lemma two_threads:
  "rescan_move i t db m = (t', db', m') \<Longrightarrow> rescans_step \<lparr>rs_threads = [(i, t), y], rs_db = db, rs_metrics = m\<rparr>
     \<lparr>rs_threads = [(i, t'), y], rs_db = db', rs_metrics = m'\<rparr>"
  "rescan_move i t db m = (t', db', m') \<Longrightarrow> rescans_step \<lparr>rs_threads = [y, (i, t)], rs_db = db, rs_metrics = m\<rparr>
     \<lparr>rs_threads = [y, (i, t')], rs_db = db', rs_metrics = m'\<rparr>"
  using rescans_step.move [of 0 "\<lparr>rs_threads = [(i, t), y], rs_db = db, rs_metrics = m\<rparr>"]
    rescans_step.move [of 1 "\<lparr>rs_threads = [y, (i, t)], rs_db = db, rs_metrics = m\<rparr>"] by simp_all

theorem agreeing_rescans_witness:
  "\<exists>s res t. rescans_step\<^sup>*\<^sup>* \<lparr>rs_threads = [(demo_late, Scanning), (demo_late, Scanning)], rs_db = demo_stale_db, rs_metrics = None\<rparr> s \<and>
     rs_threads s = [(demo_late, Ended (Ok res)), (demo_late, t)] \<and> has_marked t \<and>
     lifecycle_of (rs_db s) ''a1'' = Some Active \<and> lifecycle_of (rs_db s) ''z9'' = Some Missing"
proof -
  obtain sc where sc: "Scan demo_scan ''/d'' None = (Ok sc, None)" "map as_AssetID (sr_Assets sc) = [''a1'']"
    using demo_scan_result by (elim exE conjE)
  have found: "as_AssetID ` set (sr_Assets sc) = {''a1''}" using sc(2) by (metis list.set_map list.set(1,2))
  have f: "flawless demo_late" by (simp add: flawless_def demo_late_def)
  have scan: "rescan_move demo_late Scanning db None = (Upserting sc, db, None)" for db by (simp add: demo_late_def sc(1))
  obtain db1 where u1: "rescan_move demo_late (Upserting sc) demo_stale_db None = (Marking sc, db1, None)" using flawless_moves(1) [OF f] by blast
  obtain db2 where u2: "rescan_move demo_late (Upserting sc) db1 None = (Marking sc, db2, None)" using flawless_moves(1) [OF f] by blast
  obtain n2 db3 where m2: "rescan_move demo_late (Marking sc) db2 None = (Counting sc n2, db3, None)" using flawless_moves(2) [OF f] by blast
  obtain n1 db4 where m1: "rescan_move demo_late (Marking sc) db3 None = (Counting sc n1, db4, None)" using flawless_moves(2) [OF f] by blast
  obtain res where c1: "rescan_move demo_late (Counting sc n1) db4 None = (Ended (Ok res), db4, None)" using flawless_moves(3) [OF f] by blast
  define s where "s = \<lparr>rs_threads = [(demo_late, Ended (Ok res)), (demo_late, Counting sc n2)], rs_db = db4, rs_metrics = None\<rparr>"
  have run: "rescans_step\<^sup>*\<^sup>* \<lparr>rs_threads = [(demo_late, Scanning), (demo_late, Scanning)], rs_db = demo_stale_db, rs_metrics = None\<rparr> s"
    unfolding s_def
    by (rule converse_rtranclp_into_rtranclp, rule two_threads(1) [OF scan],
        rule converse_rtranclp_into_rtranclp, rule two_threads(2) [OF scan],
        rule converse_rtranclp_into_rtranclp, rule two_threads(1) [OF u1],
        rule converse_rtranclp_into_rtranclp, rule two_threads(2) [OF u2],
        rule converse_rtranclp_into_rtranclp, rule two_threads(2) [OF m2],
        rule converse_rtranclp_into_rtranclp, rule two_threads(1) [OF m1],
        rule converse_rtranclp_into_rtranclp, rule two_threads(1) [OF c1], rule rtranclp.rtrancl_refl)
  have "lifecycle_of (rs_db s) = reconcile {''a1''} (lifecycle_of demo_stale_db)"
  proof (rule agreeing_rescans)
    show "rescans_step\<^sup>*\<^sup>* \<lparr>rs_threads = map (\<lambda>i. (i, Scanning)) [demo_late, demo_late], rs_db = demo_stale_db, rs_metrics = None\<rparr> s"
      using run by simp
    show "(demo_late, Ended (Ok res)) \<in> set (rs_threads s)" by (simp add: s_def)
    show "as_AssetID ` set (sr_Assets sc') = {''a1''}" if "i \<in> set [demo_late, demo_late]" "fst (Scan (ri_scan i) (ri_root i) None) = Ok sc'" for i sc'
      using that sc(1) found by (simp add: demo_late_def)
  qed
  then have "lifecycle_of (rs_db s) ''a1'' = Some Active" "lifecycle_of (rs_db s) ''z9'' = Some Missing"
    by (simp_all add: reconcile_def demo_stale_db_facts(2))
  then show ?thesis using run by (intro exI [of _ s]) (auto simp: s_def)
qed

end
