(* ===== verification/Spec2Isabelle.thy ===== *)
theory Spec2Isabelle
  imports Delivery Rescan_Race
begin

text \<open>
  A verification library for \<open>audistro-provider\<close>, a Go service that publishes HLS audio assets from a directory or from an origin
  server, keeps a record of them in SQLite and announces them to a catalog.

  \<^bold>\<open>The program and its parts.\<close>
  \<open>cmd/audistro-provider/main.go\<close> checks the environment (\<open>internal/envcheck\<close>), loads and validates the configuration
  (\<open>internal/config\<close>), loads or creates the identity (\<open>internal/identity\<close>), opens and migrates the database (\<open>internal/db\<close>), scans the
  assets directory (\<open>internal/scanner\<close>) into it (\<open>internal/repository\<close>), registers with the catalog (\<open>internal/catalog\<close>), starts the HTTP
  server (\<open>internal/httpserver\<close>) and the background jobs (\<open>internal/jobs\<close>), and shuts both down. The server puts five middlewares
  around a router with the asset endpoint (\<open>internal/assets\<close>, over \<open>internal/fssecure\<close>, \<open>internal/proxyguard\<close> and
  \<open>internal/originauth\<close>), health and readiness (\<open>internal/health\<close>), metrics (\<open>internal/metrics\<close>), documentation, and the internal
  endpoints (\<open>internal/internalapi\<close>). Requests and jobs share the database, the metrics, the catalog health and the upstream semaphore.

  \<^bold>\<open>Theories and sources.\<close>
  \<^item> \<open>Prelude\<close>: results (\<open>Ok\<close>, \<open>Err\<close>), 64-bit integers, shared lemmas and the collections
    \<open>go_simps\<close>, \<open>inv_intros\<close>, \<open>frame\<close>.
  \<^item> \<open>Go_Strings\<close>, \<open>Go_Path\<close>, \<open>Go_Http\<close>, \<open>Go_Net\<close>, \<open>Go_Netip\<close>, \<open>Go_Time\<close>, \<open>Go_Float\<close>: what the program uses of Go's standard library
    (strings, hexadecimal, path cleaning, headers, response writers, what of their body reaches the client, and the endings of a handler, host and port, IP addresses and CIDR blocks, RFC 3339 times,
    float64 rounding).
  \<^item> \<open>Assets_Request\<close> (\<open>validate.go\<close>, the parser of \<open>handler.go\<close>), \<open>Fs_Secure\<close> (\<open>fssecure.go\<close>), \<open>Proxy_Guard\<close> (\<open>limit.go\<close>), \<open>Rate_Limit\<close>
    (\<open>ratelimit.go\<close>), \<open>Origin_Auth\<close> (\<open>hmac.go\<close>), \<open>Proxy_Body\<close>, \<open>Assets_Proxy\<close> and \<open>Assets_Handler\<close> (\<open>handler.go\<close>: limited body reader, reverse
    proxy functions, the handler in its three storage modes), \<open>Assets_Cors\<close> (\<open>cors.go\<close>), \<open>Metrics\<close> (\<open>metrics.go\<close>).
  \<^item> \<open>Scanner\<close> (\<open>scanner.go\<close>), \<open>Config\<close> (\<open>config.go\<close>), \<open>Identity\<close> (\<open>identity.go\<close>, \<open>filestore.go\<close>), \<open>Catalog\<close> (\<open>client.go\<close>,
    \<open>signing.go\<close>, \<open>healthstate.go\<close>), \<open>Backoff\<close> (\<open>backoff.go\<close>), \<open>Repository\<close> (\<open>assets_repo.go\<close>, \<open>announcements_repo.go\<close>), \<open>Db\<close> (\<open>db.go\<close>),
    \<open>Jobs\<close> (\<open>rescan_job.go\<close>, \<open>announce_sweep.go\<close>, \<open>cleanup_job.go\<close>), \<open>Runner\<close> (\<open>runner.go\<close>).
  \<^item> \<open>Ip_Allowlist\<close> and \<open>Internal_Api\<close> (\<open>internal/internalapi\<close>), \<open>Health\<close> (\<open>internal/health\<close>), \<open>Middleware\<close>, \<open>Api_Docs\<close> and \<open>Server\<close>
    (\<open>internal/httpserver\<close>), \<open>Envcheck\<close> (\<open>envcheck.go\<close>), \<open>Build_Info\<close> (\<open>buildinfo.go\<close>, \<open>logger.go\<close>), \<open>Startup\<close> (\<open>main.go\<close>).
  \<^item> Compositions: \<open>Published\<close> (scanner and handler on one disk), \<open>Freshness\<close> (the jobs over time), \<open>Rescan_Race\<close> (rescans that overlap), \<open>System\<close>
    (requests and jobs on the shared state), \<open>Delivery\<close> (from the announced URL through the server to the file), and this theory, with what holds for the whole program.

  \<^bold>\<open>How code becomes definitions.\<close>
  A definition has the name of the function it models, with a prefix where two packages use the same one. A Go struct is a record, an error
  return a \<open>result\<close>, a nil pointer an option; an interface that holds a nil pointer is a value of its own. \<open>int\<close> and
  \<open>int64\<close> wrap where the code can overflow (durations, the streaming limit, the failure counter). A handler takes request, writer and state and
  either returns or panics, in both cases with writer and state. Mutable state is passed through: the tables of the database as association
  lists, the token buckets, the semaphore, the backoff entries, the trace of metric calls, the log. What the environment decides is an argument: file
  system snapshots (one per system call where another process may interfere), clock readings, database errors per
  statement, network answers, random bytes, and the functions of third-party packages (key arithmetic, JSON, OpenAPI validation, the hash functions),
  with what is relied on as a hypothesis. Interleavings are step relations: \<open>guard_step\<close> for the
  upstream semaphore, \<open>db_step\<close> for the database operations of jobs and requests, \<open>rescans_step\<close> for overlapping rescans, one scan or
  statement per step, schedules of the three job loops, and \<open>system_step\<close> for the running program, one request or job run per step.

  \<^bold>\<open>Interfaces.\<close>
  Locales state the contracts between components and are interpreted on the definitions of the component that provides them: \<open>safe_opener\<close>
  (\<open>OpenFileNoSymlinks\<close>, used by the handler), \<open>permit_pool\<close> (the semaphore), \<open>rounding\<close> and \<open>relative_rounding\<close> (float64 arithmetic, used by the limiter), \<open>origin_signer\<close>
  (\<open>HMACSigner\<close>), \<open>jitter\<close> (\<open>defaultJitter\<close>), \<open>identity_store\<close> (\<open>FileStore\<close>), \<open>announcement_store\<close> (the repository, used by the sweep),
  \<open>inner_handler\<close> (the router inside the middleware chain, used by the chain and by \<open>System\<close>).

  \<^bold>\<open>What is shown.\<close>
  \<^item> Serving: an accepted path names one file directly in its asset directory; what is opened is a regular file at that place even if the
    tree changes meanwhile; local files and streamed bodies keep to the segment limit; the upstream is asked only when the mode allows it,
    with the headers and the signature it should carry, by at most the configured number of requests; no path leaks a permit.
  \<^item> Admission: token counts and admission rate of the limiter, admission of quiet clients, CORS decisions, the IP allowlist as agreement of address bits.
  \<^item> Records: a scan returns exactly the publishable directories; a rescan refines the reconciliation of database and disk; storing is
    all or nothing; what is stored is read back; the migration keeps rows and columns; every interleaving keeps the database well-formed; rescans
    that overlap and find the same leave what one of them alone would.
  \<^item> Announcing: signed messages determine their fields; error classes, waits and their bounds; a sweep accounts for every asset and a second one
    has nothing to do; the wait for the job loops ends exactly when each of them sees the cancellation.
  \<^item> Starting and serving as a whole: a started program is configured; the identity survives a restart; every request returns and keeps the
    shared invariants; the routing table is exact; the database is out of reach of refused peers; readiness is exact; access log and metrics agree on every request.
  \<^item> Components together: the whole server answers the announced URL of a counted file from that file while the disk is as it was scanned; announcements stay valid as long as
    sweeps happen in time without errors and the catalog accepts them; in every reachable state of the running
    program database, permits, gauges, token buckets and retry bookkeeping are sound.
  \<^item> Where the code does not do what it means to, the theorem states what it does: a missing signer that panics, an abort that the client may not see,
    request ids missing from the log, rows that cannot be read after a migration, the overflow of the largest segment limit, the
    first element of \<open>X-Forwarded-For\<close>, overlapping rescans that lose an asset, a playlist in capital letters that is published and not
    served, an announce request without a body that never reaches its handler.

  \<^bold>\<open>Termination and bounds.\<close>
  All definitions are total but \<open>Wait\<close>, a partial function over an infinite schedule of the job loops, for which returning is proved; no fuel is
  used. The copy loop of the proxy ends by the measure of what is left in the body, the doubling loop of the backoff by its counter.

  \<^bold>\<open>Not modelled.\<close>
  The text of log lines other than the access log and panic reports, and their JSON form; listening, timeouts and connection handling of \<open>http.Server\<close>, signals and process exit beyond their order; SQL parsing and storage
  inside SQLite; fused floating-point operations, which some targets allow; the Prometheus exposition format; \<open>http.ServeContent\<close> (ranges and conditional requests) and protocol upgrades through the
  proxy; test helpers (\<open>NonceReaderForTest\<close>).
\<close>

section \<open>Lemmas that span components\<close>

lemma main_start_Started:
  assumes "main_start x = Started p"
  shows "Envcheck_Validate (xm_envcheck x) (xm_os x) = Ok ()" "pd_cfg p = Load (xm_os x)" "Validate (xm_config x) (pd_cfg p) = Ok ()"
    "origin_signer (xm_readSecret x) (xm_crypto x) (pd_cfg p) (pd_identity p) = (pd_signer p, pd_originAuthReady p)"
    "Migrate (xm_migrate x) (xm_schema x) = (Ok (), pd_schema p)"
  using assms by (auto simp: main_start_def Let_def split: option.splits sum.splits prod.splits if_splits)

lemma ready_signer:
  "origin_signer rd cr cfg i = (signer, ready) \<Longrightarrow> ToLower (TrimSpace (cf_OriginAuthMode cfg)) = ''hmac'' \<Longrightarrow>
   ready \<longleftrightarrow> (\<exists>sg. signer = SomeSigner sg)"
  by (auto simp: origin_signer_def Let_def split: option.splits if_splits)

lemma readinessChecker_Ok:
  "readinessChecker e p = Ok () \<longleftrightarrow> rd_ping e \<and> rd_stat e = Some True \<and>
     (cf_EnforceNoSymlinks (pd_cfg p) \<longrightarrow> AuditNoSymlinks (rd_tree e) = Ok False) \<and>
     (ToLower (TrimSpace (cf_OriginAuthMode (pd_cfg p))) = ''hmac'' \<longrightarrow> pd_originAuthReady p)"
  by (auto simp: readinessChecker_def Let_def split: option.splits sum.splits if_splits)

lemma audit_clean: "AuditNoSymlinks tree = Ok False \<longleftrightarrow> (\<exists>t. tree = Ok t \<and> \<not> has_symlink t \<and> \<not> unreadable t)"
proof (cases tree)
  case (Inr t)
  then show ?thesis
    using audit_sound [OF refl, of t] by (auto simp: AuditNoSymlinks_def split: option.splits audit_stop.splits)
qed (simp add: AuditNoSymlinks_def)

lemma validated_proxy:
  assumes "Validate ce cfg = Ok ()" "normalizeStorageMode (cf_StorageMode cfg) \<in> {''proxy'', ''hybrid''}"
  shows "hd_proxy (fst (NewHandler (ce_urlParse ce) (assets_config cfg signer))) \<noteq> None"
proof -
  have "ToLower (TrimSpace (cf_StorageMode cfg)) \<in> {''proxy'', ''hybrid''}"
    using assms(2) by (auto simp: normalizeStorageMode_def Let_def split: if_splits)
  moreover obtain mode where "validate_mode cfg = Ok mode" "validate_origin ce cfg mode = Ok ()"
    using assms(1) by (auto simp: Validate_def)
  ultimately obtain u where u: "ce_urlParse ce (TrimSpace (cf_OriginBaseURL cfg)) = Some u" "url_host u \<noteq> []"
    "ToLower (url_scheme u) \<in> {''http'', ''https''}" using validated_origin by blast
  then have "url_scheme u \<noteq> []" by auto
  then show ?thesis using u(1,2) assms(2) by (auto simp: NewHandler_def initProxy_def assets_config_def Let_def)
qed

section \<open>Properties of the whole program\<close>

text \<open>C15. Every request to the running server returns, whatever handler it reaches and whatever panics inside; afterwards the gauge of open
  requests of every route and the upstream permits are what they were, and a well-formed database is still
  well-formed, with every asset row in place.\<close>

theorem request_invariant:
  "\<exists>w' s'. provider_server urlParse version p e r w s = Returned (w', s') \<and>
     http_inflight q (sr_metrics s') = http_inflight q (sr_metrics s) \<and> pv_sem (sr_app s') = pv_sem (sr_app s) \<and>
     (db_good (ae_fk (rv_announce e)) (pv_db (sr_app s)) \<longrightarrow>
        db_good (ae_fk (rv_announce e)) (pv_db (sr_app s')) \<and> keeps_assets (pv_db (sr_app s)) (pv_db (sr_app s')))"
proof -
  let ?c = "sx_chain (rv_server e)" and ?mux = "provider_mux urlParse version p e"
  obtain w' s' where run: "server_chain ?c ?mux None r w s = Returned (w', s')" using server_chain_returns by blast
  have gauge: "http_inflight q (sr_metrics s') = http_inflight q (sr_metrics s)"
    using provider.gauge_balanced [of q ?c urlParse version p e None r w s] run by simp
  have "keeps (ae_fk (rv_announce e)) (s\<lparr>sr_metrics := IncInFlight (routeLabel (req_path r)) (sr_metrics s)\<rparr>)
      (snd (state_of (inner_run ?c ?mux r w s)))"
    using provider_mux_well_behaved [of e urlParse version p] by (simp add: inner_run_def well_behaved_def)
  then have inner: "pv_sem (sr_app (snd (state_of (inner_run ?c ?mux r w s)))) = pv_sem (sr_app s)"
    "(db_step (ae_fk (rv_announce e)))\<^sup>*\<^sup>* (pv_db (sr_app s)) (pv_db (sr_app (snd (state_of (inner_run ?c ?mux r w s)))))"
    by (simp_all add: keeps_def)
  have "sr_app s' \<in> {sr_app s, sr_app (snd (state_of (inner_run ?c ?mux r w s)))}"
    using chain_app [of ?c ?mux r w s] run by simp
  then have "pv_sem (sr_app s') = pv_sem (sr_app s) \<and>
      (db_good (ae_fk (rv_announce e)) (pv_db (sr_app s)) \<longrightarrow>
        db_good (ae_fk (rv_announce e)) (pv_db (sr_app s')) \<and> keeps_assets (pv_db (sr_app s)) (pv_db (sr_app s')))"
    using inner(1) db_steps_good [OF inner(2)] by auto
  then show ?thesis using run gauge by (simp add: provider_server_chain)
qed

text \<open>C1. In every state that a started program reaches, by requests and job runs in any order with any failures, the database is
  well-formed and has every asset it had at the start, all upstream permits are free and their number is the configured one, no route counts an
  open request, every token bucket holds between zero and the burst size, and the retry bookkeeping has one entry per asset
  with the configured delays.\<close>

theorem system_invariant:
  assumes "main_start x = Started p" "db_good fk (xm_db x)" "(system_step urlParse version p fk)\<^sup>*\<^sup>* (booted p) s"
  shows "system_inv p fk s"
  using assms(3)
  by (induction rule: rtranclp_induct) (auto intro: system_step_inv booted_inv [OF assms(1,2)])


text \<open>C28. The announce endpoint cannot be called without a body: although the handler takes a missing body as a request for all assets and the
  specification calls the body optional, a request without \<open>Content-Type\<close> for a route that declares content types is answered 400 by the validation
  middleware, before the allowlist and the handler, and nothing changes.\<close>

theorem bodiless_announce_refused:
  assumes "req_path r = ''/internal/announce''" "Header_Get (req_header r) ''Content-Type'' = []" "wr_status w = None"
    and "oa_findRoute (ce_openapi (sx_chain (rv_server e))) r = Some (Some contentTypes)" "contentTypes \<noteq> []"
  shows "\<exists>w' s'. provider_server urlParse version p e r w s = Returned (w', s') \<and> wr_status w' = Some 400 \<and> sr_app s' = sr_app s"
proof -
  have v: "shouldValidateOpenAPIRequest ''/internal/announce''" by code_simp
  have "hd (Split [] CHR '';'') = []" "TrimSpace (ToLower []) = []" by code_simp+
  then have "\<not> requestContentTypeAllowed (Some contentTypes) r" using assms(2,5) by (simp add: requestContentTypeAllowed_def Let_def)
  then have "OpenAPIValidation (ce_openapi (sx_chain (rv_server e))) h ctx r w1 s1 =
      Returned (validation_error (ce_openapi (sx_chain (rv_server e))) w1 ''content type does not match OpenAPI contract'', s1)" for h ctx w1 and s1 :: "app server"
    using assms(1,4) v by (simp add: OpenAPIValidation_def)
  then show ?thesis
    unfolding provider_server_chain server_chain_unfold
    using assms(3) by (simp add: HTTPMetrics_def AccessLog_def Recover_def validation_error_def Let_def)
qed

text \<open>C2. Nobody outside the allowlist changes the database: for a request from a peer whose address the allowlist refuses, and for every request
  when the internal API is disabled, the running server leaves the database exactly as it was.\<close>

theorem internal_guarded:
  assumes "cf_InternalEnable (pd_cfg p) \<longrightarrow> refused_peer (pd_cfg p) (req_remote r)"
  shows "pv_db (sr_app (snd (state_of (provider_server urlParse version p e r w s)))) = pv_db (sr_app s)"
proof -
  have "pv_db (sr_app (snd (state_of (inner_run (sx_chain (rv_server e)) (provider_mux urlParse version p e) r w s)))) = pv_db (sr_app s)"
    unfolding inner_run_def using provider_mux_keeps_db [OF assms] by simp
  then show ?thesis
    unfolding provider_server_chain using chain_app [of "sx_chain (rv_server e)" "provider_mux urlParse version p e" r w s] by auto
qed

text \<open>C23. The readiness endpoint of a started program answers 200 exactly when the database answers, the assets root is a directory, with
  symbolic links forbidden the whole tree below it was read and holds none, and with origin authentication on there
  is a signer; otherwise it answers 503.\<close>

theorem readyz_exact:
  assumes "main_start x = Started p" "wr_status w = None"
  shows "\<exists>w'. ReadyHandler enc (Some (readinessChecker e p)) r w s = Returned (w', s) \<and>
    wr_status w' = Some (if rd_ping e \<and> rd_stat e = Some True \<and>
        (cf_EnforceNoSymlinks (pd_cfg p) \<longrightarrow> (\<exists>t. rd_tree e = Ok t \<and> \<not> has_symlink t \<and> \<not> unreadable t)) \<and>
        (ToLower (TrimSpace (cf_OriginAuthMode (pd_cfg p))) = ''hmac'' \<longrightarrow> (\<exists>sg. pd_signer p = SomeSigner sg))
      then 200 else 503)"
proof -
  have "pd_originAuthReady p \<longleftrightarrow> (\<exists>sg. pd_signer p = SomeSigner sg)" if "ToLower (TrimSpace (cf_OriginAuthMode (pd_cfg p))) = ''hmac''"
    using ready_signer [OF main_start_Started(4) [OF assms(1)] that] .
  then have cond: "readinessChecker e p = Ok () \<longleftrightarrow> rd_ping e \<and> rd_stat e = Some True \<and>
      (cf_EnforceNoSymlinks (pd_cfg p) \<longrightarrow> (\<exists>t. rd_tree e = Ok t \<and> \<not> has_symlink t \<and> \<not> unreadable t)) \<and>
      (ToLower (TrimSpace (cf_OriginAuthMode (pd_cfg p))) = ''hmac'' \<longrightarrow> (\<exists>sg. pd_signer p = SomeSigner sg))"
    unfolding readinessChecker_Ok audit_clean by blast
  show ?thesis unfolding cond [symmetric] using assms(2) by (cases "readinessChecker e p") (simp_all add: ReadyHandler_def)
qed


section \<open>A concrete start\<close>

definition demo_empty_scan :: scan_env where
  "demo_empty_scan = demo_scan\<lparr>se_root := Ok []\<rparr>"

definition demo_start :: startup_env where
  "demo_start = \<lparr>xm_os = demo_os,
     xm_envcheck = \<lparr>ev_readFile = (\<lambda>_. None), ev_unmarshal = (\<lambda>_. None), ev_executable = None, ev_match = (\<lambda>_ _. None)\<rparr>,
     xm_config = demo_ce, xm_mkdir = (\<lambda>_. True), xm_tree = Err NotExist, xm_lib = demo_lib, xm_idReadFails = False,
     xm_idFails = (\<lambda>_. False), xm_tmpPath = ''/i.tmp'', xm_written = 0, xm_keys = demo_keys, xm_uuid = ''p1'', xm_idNow = 1500000000,
     xm_idfs = Map.empty, xm_readSecret = (\<lambda>_. None), xm_crypto = (\<lambda>_. Inl ''no random''), xm_open = (\<lambda>_. False),
     xm_migrate = (\<lambda>_. False), xm_schema = legacy, xm_db = empty_db, xm_scan = demo_empty_scan, xm_scanNow = 0,
     xm_scanFaults = no_rescan_faults, xm_active = (\<lambda>_. False), xm_missing = (\<lambda>_. False), xm_net = (\<lambda>_. Err ''down''),
     xm_urlString = url_path, xm_elapsed = 0\<rparr>"

lemma demo_envcheck: "MustValidate (xm_envcheck demo_start) (xm_os demo_start) = None"
  by (simp add: Envcheck_Validate_def demo_start_def demo_os_def Getenv_def)

lemma demo_load_or_create:
  "\<exists>fs. LoadOrCreate (FileStore_Load demo_lib False False path) (FileStore_Save demo_lib False (\<lambda>_. False) tmp 0 path) demo_keys ''p1'' 1500000000 Map.empty
     = (Ok (demo_identity, True), fs)"
  by (simp add: LoadOrCreate_def demo_new FileStore_Load_def FileStore_Save_def Let_def) (simp add: demo_lib_def)

lemma demo_startup_scan: "\<exists>db m'. startup_scan demo_start cfg m = Ok (db, m')"
proof (cases "cf_ScanOnStartup cfg")
  case True
  have "\<exists>sc m'. Scan demo_empty_scan (assets_root cfg) m = (Ok sc, m')" by (simp add: Scan_def demo_empty_scan_def demo_scan_def Let_def)
  then show ?thesis
    using True
    by (auto simp: startup_scan_def demo_start_def RunRescan_def no_rescan_faults_def UpsertAssets_def upsert_loop_no_fault MarkMissing_def
        CountActive_def CountMissing_def Let_def)
qed (simp add: startup_scan_def)

lemma demo_starts: "\<exists>p. main_start demo_start = Started p"
proof -
  obtain fs where loc: "LoadOrCreate (FileStore_Load demo_lib False False (cf_IdentityPath (Load demo_os)))
      (FileStore_Save demo_lib False (\<lambda>_. False) ''/i.tmp'' 0 (cf_IdentityPath (Load demo_os))) demo_keys ''p1'' 1500000000 Map.empty
     = (Ok (demo_identity, True), fs)" using demo_load_or_create by blast
  obtain sg rdy where sg: "origin_signer (\<lambda>_. None) (\<lambda>_. Inl ''no random'') (Load demo_os) demo_identity = (sg, rdy)" by fastforce
  have "apply_pragmas (\<lambda>_. False) k ps = (Ok (), map Executed ps)" for k ps by (induction ps arbitrary: k) simp_all
  then have op: "\<exists>acts. Open (\<lambda>_. False) (Load demo_os) = (Ok (), acts)" by (simp add: Open_def)
  obtain db m' where scan: "startup_scan demo_start (Load demo_os) (SetDeferredAnnounces 0 (Some [])) = Ok (db, m')" using demo_startup_scan by blast
  have sel: "xm_os demo_start = demo_os" "xm_config demo_start = demo_ce" "xm_mkdir demo_start = (\<lambda>_. True)" "xm_lib demo_start = demo_lib"
    "xm_idReadFails demo_start = False" "xm_idFails demo_start = (\<lambda>_. False)" "xm_tmpPath demo_start = ''/i.tmp''" "xm_written demo_start = 0"
    "xm_keys demo_start = demo_keys" "xm_uuid demo_start = ''p1''" "xm_idNow demo_start = 1500000000" "xm_idfs demo_start = Map.empty"
    "xm_readSecret demo_start = (\<lambda>_. None)" "xm_crypto demo_start = (\<lambda>_. Inl ''no random'')" "xm_open demo_start = (\<lambda>_. False)"
    "xm_migrate demo_start = (\<lambda>_. False)" "xm_schema demo_start = legacy" by (simp_all add: demo_start_def)
  show ?thesis
    using op scan
    unfolding main_start_def Let_def demo_envcheck [unfolded sel(1)] sel demo_validate loc sg legacy_migrates
    by (auto simp: demo_envcheck [unfolded sel(1)] split: prod.split)
qed

lemma demo_provider: "main_start demo_start = Started p \<Longrightarrow> pd_cfg p = Load demo_os"
  using main_start_Started(2) [of demo_start p] by (simp add: demo_start_def)

theorem readyz_exact_witness:
  "\<exists>p w'. main_start demo_start = Started p \<and>
     ReadyHandler re_Status (Some (readinessChecker \<lparr>rd_ping = False, rd_stat = None, rd_tree = Err NotExist\<rparr> p)) (demo_post [] Map.empty) fresh_writer () =
       Returned (w', ()) \<and> wr_status w' = Some 503"
proof -
  obtain p where p: "main_start demo_start = Started p" using demo_starts by blast
  have f: "wr_status fresh_writer = None" by (simp add: fresh_writer_def)
  show ?thesis
    using p readyz_exact [OF p f, of re_Status "\<lparr>rd_ping = False, rd_stat = None, rd_tree = Err NotExist\<rparr>" "demo_post [] Map.empty" "()"] by auto
qed


section \<open>A concrete request\<close>

definition demo_running :: "provider \<Rightarrow> app server" where
  "demo_running p = (provider_state id p)\<lparr>sr_app := (sr_app (provider_state id p))\<lparr>pv_db := empty_db\<rparr>\<rparr>"

theorem request_invariant_witness:
  "\<exists>p w' s'. main_start demo_start = Started p \<and>
     provider_server (ce_urlParse demo_ce) ''v1'' p demo_request_env (demo_post ''10.1.1.1:1'' Map.empty) fresh_writer (demo_running p) =
       Returned (w', s') \<and> pv_sem (sr_app s') = NewSemaphore 64 \<and> db_good True (pv_db (sr_app s'))"
proof -
  obtain p where p: "main_start demo_start = Started p" using demo_starts by blast
  have "ae_fk (rv_announce demo_request_env)" by (simp add: demo_request_env_def demo_announce_env_def)
  moreover have "pv_db (sr_app (demo_running p)) = empty_db" "pv_sem (sr_app (demo_running p)) = NewSemaphore 64"
    using demo_provider [OF p] by (simp_all add: demo_running_def provider_state_def initial_app_def demo_load_fields)
  ultimately show ?thesis
    using p empty_db_good
      request_invariant [of "ce_urlParse demo_ce" "''v1''" p demo_request_env "demo_post ''10.1.1.1:1'' Map.empty" fresh_writer "demo_running p" "[]"]
    by auto
qed

theorem internal_guarded_witness:
  "\<exists>p. main_start demo_start = Started p \<and> cf_InternalEnable (pd_cfg p) \<and>
     pv_db (sr_app (snd (state_of (provider_server (ce_urlParse demo_ce) ''v1'' p demo_request_env (demo_post ''203.0.113.9:1'' spoofed) fresh_writer
       (demo_running p))))) = empty_db"
proof -
  obtain p where p: "main_start demo_start = Started p" using demo_starts by blast
  have r: "refused_peer (pd_cfg p) (req_remote (demo_post ''203.0.113.9:1'' spoofed))"
    using demo_blocks(1) in_configured [of "[0, 0, 0, 0, 0, 0, 0, 0, 0, 0, 0xff, 0xff, 203, 0, 113, 9]" "''10.0.0.0/8''"]
      in_configured [of "[0, 0, 0, 0, 0, 0, 0, 0, 0, 0, 0xff, 0xff, 203, 0, 113, 9]" "[]"]
    unfolding refused_peer_def demo_remote demo_peers demo_provider [OF p]
    by (simp add: newAllowlist_def Let_def demo_load_fields demo_internal within_blocks_def entries_def splitCSV_def)
  have "cf_InternalEnable (pd_cfg p)" "pv_db (sr_app (demo_running p)) = empty_db"
    using demo_provider [OF p] by (simp_all add: demo_running_def demo_internal)
  then show ?thesis
    using p internal_guarded [of p "demo_post ''203.0.113.9:1'' spoofed" "ce_urlParse demo_ce" "''v1''" demo_request_env fresh_writer "demo_running p"] r
    by auto
qed

text \<open>A program that started and has served a request.\<close>

theorem system_invariant_witness:
  "\<exists>p s. main_start demo_start = Started p \<and> system_step (ce_urlParse demo_ce) ''v1'' p True (booted p) s \<and> system_inv p True s"
proof -
  obtain p where p: "main_start demo_start = Started p" using demo_starts by blast
  let ?e = "demo_request_env\<lparr>rv_server := demo_server_env\<lparr>sx_fl := fl64\<rparr>\<rparr>"
  let ?s = "(booted p)\<lparr>sy_server := snd (state_of (provider_server (ce_urlParse demo_ce) ''v1'' p ?e (demo_post ''10.1.1.1:1'' Map.empty) fresh_writer (sy_server (booted p))))\<rparr>"
  have "ae_fk (rv_announce ?e) = True" "sx_fl (rv_server ?e) = fl64" by (simp_all add: demo_request_env_def demo_announce_env_def)
  then have step: "system_step (ce_urlParse demo_ce) ''v1'' p True (booted p) ?s" by (rule system_step.request)
  then have steps: "(system_step (ce_urlParse demo_ce) ''v1'' p True)\<^sup>*\<^sup>* (booted p) ?s" by (rule r_into_rtranclp)
  have "db_good True (xm_db demo_start)" using empty_db_good by (simp add: demo_start_def)
  then have "system_inv p True ?s" using system_invariant [OF p _ steps] by simp
  then show ?thesis using p step by (intro exI conjI)
qed

definition demo_announce_chain :: chain_env where
  "demo_announce_chain = demo_chain\<lparr>ce_openapi := \<lparr>oa_findRoute = (\<lambda>_. Some (Some [''application/json''])), oa_validate = (\<lambda>_. None), oa_quote = id\<rparr>\<rparr>"

theorem bodiless_announce_refused_witness:
  "\<exists>p w' s'. main_start demo_start = Started p \<and>
     provider_server (ce_urlParse demo_ce) ''v1'' p (demo_request_env\<lparr>rv_server := demo_server_env\<lparr>sx_chain := demo_announce_chain\<rparr>\<rparr>)
       ((demo_post ''10.1.1.1:1'' Map.empty)\<lparr>req_path := ''/internal/announce''\<rparr>) fresh_writer (demo_running p) = Returned (w', s') \<and>
     wr_status w' = Some 400"
proof -
  obtain p where p: "main_start demo_start = Started p" using demo_starts by blast
  let ?e = "demo_request_env\<lparr>rv_server := demo_server_env\<lparr>sx_chain := demo_announce_chain\<rparr>\<rparr>"
    and ?r = "(demo_post ''10.1.1.1:1'' Map.empty)\<lparr>req_path := ''/internal/announce''\<rparr>"
  have "req_path ?r = ''/internal/announce''" "Header_Get (req_header ?r) ''Content-Type'' = []" "wr_status fresh_writer = None"
    "oa_findRoute (ce_openapi (sx_chain (rv_server ?e))) ?r = Some (Some [''application/json''])" "[''application/json''] \<noteq> []"
    by (simp_all add: demo_post_def Header_Get_def header_values_def fresh_writer_def demo_announce_chain_def)
  from bodiless_announce_refused [OF this, of "ce_urlParse demo_ce" "''v1''" p "demo_running p"] show ?thesis using p by blast
qed

end
